(* ===== verification/Shim_Prelude.thy ===== *)
theory Shim_Prelude
  imports Main "HOL-Library.Word"
begin

text \<open>
  Shared vocabulary of the development: C strings as lists of bytes, the parts of the C
  library the shim uses on them (prefix comparison, \<open>strchr\<close>, bounded
  formatting, \<open>fgets\<close>, \<open>%llu\<close>), and the lemmas every component needs
  about them. A C string is the list of its bytes before the terminating NUL; a NULL
  pointer, where a function tests for it, is the \<open>None\<close> of an option.
\<close>

named_theorems bytes "facts about byte strings the component proofs rewrite with"

type_synonym u8 = "8 word"
type_synonym u16 = "16 word"
type_synonym u32 = "32 word"
type_synonym u64 = "64 word"

text \<open>The process environment, as \<open>getenv\<close> sees it.\<close>

type_synonym env = "string \<Rightarrow> string option"

abbreviation NUL :: char where "NUL \<equiv> CHR 0x00"
abbreviation LF :: char where "LF \<equiv> CHR 0x0A"
abbreviation CR :: char where "CR \<equiv> CHR 0x0D"
abbreviation TAB :: char where "TAB \<equiv> CHR 0x09"
abbreviation SPACE :: char where "SPACE \<equiv> CHR '' ''"
abbreviation SLASH :: char where "SLASH \<equiv> CHR ''/''"

section \<open>C strings\<close>

text \<open>The C string that starts a byte buffer: its bytes before the first NUL.\<close>

definition cstr :: "string \<Rightarrow> string" where
  "cstr bs = takeWhile (\<lambda>c. c \<noteq> NUL) bs"

text \<open>\<open>strncmp (s, p, strlen (p)) == 0\<close> (and \<open>memcmp\<close>, where \<open>s\<close> is long enough).\<close>

definition starts_with :: "string \<Rightarrow> string \<Rightarrow> bool" where
  "starts_with s p \<longleftrightarrow> take (length p) s = p"

text \<open>
  \<open>strchr (s, c)\<close>: where \<open>c\<close> occurs first, as the text before it and the text after it.
\<close>

fun strchr :: "char \<Rightarrow> string \<Rightarrow> (string \<times> string) option" where
  "strchr c [] = None"
| "strchr c (x # xs) =
     (if x = c then Some ([], xs)
      else (case strchr c xs of None \<Rightarrow> None | Some (a, b) \<Rightarrow> Some (x # a, b)))"

text \<open>
  \<open>snprintf (buf, n, ...)\<close> of the text \<open>s\<close>, where the caller treats a result that does not
  fit (with its NUL) as a failure.
\<close>

definition fits :: "nat \<Rightarrow> string \<Rightarrow> string option" where
  "fits n s = (if length s < n then Some s else None)"

text \<open>\<open>isdigit\<close> and \<open>isspace\<close> of the C locale, and the value of a digit.\<close>

definition is_digit :: "char \<Rightarrow> bool" where
  "is_digit c \<longleftrightarrow> (48::nat) \<le> of_char c \<and> of_char c \<le> (57::nat)"

definition digit_val :: "char \<Rightarrow> nat" where
  "digit_val c = of_char c - 48"

definition is_space :: "char \<Rightarrow> bool" where
  "is_space c \<longleftrightarrow> c = SPACE \<or> ((9::nat) \<le> of_char c \<and> of_char c \<le> (13::nat))"

text \<open>The decimal text of a number (\<open>%llu\<close>), and the number a digit string denotes.\<close>

fun show_nat :: "nat \<Rightarrow> string" where
  "show_nat n = (if n < 10 then [char_of (48 + n)]
                 else show_nat (n div 10) @ [char_of (48 + n mod 10)])"

declare show_nat.simps [simp del]

definition dec_from :: "nat \<Rightarrow> string \<Rightarrow> nat" where
  "dec_from v s = foldl (\<lambda>v c. v * 10 + digit_val c) v s"

definition all_digits :: "string \<Rightarrow> bool" where
  "all_digits s \<longleftrightarrow> list_all is_digit s"

text \<open>\<open>%16llu\<close>: at least \<open>w\<close> columns, padded with blanks on the left.\<close>

definition pad_left :: "nat \<Rightarrow> string \<Rightarrow> string" where
  "pad_left w s = replicate (w - length s) SPACE @ s"

text \<open>The bytes behind a pointer, where NULL holds none.\<close>

definition the_default :: "'a \<Rightarrow> 'a option \<Rightarrow> 'a" where
  "the_default d x = (case x of None \<Rightarrow> d | Some y \<Rightarrow> y)"

section \<open>Streams and fgets\<close>

text \<open>
  A stream opened for reading: the bytes it will deliver, and whether it then ends with a
  read error instead of the end of the file.
\<close>

record stream =
  st_data :: string
  st_err :: bool

text \<open>What \<open>fopen (path, "r")\<close> finds; \<open>None\<close> is a failed open.\<close>

type_synonym fs = "string \<Rightarrow> stream option"

text \<open>The bytes of the next line, at most \<open>m\<close> of them, and the bytes after them.\<close>

fun next_chunk :: "nat \<Rightarrow> string \<Rightarrow> string \<times> string" where
  "next_chunk 0 d = ([], d)"
| "next_chunk (Suc m) [] = ([], [])"
| "next_chunk (Suc m) (c # cs) =
     (if c = LF then ([c], cs)
      else (let (l, r) = next_chunk m cs in (c # l, r)))"

text \<open>
  \<open>fgets (buf, n, fp)\<close>: a line with its newline, or \<open>n - 1\<close> bytes of a longer one, or
  the rest of the file. At the end of the data a read error discards the partial line.
\<close>

definition fgets :: "nat \<Rightarrow> stream \<Rightarrow> (string \<times> stream) option" where
  "fgets n st =
     (let (l, r) = next_chunk (n - 1) (st_data st) in
      if l = [] then None
      else if r = [] \<and> last l \<noteq> LF \<and> length l < n - 1 \<and> st_err st then None
      else Some (l, st\<lparr>st_data := r\<rparr>))"

lemma next_chunk_append [bytes]: "next_chunk m d = (l, r) \<Longrightarrow> l @ r = d"
  by (induction m d arbitrary: l r rule: next_chunk.induct)
    (auto split: if_splits prod.splits)

lemma fgets_SomeD:
  assumes "fgets n st = Some (l, st')"
  shows "l \<noteq> []" "l @ st_data st' = st_data st" "st_err st' = st_err st"
proof -
  obtain a r where ar: "next_chunk (n - 1) (st_data st) = (a, r)" by fastforce
  with assms have *: "l = a" "a \<noteq> []" "st' = st\<lparr>st_data := r\<rparr>"
    by (auto simp: fgets_def split: if_splits)
  with next_chunk_append [OF ar]
  show "l \<noteq> []" "l @ st_data st' = st_data st" "st_err st' = st_err st" by simp_all
qed

lemma fgets_shrinks:
  assumes "fgets n st = Some (l, st')"
  shows "length (st_data st') < length (st_data st)"
  using fgets_SomeD [OF assms] by (metis length_append length_greater_0_conv less_add_same_cancel2)

text \<open>The successive buffers of \<open>while (fgets (line, n, fp) != NULL)\<close>.\<close>

function fgets_all :: "nat \<Rightarrow> stream \<Rightarrow> string list" where
  "fgets_all n st =
     (case fgets n st of None \<Rightarrow> [] | Some (l, st') \<Rightarrow> l # fgets_all n st')"
  by pat_completeness auto
termination
  by (relation "measure (\<lambda>(n, st). length (st_data st))") (auto dest: fgets_shrinks)

declare fgets_all.simps [simp del]

section \<open>Lemmas\<close>

lemma cstr_no_NUL [simp]: "NUL \<notin> set (cstr bs)"
  by (auto simp: cstr_def dest: set_takeWhileD)

lemma the_default_simps [simp]: "the_default d None = d" "the_default d (Some y) = y"
  by (simp_all add: the_default_def)

lemma cstr_id [simp]: "NUL \<notin> set bs \<Longrightarrow> cstr bs = bs"
  by (auto simp: cstr_def takeWhile_eq_all_conv)

lemma cstr_Nil [simp]: "cstr [] = []"
  by (simp add: cstr_def)

lemma starts_with_iff [bytes]: "starts_with s p \<longleftrightarrow> (\<exists>r. s = p @ r)"
  by (metis append_eq_conv_conj append_take_drop_id starts_with_def)

lemma starts_with_append [simp]: "starts_with (p @ r) p"
  by (simp add: starts_with_def)

lemma strchr_None_iff [simp]: "strchr c s = None \<longleftrightarrow> c \<notin> set s"
  by (induction s) (auto split: option.splits)

lemma strchr_Some_iff [bytes]: "strchr c s = Some (a, b) \<longleftrightarrow> s = a @ c # b \<and> c \<notin> set a"
proof (induction s arbitrary: a)
  case Nil
  then show ?case by simp
next
  case (Cons x xs)
  show ?case
  proof (cases "x = c")
    case True
    then show ?thesis by (cases a) auto
  next
    case False
    have "strchr c (x # xs) = Some (a, b) \<longleftrightarrow>
          (\<exists>a'. strchr c xs = Some (a', b) \<and> a = x # a')"
      using False by (cases "strchr c xs") (auto simp del: strchr_None_iff)
    also have "\<dots> \<longleftrightarrow> x # xs = a @ c # b \<and> c \<notin> set a"
      using False by (cases a) (auto simp: Cons.IH)
    finally show ?thesis .
  qed
qed

lemma strchr_append [simp]: "c \<notin> set a \<Longrightarrow> strchr c (a @ c # b) = Some (a, b)"
  by (simp add: strchr_Some_iff)

lemma fits_Some_iff [simp]: "fits n s = Some t \<longleftrightarrow> t = s \<and> length s < n"
  by (auto simp: fits_def)

lemma fits_None_iff [simp]: "fits n s = None \<longleftrightarrow> n \<le> length s"
  by (auto simp: fits_def)

lemma fits_bind [simp]: "Option.bind (fits n s) (\<lambda>b. fits n (b @ t)) = fits n (s @ t)"
  by (auto simp: fits_def)

lemma digit_val_le: "is_digit c \<Longrightarrow> digit_val c \<le> 9"
  by (auto simp: is_digit_def digit_val_def)

lemma of_char_digit [simp]: "n < 10 \<Longrightarrow> (of_char (char_of (48 + n :: nat) :: char) :: nat) = 48 + n"
  by simp

lemma is_digit_char_of [simp]: "n < 10 \<Longrightarrow> is_digit (char_of (48 + n :: nat))"
  by (simp add: is_digit_def)

lemma digit_val_char_of [simp]: "n < 10 \<Longrightarrow> digit_val (char_of (48 + n :: nat)) = n"
  by (simp add: digit_val_def)

lemma dec_from_Nil [simp]: "dec_from v [] = v"
  by (simp add: dec_from_def)

lemma dec_from_Cons [simp]: "dec_from v (c # s) = dec_from (v * 10 + digit_val c) s"
  by (simp add: dec_from_def)

lemma dec_from_append [simp]: "dec_from v (s @ t) = dec_from (dec_from v s) t"
  by (simp add: dec_from_def)

lemma dec_from_ge: "v \<le> dec_from v s"
proof (induction s arbitrary: v)
  case Nil
  then show ?case by simp
next
  case (Cons c s)
  have "v \<le> v * 10 + digit_val c" by simp
  also have "\<dots> \<le> dec_from (v * 10 + digit_val c) s" by (rule Cons.IH)
  finally show ?case by simp
qed

lemma all_digits_Nil [simp]: "all_digits []"
  by (simp add: all_digits_def)

lemma all_digits_Cons [simp]: "all_digits (c # s) \<longleftrightarrow> is_digit c \<and> all_digits s"
  by (simp add: all_digits_def)

lemma all_digits_append [simp]: "all_digits (s @ t) \<longleftrightarrow> all_digits s \<and> all_digits t"
  by (simp add: all_digits_def)

lemma show_nat_digits [simp]: "all_digits (show_nat n)"
proof (induction n rule: show_nat.induct)
  case (1 n)
  then show ?case by (cases "n < 10") (simp_all add: show_nat.simps [of n])
qed

lemma show_nat_nonempty [simp]: "show_nat n \<noteq> []"
  by (subst show_nat.simps) simp

lemma show_nat_value [simp]: "dec_from 0 (show_nat n) = n"
proof (induction n rule: show_nat.induct)
  case (1 n)
  then show ?case by (cases "n < 10") (simp_all add: show_nat.simps [of n])
qed

lemma show_nat_length: "n < 10 ^ k \<Longrightarrow> 0 < k \<Longrightarrow> length (show_nat n) \<le> k"
proof (induction k arbitrary: n)
  case 0
  then show ?case by simp
next
  case (Suc k)
  show ?case
  proof (cases "n < 10")
    case True
    then show ?thesis by (simp add: show_nat.simps [of n])
  next
    case False
    with Suc.prems have "n div 10 < 10 ^ k" and "0 < k"
      by (auto simp: less_mult_imp_div_less mult.commute intro: gr0I)
    with Suc.IH have "length (show_nat (n div 10)) \<le> k" by blast
    with False show ?thesis by (simp add: show_nat.simps [of n])
  qed
qed

lemma digit_not_special:
  assumes "is_digit c"
  shows "c \<noteq> NUL" "c \<noteq> LF" "c \<noteq> SPACE" "c \<noteq> SLASH" "\<not> is_space c"
  using assms by (auto simp: is_digit_def is_space_def)

lemma fgets_all_concat:
  "\<not> st_err st \<Longrightarrow> 1 < n \<Longrightarrow> concat (fgets_all n st) = st_data st"
proof (induction n st rule: fgets_all.induct)
  case (1 n st)
  obtain l r where lr: "next_chunk (n - 1) (st_data st) = (l, r)" by fastforce
  show ?case
  proof (cases "fgets n st")
    case None
    with lr "1.prems" have "l = []" by (auto simp: fgets_def split: if_splits)
    with lr "1.prems" have "st_data st = []"
      by (cases "n - 1"; cases "st_data st") (auto split: if_splits prod.splits)
    with None show ?thesis by (simp add: fgets_all.simps [of n st])
  next
    case (Some p)
    with lr have p: "p = (l, st\<lparr>st_data := r\<rparr>)" by (auto simp: fgets_def split: if_splits)
    from Some p have "fgets n st = Some (l, st\<lparr>st_data := r\<rparr>)" by simp
    from "1.IH" [OF this refl] "1.prems"
    have "concat (fgets_all n (st\<lparr>st_data := r\<rparr>)) = r" by simp
    with Some p next_chunk_append [OF lr] show ?thesis
      by (simp add: fgets_all.simps [of n st])
  qed
qed

lemma next_chunk_line [bytes]:
  "LF \<notin> set l \<Longrightarrow> length l < m \<Longrightarrow> next_chunk m (l @ LF # r) = (l @ [LF], r)"
proof (induction l arbitrary: m)
  case Nil
  then show ?case by (cases m) auto
next
  case (Cons c l)
  then show ?case by (cases m) auto
qed

lemma fgets_line:
  "LF \<notin> set l \<Longrightarrow> length l < n - 1 \<Longrightarrow>
     fgets n \<lparr>st_data = l @ LF # r, st_err = e\<rparr> = Some (l @ [LF], \<lparr>st_data = r, st_err = e\<rparr>)"
  by (simp add: fgets_def next_chunk_line)

lemma fgets_eof [simp]: "fgets n \<lparr>st_data = [], st_err = e\<rparr> = None"
  by (cases "n - 1") (simp_all add: fgets_def)

text \<open>A file of short lines is read line by line.\<close>

lemma fgets_all_lines:
  "\<forall>l \<in> set ls. LF \<notin> set l \<and> length l < n - 1 \<Longrightarrow>
     fgets_all n \<lparr>st_data = concat (map (\<lambda>l. l @ [LF]) ls), st_err = e\<rparr> = map (\<lambda>l. l @ [LF]) ls"
proof (induction ls)
  case Nil
  then show ?case by (simp add: fgets_all.simps)
next
  case (Cons l ls)
  let ?rest = "concat (map (\<lambda>l. l @ [LF]) ls)"
  have "fgets n \<lparr>st_data = l @ LF # ?rest, st_err = e\<rparr> =
      Some (l @ [LF], \<lparr>st_data = ?rest, st_err = e\<rparr>)"
    using Cons.prems by (intro fgets_line) auto
  with Cons show ?case by (subst fgets_all.simps) simp
qed

lemma fgets_all_one_line:
  "LF \<notin> set l \<Longrightarrow> length l < n - 1 \<Longrightarrow>
     fgets_all n \<lparr>st_data = l @ [LF], st_err = e\<rparr> = [l @ [LF]]"
  using fgets_all_lines [of "[l]" n e] by simp

lemma all_digits_no:
  assumes "all_digits s"
  shows "NUL \<notin> set s" "LF \<notin> set s" "SPACE \<notin> set s" "SLASH \<notin> set s" "\<forall>c \<in> set s. \<not> is_space c"
  using assms digit_not_special unfolding all_digits_def list_all_iff by metis+

end
