(* ===== verification/Core_Config.thy ===== *)
theory Core_Config
  imports Shim_Prelude
begin

text \<open>
  The shim's core services: the configuration read once from the environment
  (\<open>core/config.c\<close>, \<open>gpu/gpu_video.c\<close>), the per-thread reentrancy guard
  (\<open>core/guard.c\<close>), trace output (\<open>core/log.c\<close>) and the table of libc's own functions
  (\<open>core/real.c\<close>).
\<close>

section \<open>Configuration\<close>

record rps_config =
  cfg_gpu_video :: bool
  cfg_gpu_ioctl :: bool
  cfg_cgroup_memory :: bool
  cfg_trace :: bool

text \<open>The static variables of \<open>config.c\<close>: the configuration and whether it was read.\<close>

record config_state =
  cs_config :: rps_config
  cs_initialized :: bool

definition config_state_init :: config_state where
  "config_state_init =
     \<lparr>cs_config = \<lparr>cfg_gpu_video = False, cfg_gpu_ioctl = False,
                   cfg_cgroup_memory = False, cfg_trace = False\<rparr>,
      cs_initialized = False\<rparr>"

definition rps_env_is_disabled :: "env \<Rightarrow> string \<Rightarrow> bool" where
  "rps_env_is_disabled env name =
     (case env name of
        None \<Rightarrow> False
      | Some value \<Rightarrow>
          value = ''0'' \<or> value = ''false'' \<or> value = ''FALSE'' \<or> value = ''off'' \<or>
          value = ''OFF'' \<or> value = ''no'' \<or> value = ''NO'')"

definition rps_env_is_enabled :: "env \<Rightarrow> string \<Rightarrow> bool" where
  "rps_env_is_enabled env name =
     (case env name of
        None \<Rightarrow> False
      | Some value \<Rightarrow>
          value = ''1'' \<or> value = ''true'' \<or> value = ''TRUE'' \<or> value = ''on'' \<or>
          value = ''ON'' \<or> value = ''yes'' \<or> value = ''YES'')"

definition rps_config_get :: "env \<Rightarrow> config_state \<Rightarrow> rps_config \<times> config_state" where
  "rps_config_get env st =
     (let st' =
        (if \<not> cs_initialized st
         then \<lparr>cs_config =
                 \<lparr>cfg_gpu_video = \<not> rps_env_is_disabled env ''RUNPOD_SHIM_GPU_VIDEO'',
                  cfg_gpu_ioctl = \<not> rps_env_is_disabled env ''RUNPOD_SHIM_GPU_IOCTL'',
                  cfg_cgroup_memory = \<not> rps_env_is_disabled env ''RUNPOD_SHIM_CGROUP_MEMORY'',
                  cfg_trace = rps_env_is_enabled env ''RUNPOD_SHIM_TRACE''\<rparr>,
               cs_initialized = True\<rparr>
         else st)
      in (cs_config st', st'))"

definition rps_gpu_video_enabled :: "rps_config \<Rightarrow> bool" where
  "rps_gpu_video_enabled cfg = cfg_gpu_video cfg"

definition rps_gpu_ioctl_enabled :: "rps_config \<Rightarrow> bool" where
  "rps_gpu_ioctl_enabled cfg \<longleftrightarrow> cfg_gpu_video cfg \<and> cfg_gpu_ioctl cfg"

section \<open>The reentrancy guard\<close>

text \<open>The thread-local \<open>depth\<close>; entering succeeds only from depth 0.\<close>

definition rps_guard_enter :: "int \<Rightarrow> bool \<times> int" where
  "rps_guard_enter depth = (if depth \<noteq> 0 then (False, depth) else (True, depth + 1))"

definition rps_guard_leave :: "int \<Rightarrow> int" where
  "rps_guard_leave depth = (if depth > 0 then depth - 1 else depth)"

section \<open>Trace output\<close>

text \<open>What one trace call leaves on standard error, after the text already there.\<close>

definition rps_trace :: "rps_config \<Rightarrow> string \<Rightarrow> string \<Rightarrow> string" where
  "rps_trace cfg message stderr =
     (if \<not> cfg_trace cfg then stderr
      else stderr @ ''[runpod-shim] '' @ message @ [LF])"

section \<open>libc's own functions\<close>

text \<open>
  \<open>dlsym (RTLD_NEXT, name)\<close> is a parameter. A missing symbol prints the fatal line and
  ends the process with status 127 (\<open>Inl\<close>).
\<close>

definition load_symbol :: "(string \<Rightarrow> 'f option) \<Rightarrow> string \<Rightarrow> string + 'f" where
  "load_symbol dlsym name =
     (case dlsym name of
        None \<Rightarrow> Inl (''[runpod-shim] fatal: missing libc symbol '' @ name @ [LF])
      | Some fn \<Rightarrow> Inr fn)"

definition real_symbols :: "string list" where
  "real_symbols =
     [''open'', ''open64'', ''openat'', ''fopen'', ''fopen64'', ''fdopen'', ''close'',
      ''read'', ''dup'', ''dup2'', ''dup3'', ''fcntl'', ''sysconf'', ''sysinfo'', ''stat'',
      ''fstat'', ''ioctl'', ''opendir'', ''readdir'', ''closedir'']"

fun load_symbols :: "(string \<Rightarrow> 'f option) \<Rightarrow> string list \<Rightarrow> string + (string \<times> 'f) list" where
  "load_symbols dlsym [] = Inr []"
| "load_symbols dlsym (name # names) =
     (case load_symbol dlsym name of
        Inl fatal \<Rightarrow> Inl fatal
      | Inr fn \<Rightarrow>
          (case load_symbols dlsym names of
             Inl fatal \<Rightarrow> Inl fatal
           | Inr rest \<Rightarrow> Inr ((name, fn) # rest)))"

text \<open>\<open>real_fns\<close> with \<open>initialized\<close>: \<open>None\<close> before the first call.\<close>

definition rps_real_get ::
    "(string \<Rightarrow> 'f option) \<Rightarrow> (string \<times> 'f) list option \<Rightarrow> string + (string \<times> 'f) list" where
  "rps_real_get dlsym real_fns =
     (case real_fns of
        None \<Rightarrow> load_symbols dlsym real_symbols
      | Some fns \<Rightarrow> Inr fns)"

section \<open>Lemmas\<close>

lemma rps_env_is_disabled_iff:
  "rps_env_is_disabled env name \<longleftrightarrow>
     env name \<in> Some ` {''0'', ''false'', ''FALSE'', ''off'', ''OFF'', ''no'', ''NO''}"
  unfolding rps_env_is_disabled_def
  by (cases "env name") (simp_all only: option.case image_insert image_empty insert_iff empty_iff
      option.inject option.distinct simp_thms)

lemma rps_config_get_initialized:
  "cs_initialized st \<Longrightarrow> rps_config_get env st = (cs_config st, st)"
  by (simp add: rps_config_get_def)

lemma rps_config_get_sets:
  "rps_config_get env st = (cfg, st') \<Longrightarrow> cs_initialized st' \<and> cs_config st' = cfg"
  by (auto simp: rps_config_get_def Let_def split: if_splits)

lemma guard_enter_leave [simp]:
  "rps_guard_enter 0 = (True, 1)" "rps_guard_leave 1 = 0"
  by (simp_all add: rps_guard_enter_def rps_guard_leave_def)

lemma load_symbols_Inr_iff:
  "(\<exists>fns. load_symbols dlsym names = Inr fns) \<longleftrightarrow> (\<forall>n \<in> set names. dlsym n \<noteq> None)"
  by (induction names) (auto simp: load_symbol_def split: option.splits sum.splits)

section \<open>Properties\<close>

text \<open>
  The first call fixes the configuration; a module is on unless its variable holds a disabling
  word, and tracing is off unless its variable holds an enabling one.
\<close>

lemma config_read_once_default_on:
  assumes "rps_config_get env config_state_init = (cfg, st)"
  shows "rps_config_get later st = (cfg, st) \<and>
         (cfg_gpu_video cfg \<longleftrightarrow> env ''RUNPOD_SHIM_GPU_VIDEO'' \<notin>
            Some ` {''0'', ''false'', ''FALSE'', ''off'', ''OFF'', ''no'', ''NO''}) \<and>
         (cfg_cgroup_memory cfg \<longleftrightarrow> env ''RUNPOD_SHIM_CGROUP_MEMORY'' \<notin>
            Some ` {''0'', ''false'', ''FALSE'', ''off'', ''OFF'', ''no'', ''NO''}) \<and>
         (rps_gpu_ioctl_enabled cfg \<longrightarrow> rps_gpu_video_enabled cfg) \<and>
         (env ''RUNPOD_SHIM_TRACE'' = None \<longrightarrow> \<not> cfg_trace cfg)"
proof -
  have st: "cs_initialized st" "cs_config st = cfg"
    using rps_config_get_sets [OF assms] by simp_all
  have cfg: "cfg_gpu_video cfg = (\<not> rps_env_is_disabled env ''RUNPOD_SHIM_GPU_VIDEO'')"
    "cfg_cgroup_memory cfg = (\<not> rps_env_is_disabled env ''RUNPOD_SHIM_CGROUP_MEMORY'')"
    "cfg_trace cfg = rps_env_is_enabled env ''RUNPOD_SHIM_TRACE''"
    using assms by (auto simp: rps_config_get_def config_state_init_def)
  have trace: "env ''RUNPOD_SHIM_TRACE'' = None \<longrightarrow> \<not> cfg_trace cfg"
    by (simp add: cfg(3) rps_env_is_enabled_def)
  have ioctl: "rps_gpu_ioctl_enabled cfg \<longrightarrow> rps_gpu_video_enabled cfg"
    by (simp add: rps_gpu_ioctl_enabled_def rps_gpu_video_enabled_def)
  show ?thesis
    using trace ioctl
    unfolding cfg(1,2) rps_env_is_disabled_iff rps_config_get_initialized [OF st(1)] st(2)
    by blast
qed

end
