(* ===== verification/Core_Paths.thy ===== *)
theory Core_Paths
  imports Shim_Prelude
begin

text \<open>
  Path construction (\<open>core/paths.c\<close>): the file under \<open>/proc\<close> to open, and the file of a
  cgroup controller, from the mount point, the part of the hierarchy mounted there and
  the process's own cgroup. Buffers are bounded: a path that does not fit, with its NUL,
  is a failure (\<open>None\<close>, the code's -1).
\<close>

section \<open>Operations\<close>

definition clean_rel :: "string \<Rightarrow> string" where
  "clean_rel path = dropWhile (\<lambda>c. c = SLASH) path"

definition clean_proc_rel :: "string \<Rightarrow> string" where
  "clean_proc_rel path =
     (if starts_with path ''/proc/self/'' then drop (length ''/proc/self/'') path
      else clean_rel path)"

definition clean_cgroup_mount_rel :: "string \<Rightarrow> string" where
  "clean_cgroup_mount_rel mount_point =
     (let cgroup_root = ''/sys/fs/cgroup''; n = length cgroup_root in
      if mount_point = cgroup_root then []
      else if starts_with mount_point cgroup_root \<and> take 1 (drop n mount_point) = [SLASH]
      then drop (n + 1) mount_point
      else clean_rel mount_point)"

text \<open>
  The buffer holds \<open>buf\<close> (\<open>*used\<close> is its length); the segment goes behind a slash, with
  its own leading slashes dropped.
\<close>

definition append_segment :: "nat \<Rightarrow> string \<Rightarrow> string \<Rightarrow> string option" where
  "append_segment buflen buf segment =
     (if segment = [] then Some buf
      else let piece = (if buf \<noteq> [] \<and> last buf = SLASH then clean_rel segment
                        else SLASH # clean_rel segment) in
           if length piece \<ge> buflen - length buf then None else Some (buf @ piece))"

text \<open>\<open>while (root_len > 1 && mount_root[root_len - 1] == '/') root_len--\<close>\<close>

function strip_slashes :: "string \<Rightarrow> string" where
  "strip_slashes r =
     (if length r > 1 \<and> last r = SLASH then strip_slashes (butlast r) else r)"
  by pat_completeness auto
termination
  by (relation "measure length") auto

declare strip_slashes.simps [simp del]

text \<open>A NULL or empty argument stands for the root directory.\<close>

definition or_root :: "string option \<Rightarrow> string" where
  "or_root p = (case p of None \<Rightarrow> ''/'' | Some s \<Rightarrow> if s = [] then ''/'' else s)"

definition cgroup_path_under_mount_root :: "string option \<Rightarrow> string option \<Rightarrow> string option" where
  "cgroup_path_under_mount_root mount_root rel_path =
     (let rel = or_root rel_path;
          root = strip_slashes (or_root mount_root) in
      if root = ''/'' then Some rel
      else if \<not> starts_with rel root then None
      else let rest = drop (length root) rel in
           if rest \<noteq> [] \<and> hd rest \<noteq> SLASH then None
           else Some (if rest = [] then ''/'' else rest))"

definition rps_proc_path :: "env \<Rightarrow> nat \<Rightarrow> string \<Rightarrow> string option" where
  "rps_proc_path env buflen path =
     (case env ''RUNPOD_SHIM_TEST_PROC_ROOT'' of
        None \<Rightarrow> fits buflen path
      | Some root \<Rightarrow>
          if root = [] then fits buflen path
          else fits buflen (root @ ''/'' @ clean_proc_rel path))"

definition rps_cgroup_path ::
    "env \<Rightarrow> nat \<Rightarrow> string \<Rightarrow> string option \<Rightarrow> string option \<Rightarrow> string \<Rightarrow> string option" where
  "rps_cgroup_path env buflen mount_point mount_root rel_path file =
     (case cgroup_path_under_mount_root mount_root rel_path of
        None \<Rightarrow> None
      | Some inside_mount \<Rightarrow>
          let (root, mount) =
            (case env ''RUNPOD_SHIM_TEST_CGROUP_ROOT'' of
               None \<Rightarrow> (mount_point, [])
             | Some r \<Rightarrow> if r = [] then (mount_point, [])
                         else (r, clean_cgroup_mount_rel mount_point)) in
          Option.bind (fits buflen root)
            (\<lambda>buf. Option.bind (append_segment buflen buf mount)
              (\<lambda>buf. Option.bind (append_segment buflen buf inside_mount)
                (\<lambda>buf. append_segment buflen buf file))))"

section \<open>Lemmas\<close>

lemma clean_rel_no_slash [simp]: "take 1 s \<noteq> [SLASH] \<Longrightarrow> clean_rel s = s"
  by (cases s) (auto simp: clean_rel_def)

lemma clean_rel_Cons_slash [simp]: "clean_rel (SLASH # s) = clean_rel s"
  by (simp add: clean_rel_def)

lemma length_clean_rel: "length (clean_rel s) \<le> length s"
  by (simp add: clean_rel_def length_dropWhile_le)

lemma append_segment_bound:
  "append_segment n buf seg = Some buf' \<Longrightarrow> length buf < n \<Longrightarrow>
     length buf' < n \<and> take (length buf) buf' = buf"
  by (auto simp: append_segment_def Let_def split: if_splits)

lemma append_segment_Nil [simp]: "append_segment n buf [] = Some buf"
  by (simp add: append_segment_def)

lemma append_segment_fits:
  "seg \<noteq> [] \<Longrightarrow> append_segment n buf seg =
     fits n (buf @ (if buf \<noteq> [] \<and> last buf = SLASH then clean_rel seg
                    else SLASH # clean_rel seg))"
  by (auto simp: append_segment_def fits_def Let_def)

lemma append_segment_plain:
  "buf \<noteq> [] \<Longrightarrow> last buf \<noteq> SLASH \<Longrightarrow> seg \<noteq> [] \<Longrightarrow>
     append_segment n buf seg = fits n (buf @ SLASH # clean_rel seg)"
  by (simp add: append_segment_fits)

lemma append_segment_after_slash:
  "seg \<noteq> [] \<Longrightarrow> append_segment n (buf @ ''/'') seg = fits n (buf @ SLASH # clean_rel seg)"
  by (simp add: append_segment_fits)

text \<open>The last two segments of a path behind a mount point that fits.\<close>

definition two_segments :: "nat \<Rightarrow> string \<Rightarrow> string \<Rightarrow> string \<Rightarrow> string option" where
  "two_segments n buf seg1 seg2 =
     Option.bind (fits n buf)
       (\<lambda>b. Option.bind (append_segment n b seg1) (\<lambda>b. append_segment n b seg2))"

lemma two_segments_eq:
  assumes "buf \<noteq> []" "last buf \<noteq> SLASH" "seg1 \<noteq> []" "seg2 \<noteq> []"
    and "clean_rel seg1 = [] \<or> last (clean_rel seg1) \<noteq> SLASH"
  shows "two_segments n buf seg1 seg2 =
     fits n (buf @ SLASH # (if clean_rel seg1 = [] then [] else clean_rel seg1 @ ''/'') @ clean_rel seg2)"
proof (cases "length buf < n")
  case True
  then have "two_segments n buf seg1 seg2 =
      Option.bind (fits n (buf @ SLASH # clean_rel seg1)) (\<lambda>b. append_segment n b seg2)"
    using assms by (simp add: two_segments_def append_segment_plain fits_def)
  also have "\<dots> = Option.bind (fits n (buf @ SLASH # clean_rel seg1))
      (\<lambda>b. fits n (b @ (if clean_rel seg1 = [] then [] else ''/'') @ clean_rel seg2))"
    using assms by (auto simp: append_segment_fits fits_def)
  finally show ?thesis by (simp split: if_splits)
next
  case False
  then show ?thesis by (simp add: two_segments_def fits_def)
qed

lemma strip_slashes_plain:
  "r = [] \<or> last r \<noteq> SLASH \<or> r = ''/'' \<Longrightarrow> strip_slashes r = r"
  by (subst strip_slashes.simps) auto

lemma strip_slashes_result:
  "r \<noteq> [] \<Longrightarrow> strip_slashes r \<noteq> [] \<and> (strip_slashes r = ''/'' \<or> last (strip_slashes r) \<noteq> SLASH)"
proof (induction r rule: strip_slashes.induct)
  case (1 r)
  show ?case
  proof (cases "length r > 1 \<and> last r = SLASH")
    case True
    then have "butlast r \<noteq> []" by (cases r rule: rev_cases) auto
    with True "1.IH" show ?thesis by (simp add: strip_slashes.simps [of r])
  next
    case False
    then have strip: "strip_slashes r = r" by (subst strip_slashes.simps) (rule if_not_P)
    from False "1.prems" have "r = ''/'' \<or> last r \<noteq> SLASH"
      by (cases r) (auto split: if_splits)
    with strip "1.prems" show ?thesis by simp
  qed
qed

lemma rps_proc_path_default:
  "env ''RUNPOD_SHIM_TEST_PROC_ROOT'' = None \<Longrightarrow> rps_proc_path env n path = fits n path"
  by (simp add: rps_proc_path_def)

lemma rps_proc_path_bound: "rps_proc_path env n path = Some p \<Longrightarrow> length p < n"
  by (auto simp: rps_proc_path_def split: option.splits if_splits)

lemma rps_cgroup_path_bound:
  assumes "rps_cgroup_path env n mp mr rel file = Some p"
  shows "length p < n"
  using assms append_segment_bound
  by (fastforce simp: rps_cgroup_path_def bind_eq_Some_conv split: option.splits prod.splits)

lemma rps_cgroup_path_joined:
  assumes env: "env ''RUNPOD_SHIM_TEST_CGROUP_ROOT'' = None"
    and mount: "mount \<noteq> []" "last mount \<noteq> SLASH"
    and rel: "rel \<noteq> []" "hd rel \<noteq> SLASH" "last rel \<noteq> SLASH"
    and name: "fname \<noteq> []" "hd fname \<noteq> SLASH"
  shows "rps_cgroup_path env n mount (Some ''/'') (Some (SLASH # rel)) fname =
           fits n (mount @ SLASH # rel @ SLASH # fname) \<and>
         rps_cgroup_path env n mount (Some ''/'') (Some ''/'') fname =
           fits n (mount @ SLASH # fname)"
proof -
  have head: "take 1 s \<noteq> [SLASH]" if "s \<noteq> []" "hd s \<noteq> SLASH" for s
    using that by (cases s) auto
  note heads = head [OF rel(1,2)] head [OF name]
  have inside: "cgroup_path_under_mount_root (Some ''/'') (Some r) = Some r" if "r \<noteq> []" for r
    using that by (simp add: cgroup_path_under_mount_root_def or_root_def strip_slashes_plain)
  have path: "rps_cgroup_path env n mount (Some ''/'') (Some r) fname = two_segments n mount r fname"
    if "r \<noteq> []" for r
    using env that by (simp add: rps_cgroup_path_def inside two_segments_def)
  have root: "clean_rel ''/'' = []" by (simp add: clean_rel_def)
  have "fname \<noteq> []" by (rule name)
  then show ?thesis
    using mount rel heads by (simp add: path two_segments_eq root)
qed

lemmas rps_cgroup_path_whole = rps_cgroup_path_joined [THEN conjunct1]

section \<open>Properties\<close>

text \<open>
  C40. A cgroup lies under a mounted subtree exactly at a component boundary: for a mount
  root other than \<open>/\<close> (trailing slashes ignored), the cgroup path is accepted only when it
  is the root itself or continues it with a slash, and what remains inside the mount is
  that continuation (\<open>/\<close> for the root itself). So \<open>/docker\<close> never claims \<open>/dockerx/pod\<close>.
\<close>

theorem under_mount_root_component_boundary:
  assumes "strip_slashes root \<noteq> ''/''" and "root \<noteq> []" and "rel \<noteq> []"
  shows "cgroup_path_under_mount_root (Some root) (Some rel) = Some inside \<longleftrightarrow>
         (rel = strip_slashes root \<and> inside = ''/'') \<or>
         (\<exists>s. inside = SLASH # s \<and> rel = strip_slashes root @ inside)"
proof -
  let ?r = "strip_slashes root"
  have eq: "cgroup_path_under_mount_root (Some root) (Some rel) =
      (if \<not> starts_with rel ?r then None
       else let rest = drop (length ?r) rel in
            if rest \<noteq> [] \<and> hd rest \<noteq> SLASH then None
            else Some (if rest = [] then ''/'' else rest))"
    using assms by (simp add: cgroup_path_under_mount_root_def or_root_def Let_def)
  show ?thesis
  proof (cases "\<exists>rest. rel = ?r @ rest")
    case True
    then obtain rest where "rel = ?r @ rest" by blast
    then show ?thesis unfolding eq by (cases rest) (auto simp: Let_def starts_with_def)
  next
    case False
    then show ?thesis unfolding eq starts_with_iff by auto
  qed
qed

theorem under_mount_root_component_boundary_witness:
  "cgroup_path_under_mount_root (Some ''/docker/'') (Some ''/docker/pod'') = Some ''/pod'' \<and>
   cgroup_path_under_mount_root (Some ''/docker/'') (Some ''/dockerx/pod'') \<noteq> Some ''x/pod''"
proof -
  have s: "strip_slashes ''/docker/'' = ''/docker''"
    by (subst strip_slashes.simps) (simp add: strip_slashes_plain)
  have h: "strip_slashes ''/docker/'' \<noteq> ''/''" by (simp add: s)
  show ?thesis
    by (simp add: under_mount_root_component_boundary [OF h] s)
qed

text \<open>One slash at each joint, and never a truncated path.\<close>

lemma cgroup_path_joins:
  assumes "env ''RUNPOD_SHIM_TEST_CGROUP_ROOT'' = None"
    and "mount \<noteq> []" "last mount \<noteq> SLASH"
    and "rel \<noteq> []" "hd rel \<noteq> SLASH" "last rel \<noteq> SLASH"
    and "fname \<noteq> []" "hd fname \<noteq> SLASH"
  shows "rps_cgroup_path env n mount (Some ''/'') (Some (SLASH # rel)) fname =
           fits n (mount @ SLASH # rel @ SLASH # fname) \<and>
         rps_cgroup_path env n mount (Some ''/'') (Some ''/'') fname =
           fits n (mount @ SLASH # fname)"
  using rps_cgroup_path_joined [of env mount rel fname n] assms by blast

end
