(* ===== verification/Fd_Table.thy ===== *)
theory Fd_Table
  imports Shim_Prelude
begin

text \<open>
  The interface both descriptor tables of the shim offer to the hooks: the table of
  virtual file contents (\<open>core/fd_map.c\<close>, a fixed array) and the table of tracked GPU
  descriptors (\<open>gpu/fd_tracker.c\<close>, a linked list). The locale holds what the hooks rely
  on: removing forgets exactly one descriptor, a store either takes effect or leaves the
  table alone (no memory, no room), no negative descriptor is ever stored.
  The lemmas are what \<open>close\<close>, \<open>dup2\<close> and \<open>open\<close> need of either table.
\<close>

text \<open>\<open>for (i = 0; i < n; i++) if (p (a[i])) ... break\<close>: the first index that qualifies.\<close>

fun find_index :: "('a \<Rightarrow> bool) \<Rightarrow> 'a list \<Rightarrow> nat option" where
  "find_index p [] = None"
| "find_index p (x # xs) = (if p x then Some 0 else map_option Suc (find_index p xs))"

lemma find_index_None_iff: "find_index p xs = None \<longleftrightarrow> (\<forall>x \<in> set xs. \<not> p x)"
  by (induction xs) auto

lemma find_index_SomeD:
  "find_index p xs = Some i \<Longrightarrow> i < length xs \<and> p (xs ! i) \<and> (\<forall>j < i. \<not> p (xs ! j))"
  by (induction xs arbitrary: i) (auto split: if_splits simp: nth_Cons')

lemma find_index_Some_iff:
  "find_index p xs = Some i \<longleftrightarrow> i < length xs \<and> p (xs ! i) \<and> (\<forall>j < i. \<not> p (xs ! j))"
proof
  assume "find_index p xs = Some i"
  then show "i < length xs \<and> p (xs ! i) \<and> (\<forall>j < i. \<not> p (xs ! j))" by (rule find_index_SomeD)
next
  assume R: "i < length xs \<and> p (xs ! i) \<and> (\<forall>j < i. \<not> p (xs ! j))"
  then have "xs ! i \<in> set xs" and "p (xs ! i)" by auto
  then have "find_index p xs \<noteq> None" unfolding find_index_None_iff by blast
  then obtain j where j: "find_index p xs = Some j" by blast
  from find_index_SomeD [OF j] R have "j = i" by (metis linorder_neqE_nat)
  with j show "find_index p xs = Some i" by simp
qed

lemma find_index_cong:
  "(\<And>x. x \<in> set xs \<Longrightarrow> p x = q x) \<Longrightarrow> find_index p xs = find_index q xs"
  by (induction xs) auto

locale fd_table =
  fixes invar :: "'s \<Rightarrow> bool"
    and lookup :: "'s \<Rightarrow> int \<Rightarrow> 'v option"
    and remove :: "int \<Rightarrow> 's \<Rightarrow> 's"
  assumes invar_remove: "invar s \<Longrightarrow> invar (remove fd s)"
    and lookup_remove: "invar s \<Longrightarrow> lookup (remove fd s) = (lookup s)(fd := None)"
    and lookup_negative: "invar s \<Longrightarrow> fd < 0 \<Longrightarrow> lookup s fd = None"
begin

lemma remove_forgets: "invar s \<Longrightarrow> lookup (remove fd s) fd = None"
  by (simp add: lookup_remove)

lemma remove_frame: "invar s \<Longrightarrow> fd' \<noteq> fd \<Longrightarrow> lookup (remove fd s) fd' = lookup s fd'"
  by (simp add: lookup_remove)

lemma remove_absent: "invar s \<Longrightarrow> lookup s fd = None \<Longrightarrow> lookup (remove fd s) = lookup s"
  by (auto simp: lookup_remove)

lemma remove_all:
  "invar s \<Longrightarrow> invar (fold remove fds s) \<and>
     lookup (fold remove fds s) = (\<lambda>fd. if fd \<in> set fds then None else lookup s fd)"
  by (induction fds arbitrary: s) (auto simp: invar_remove lookup_remove)

end

locale fd_table_store = fd_table invar lookup remove
  for invar :: "'s \<Rightarrow> bool" and lookup :: "'s \<Rightarrow> int \<Rightarrow> 'v option" and remove :: "int \<Rightarrow> 's \<Rightarrow> 's" +
  fixes store :: "bool \<Rightarrow> int \<Rightarrow> 'v \<Rightarrow> 's \<Rightarrow> 's"
  assumes invar_store: "invar s \<Longrightarrow> invar (store mem fd v s)"
    and store_effect: "invar s \<Longrightarrow>
          lookup (store mem fd v s) = (lookup s)(fd \<mapsto> v) \<or> store mem fd v s = s"
begin

lemma store_frame: "invar s \<Longrightarrow> fd' \<noteq> fd \<Longrightarrow> lookup (store mem fd v s) fd' = lookup s fd'"
  using store_effect [of s mem fd v] by auto

lemma store_read: "invar s \<Longrightarrow> lookup (store mem fd v s) fd \<in> {Some v, lookup s fd}"
  using store_effect [of s mem fd v] by auto

lemma store_then_remove:
  "invar s \<Longrightarrow> lookup (remove fd (store mem fd v s)) = lookup (remove fd s)"
  using store_effect [of s mem fd v] by (auto simp: lookup_remove invar_store)

lemma store_negative: "invar s \<Longrightarrow> fd < 0 \<Longrightarrow> lookup (store mem fd v s) fd = None"
  by (simp add: lookup_negative invar_store)

end

end
