(* ===== verification/Core_Fd_Map.thy ===== *)
theory Core_Fd_Map
  imports Fd_Table
begin

text \<open>
  The table of virtual file contents (\<open>core/fd_map.c\<close>): 64 entries, each a descriptor, a
  private copy of the bytes it will deliver and how many were delivered. Whether
  \<open>malloc\<close> and \<open>pthread_mutex_lock\<close> succeed is an argument of the operations that call
  them.
\<close>

section \<open>State\<close>

definition RPS_FD_MAP_CAPACITY :: nat where "RPS_FD_MAP_CAPACITY = 64"

record fd_entry =
  fe_active :: bool
  fe_fd :: int
  fe_data :: "string option"
  fe_len :: nat
  fe_offset :: nat

type_synonym fd_map = "fd_entry list"

text \<open>Static storage starts out zero.\<close>

definition fd_entries_init :: fd_map where
  "fd_entries_init = replicate RPS_FD_MAP_CAPACITY
     \<lparr>fe_active = False, fe_fd = 0, fe_data = None, fe_len = 0, fe_offset = 0\<rparr>"

section \<open>Operations\<close>

definition clear_entry :: "fd_entry \<Rightarrow> fd_entry" where
  "clear_entry e = e\<lparr>fe_active := False, fe_fd := -1, fe_data := None, fe_len := 0, fe_offset := 0\<rparr>"

text \<open>The loop condition \<open>entries[i].active && entries[i].fd == fd\<close>.\<close>

definition entry_of :: "int \<Rightarrow> fd_entry \<Rightarrow> bool" where
  "entry_of fd e \<longleftrightarrow> fe_active e \<and> fe_fd e = fd"

definition rps_fd_map_put ::
    "bool \<Rightarrow> bool \<Rightarrow> int \<Rightarrow> string option \<Rightarrow> nat \<Rightarrow> fd_map \<Rightarrow> bool \<times> fd_map" where
  "rps_fd_map_put malloc_ok lock_ok fd data len entries =
     (if fd < 0 \<or> (data = None \<and> len > 0) then (False, entries)
      else if len > 0 \<and> \<not> malloc_ok then (False, entries)
      else if \<not> lock_ok then (False, entries)
      else
        let copy = (if len > 0 then map_option (take len) data else None);
            fill = (\<lambda>e. e\<lparr>fe_active := True, fe_fd := fd, fe_data := copy,
                            fe_len := len, fe_offset := 0\<rparr>) in
        case find_index (entry_of fd) entries of
          Some i \<Rightarrow> (True, entries[i := fill (clear_entry (entries ! i))])
        | None \<Rightarrow>
            (case find_index (\<lambda>e. \<not> fe_active e) entries of
               None \<Rightarrow> (False, entries)
             | Some i \<Rightarrow> (True, entries[i := fill (entries ! i)])))"

text \<open>
  The result is whether the descriptor was found and, when it was, the bytes stored in the
  buffer; \<open>*out\<close> is their number. \<open>buf_null\<close> says the buffer is NULL.
\<close>

definition rps_fd_map_take_read ::
    "bool \<Rightarrow> int \<Rightarrow> bool \<Rightarrow> nat \<Rightarrow> fd_map \<Rightarrow> string option \<times> fd_map" where
  "rps_fd_map_take_read lock_ok fd buf_null count entries =
     (if buf_null \<and> count > 0 then (None, entries)
      else if \<not> lock_ok then (None, entries)
      else
        case find_index (entry_of fd) entries of
          None \<Rightarrow> (None, entries)
        | Some i \<Rightarrow>
            let e = entries ! i;
                remaining = fe_len e - fe_offset e;
                nread = (if remaining < count then remaining else count) in
            if nread > 0
            then (Some (take nread (drop (fe_offset e) (the_default [] (fe_data e)))),
                  entries[i := e\<lparr>fe_offset := fe_offset e + nread\<rparr>])
            else (Some [], entries))"

definition rps_fd_map_remove :: "bool \<Rightarrow> int \<Rightarrow> fd_map \<Rightarrow> fd_map" where
  "rps_fd_map_remove lock_ok fd entries =
     (if \<not> lock_ok then entries
      else case find_index (entry_of fd) entries of
             None \<Rightarrow> entries
           | Some i \<Rightarrow> entries[i := clear_entry (entries ! i)])"

section \<open>Invariant and abstraction\<close>

text \<open>What one entry keeps: an active one owns its bytes and never reads past them.\<close>

definition entry_ok :: "fd_entry \<Rightarrow> bool" where
  "entry_ok e \<longleftrightarrow> fe_active e \<longrightarrow>
     0 \<le> fe_fd e \<and> fe_offset e \<le> fe_len e \<and> length (the_default [] (fe_data e)) = fe_len e"

definition fds_unique :: "fd_map \<Rightarrow> bool" where
  "fds_unique es \<longleftrightarrow>
     (\<forall>i < length es. \<forall>j < length es.
        fe_active (es ! i) \<and> fe_active (es ! j) \<and> fe_fd (es ! i) = fe_fd (es ! j) \<longrightarrow> i = j)"

definition fd_map_ok :: "fd_map \<Rightarrow> bool" where
  "fd_map_ok es \<longleftrightarrow>
     length es = RPS_FD_MAP_CAPACITY \<and> (\<forall>e \<in> set es. entry_ok e) \<and> fds_unique es"

text \<open>The abstract table: the bytes a descriptor has still to deliver.\<close>

definition entry_rest :: "fd_entry \<Rightarrow> string" where
  "entry_rest e = drop (fe_offset e) (the_default [] (fe_data e))"

definition fd_map_lookup :: "fd_map \<Rightarrow> int \<Rightarrow> string option" where
  "fd_map_lookup es fd = map_option (\<lambda>i. entry_rest (es ! i)) (find_index (entry_of fd) es)"

section \<open>Lemmas\<close>

lemma entry_of_inactive [simp]: "\<not> fe_active e \<Longrightarrow> \<not> entry_of fd e"
  by (simp add: entry_of_def)

lemma clear_entry_simps [simp]:
  "\<not> fe_active (clear_entry e)" "\<not> entry_of fd (clear_entry e)" "entry_ok (clear_entry e)"
  by (simp_all add: clear_entry_def entry_of_def entry_ok_def)

lemma fds_uniqueD:
  "fds_unique es \<Longrightarrow> i < length es \<Longrightarrow> j < length es \<Longrightarrow>
     entry_of fd (es ! i) \<Longrightarrow> entry_of fd (es ! j) \<Longrightarrow> i = j"
  unfolding fds_unique_def entry_of_def by blast

text \<open>What an update of one entry does to the lookup of each descriptor.\<close>

lemma lookup_update_hit:
  assumes "i < length es" and "entry_of fd e"
    and "\<forall>j < length es. j \<noteq> i \<longrightarrow> \<not> entry_of fd (es ! j)"
  shows "fd_map_lookup (es[i := e]) fd = Some (entry_rest e)"
proof -
  have "find_index (entry_of fd) (es[i := e]) = Some i"
    using assms by (auto simp: find_index_Some_iff nth_list_update)
  with assms(1) show ?thesis by (simp add: fd_map_lookup_def)
qed

lemma lookup_update_gone:
  assumes "i < length es" and "\<not> entry_of fd e"
    and "\<forall>j < length es. j \<noteq> i \<longrightarrow> \<not> entry_of fd (es ! j)"
  shows "fd_map_lookup (es[i := e]) fd = None"
proof -
  have "\<not> entry_of fd (es[i := e] ! j)" if "j < length es" for j
    using that assms by (cases "j = i") auto
  then show ?thesis by (auto simp: fd_map_lookup_def find_index_None_iff in_set_conv_nth)
qed

lemma lookup_update_miss:
  assumes "i < length es" and "\<not> entry_of fd e" and "\<not> entry_of fd (es ! i)"
  shows "fd_map_lookup (es[i := e]) fd = fd_map_lookup es fd"
proof (cases "find_index (entry_of fd) es")
  case None
  with assms have "find_index (entry_of fd) (es[i := e]) = None"
    by (auto simp: find_index_None_iff dest!: set_update_subset_insert [THEN subsetD])
  with None show ?thesis by (simp add: fd_map_lookup_def)
next
  case (Some k)
  with assms have k: "k \<noteq> i" and "find_index (entry_of fd) (es[i := e]) = Some k"
    by (auto simp: find_index_Some_iff nth_list_update)
  with Some show ?thesis by (simp add: fd_map_lookup_def)
qed

lemma fd_map_ok_update:
  assumes ok: "fd_map_ok es" and e: "entry_ok e"
    and fresh: "\<And>j. j < length es \<Longrightarrow> j \<noteq> i \<Longrightarrow> fe_active e \<Longrightarrow> \<not> entry_of (fe_fd e) (es ! j)"
  shows "fd_map_ok (es[i := e])"
proof -
  have "fds_unique (es[i := e])"
    unfolding fds_unique_def
  proof (intro allI impI)
    fix a b
    assume "a < length (es[i := e])" "b < length (es[i := e])"
      and "fe_active (es[i := e] ! a) \<and> fe_active (es[i := e] ! b) \<and>
           fe_fd (es[i := e] ! a) = fe_fd (es[i := e] ! b)"
    with ok fresh [of a] fresh [of b] show "a = b"
      by (cases "a = i"; cases "b = i") (auto simp: fd_map_ok_def fds_unique_def entry_of_def)
  qed
  moreover have "\<forall>x \<in> set (es[i := e]). entry_ok x"
    using ok e unfolding fd_map_ok_def by (auto dest!: set_update_subset_insert [THEN subsetD])
  ultimately show ?thesis using ok by (simp add: fd_map_ok_def)
qed

lemma fd_map_lookup_SomeE:
  assumes "fd_map_ok es" and "fd_map_lookup es fd = Some r"
  obtains i where "i < length es" "find_index (entry_of fd) es = Some i" "entry_of fd (es ! i)"
    "r = entry_rest (es ! i)" "entry_ok (es ! i)"
    "\<forall>j < length es. j \<noteq> i \<longrightarrow> \<not> entry_of fd (es ! j)"
proof -
  from assms obtain i where i: "find_index (entry_of fd) es = Some i" "r = entry_rest (es ! i)"
    by (auto simp: fd_map_lookup_def)
  from find_index_SomeD [OF i(1)] have *: "i < length es" "entry_of fd (es ! i)" by auto
  show ?thesis
  proof (rule that)
    show "\<forall>j < length es. j \<noteq> i \<longrightarrow> \<not> entry_of fd (es ! j)"
      using assms(1) * unfolding fd_map_ok_def by (blast dest: fds_uniqueD)
    show "entry_ok (es ! i)" using assms(1) * by (auto simp: fd_map_ok_def)
  qed (use i * in auto)
qed

lemma fd_map_lookup_None_iff:
  "fd_map_lookup es fd = None \<longleftrightarrow> (\<forall>e \<in> set es. \<not> entry_of fd e)"
  by (simp add: fd_map_lookup_def find_index_None_iff)

subsection \<open>The operations on the abstract table\<close>

lemma remove_ok: "fd_map_ok es \<Longrightarrow> fd_map_ok (rps_fd_map_remove lock fd es)"
  by (auto simp: rps_fd_map_remove_def split: option.split intro: fd_map_ok_update)

lemma remove_lookup:
  assumes "fd_map_ok es"
  shows "fd_map_lookup (rps_fd_map_remove True fd es) = (fd_map_lookup es)(fd := None)"
proof (cases "fd_map_lookup es fd")
  case None
  then have "find_index (entry_of fd) es = None" by (simp add: fd_map_lookup_def)
  with None show ?thesis by (simp add: rps_fd_map_remove_def fun_upd_idem)
next
  case (Some r)
  with assms obtain i where i: "i < length es" "find_index (entry_of fd) es = Some i"
    "entry_of fd (es ! i)" "\<forall>j < length es. j \<noteq> i \<longrightarrow> \<not> entry_of fd (es ! j)"
    by (rule fd_map_lookup_SomeE)
  have "fd_map_lookup (es[i := clear_entry (es ! i)]) fd' = ((fd_map_lookup es)(fd := None)) fd'" for fd'
    using i by (cases "fd' = fd") (auto simp: lookup_update_gone lookup_update_miss entry_of_def)
  with i(2) show ?thesis by (auto simp: rps_fd_map_remove_def)
qed

lemma put_result:
  assumes ok: "fd_map_ok es" and len: "len \<le> length d"
    and put: "rps_fd_map_put mem True fd (Some d) len es = (True, es')"
  shows "fd_map_ok es' \<and> fd_map_lookup es' = (fd_map_lookup es)(fd \<mapsto> take len d)"
proof -
  define e where "e = (\<lambda>x :: fd_entry. x\<lparr>fe_active := True, fe_fd := fd,
      fe_data := (if len > 0 then Some (take len d) else None), fe_len := len, fe_offset := 0\<rparr>)"
  have fd: "0 \<le> fd" using put by (auto simp: rps_fd_map_put_def split: if_splits)
  have e: "entry_ok (e x)" "entry_of fd (e x)" "entry_rest (e x) = take len d"
      "entry_of fd' (e x) \<longleftrightarrow> fd' = fd" "fe_fd (e x) = fd" for x fd'
    using len fd by (auto simp: e_def entry_ok_def entry_of_def entry_rest_def)
  obtain i x where i: "i < length es" "es' = es[i := e x]"
      "\<forall>j < length es. j \<noteq> i \<longrightarrow> \<not> entry_of fd (es ! j)"
      "\<And>fd'. fd' \<noteq> fd \<Longrightarrow> \<not> entry_of fd' (es ! i)"
  proof (cases "find_index (entry_of fd) es")
    case None
    with put obtain i where "find_index (\<lambda>e. \<not> fe_active e) es = Some i" "es' = es[i := e (es ! i)]"
      by (auto simp: rps_fd_map_put_def Let_def e_def split: if_splits option.splits)
    with None that show ?thesis by (auto simp: find_index_None_iff dest!: find_index_SomeD)
  next
    case (Some i)
    with put have es': "es' = es[i := e (clear_entry (es ! i))]"
      by (auto simp: rps_fd_map_put_def Let_def e_def split: if_splits)
    from find_index_SomeD [OF Some] have *: "i < length es" "entry_of fd (es ! i)" by auto
    show ?thesis
    proof (rule that [OF *(1) es'])
      show "\<forall>j < length es. j \<noteq> i \<longrightarrow> \<not> entry_of fd (es ! j)"
        using ok * unfolding fd_map_ok_def by (blast dest: fds_uniqueD)
      show "\<And>fd'. fd' \<noteq> fd \<Longrightarrow> \<not> entry_of fd' (es ! i)" using * by (simp add: entry_of_def)
    qed
  qed
  have "fd_map_lookup es' fd' = ((fd_map_lookup es)(fd \<mapsto> take len d)) fd'" for fd'
    using i e by (cases "fd' = fd") (simp_all add: lookup_update_hit lookup_update_miss)
  moreover have "fd_map_ok es'" unfolding i(2) using ok e(1)
    by (rule fd_map_ok_update) (use i e in auto)
  ultimately show ?thesis by auto
qed

lemma put_fails: "rps_fd_map_put mem lock fd data len es = (False, es') \<Longrightarrow> es' = es"
  by (auto simp: rps_fd_map_put_def Let_def split: if_splits option.splits)

lemma take_read_hit:
  assumes ok: "fd_map_ok es" and r: "fd_map_lookup es fd = Some r"
    and null: "buf_null \<Longrightarrow> count = 0"
    and read: "rps_fd_map_take_read True fd buf_null count es = (res, es')"
  shows "res = Some (take count r) \<and> fd_map_ok es' \<and>
         fd_map_lookup es' = (fd_map_lookup es)(fd \<mapsto> drop count r)"
proof -
  from ok r obtain i where i: "i < length es" "find_index (entry_of fd) es = Some i"
    "entry_of fd (es ! i)" "r = entry_rest (es ! i)" "entry_ok (es ! i)"
    "\<forall>j < length es. j \<noteq> i \<longrightarrow> \<not> entry_of fd (es ! j)"
    by (rule fd_map_lookup_SomeE)
  define n where "n = min (length r) count"
  define e where "e = (es ! i)\<lparr>fe_offset := fe_offset (es ! i) + n\<rparr>"
  have len: "length r = fe_len (es ! i) - fe_offset (es ! i)"
    using i(3-5) by (auto simp: entry_rest_def entry_ok_def entry_of_def)
  have e: "entry_ok e" "entry_of fd e" "entry_rest e = drop count r" "fe_fd e = fd"
    using i(3-5) len
    by (auto simp: e_def n_def entry_ok_def entry_of_def entry_rest_def min_def add.commute)
  have nread: "(if fe_len (es ! i) - fe_offset (es ! i) < count
      then fe_len (es ! i) - fe_offset (es ! i) else count) = n"
    unfolding len [symmetric] n_def by auto
  have res: "res = Some (take count r)" and es': "es' = es[i := e]"
    using read null i(2,4) nread
    by (auto simp: rps_fd_map_take_read_def Let_def e_def n_def entry_rest_def min_def split: if_splits)
  have "fd_map_lookup es' fd' = ((fd_map_lookup es)(fd \<mapsto> drop count r)) fd'" for fd'
    unfolding es' using i e
    by (cases "fd' = fd") (auto simp: lookup_update_hit lookup_update_miss entry_of_def)
  moreover have "fd_map_ok es'" unfolding es' using ok e(1)
    by (rule fd_map_ok_update) (use i e in auto)
  ultimately show ?thesis using res by auto
qed

lemma take_read_miss:
  assumes "fd_map_lookup es fd = None"
  shows "rps_fd_map_take_read lock fd buf_null count es = (None, es)"
  using assms by (simp add: rps_fd_map_take_read_def fd_map_lookup_def)

lemma fd_entries_init_ok: "fd_map_ok fd_entries_init"
  by (auto simp: fd_map_ok_def fd_entries_init_def fds_unique_def entry_ok_def)

lemma fd_entries_init_empty [simp]: "fd_map_lookup fd_entries_init fd = None"
  by (auto simp: fd_map_lookup_None_iff fd_entries_init_def)

lemma lookup_negative_None: "fd_map_ok es \<Longrightarrow> fd < 0 \<Longrightarrow> fd_map_lookup es fd = None"
  by (auto simp: fd_map_lookup_None_iff fd_map_ok_def entry_ok_def entry_of_def)

text \<open>The whole-content store the hooks perform, as the interface has it.\<close>

definition fd_map_store :: "bool \<Rightarrow> int \<Rightarrow> string \<Rightarrow> fd_map \<Rightarrow> fd_map" where
  "fd_map_store mem fd d es = snd (rps_fd_map_put mem True fd (Some d) (length d) es)"

lemma fd_map_store_cases:
  assumes "fd_map_ok es"
  shows "(fd_map_ok (fd_map_store mem fd d es) \<and>
          fd_map_lookup (fd_map_store mem fd d es) = (fd_map_lookup es)(fd \<mapsto> d)) \<or>
         fd_map_store mem fd d es = es"
proof -
  obtain b es' where put: "rps_fd_map_put mem True fd (Some d) (length d) es = (b, es')" by fastforce
  show ?thesis
  proof (cases b)
    case True
    with put put_result [OF assms order_refl, of mem fd d es'] show ?thesis
      by (simp add: fd_map_store_def)
  next
    case False
    with put put_fails show ?thesis by (fastforce simp: fd_map_store_def)
  qed
qed

interpretation fm: fd_table_store fd_map_ok fd_map_lookup "rps_fd_map_remove True" fd_map_store
proof unfold_locales
  fix s mem fd d
  assume ok: "fd_map_ok s"
  show "fd_map_ok (fd_map_store mem fd d s)" using fd_map_store_cases [OF ok] ok by metis
  show "fd_map_lookup (fd_map_store mem fd d s) = (fd_map_lookup s)(fd \<mapsto> d) \<or>
        fd_map_store mem fd d s = s"
    using fd_map_store_cases [OF ok] by blast
qed (simp_all add: remove_ok remove_lookup lookup_negative_None)

section \<open>Sequences of operations\<close>

text \<open>
  The operations the hooks perform on the table, in any order: storing a whole content,
  reading into a buffer, removing. The run collects the bytes one descriptor was given.
\<close>

datatype fd_op = OpPut bool int string | OpRead int nat | OpRemove int

fun fd_op_step :: "fd_op \<Rightarrow> fd_map \<Rightarrow> string \<times> fd_map" where
  "fd_op_step (OpPut mem f d) es = ([], fd_map_store mem f d es)"
| "fd_op_step (OpRead f n) es =
     (let (res, es') = rps_fd_map_take_read True f False n es in (the_default [] res, es'))"
| "fd_op_step (OpRemove f) es = ([], rps_fd_map_remove True f es)"

fun fd_op_fd :: "fd_op \<Rightarrow> int" where
  "fd_op_fd (OpPut _ f _) = f"
| "fd_op_fd (OpRead f _) = f"
| "fd_op_fd (OpRemove f) = f"

fun fd_op_count :: "fd_op \<Rightarrow> nat option" where
  "fd_op_count (OpRead _ n) = Some n"
| "fd_op_count _ = None"

fun fd_run :: "int \<Rightarrow> fd_op list \<Rightarrow> fd_map \<Rightarrow> string \<times> fd_map" where
  "fd_run fd [] es = ([], es)"
| "fd_run fd (x # xs) es =
     (let (got, es1) = fd_op_step x es; (rest, es2) = fd_run fd xs es1
      in ((if fd_op_fd x = fd then got else []) @ rest, es2))"

text \<open>Operations that leave what \<open>fd\<close> holds to reads alone, and how much those ask for.\<close>

definition only_reads :: "int \<Rightarrow> fd_op list \<Rightarrow> bool" where
  "only_reads fd xs \<longleftrightarrow> list_all (\<lambda>x. fd_op_fd x = fd \<longrightarrow> fd_op_count x \<noteq> None) xs"

definition asked :: "int \<Rightarrow> fd_op list \<Rightarrow> nat" where
  "asked fd xs = sum_list (map (\<lambda>x. if fd_op_fd x = fd then the_default 0 (fd_op_count x) else 0) xs)"

lemma fd_op_step_ok:
  assumes "fd_map_ok es"
  shows "fd_map_ok (snd (fd_op_step x es))"
proof (cases x)
  case (OpRead f n)
  obtain res es' where r: "rps_fd_map_take_read True f False n es = (res, es')" by fastforce
  show ?thesis
  proof (cases "fd_map_lookup es f")
    case None
    with OpRead assms show ?thesis by (simp add: take_read_miss)
  next
    case (Some d)
    from take_read_hit [OF assms Some _ r] OpRead r show ?thesis by simp
  qed
qed (simp_all add: fm.invar_store fm.invar_remove assms)

lemma fd_op_step_frame:
  assumes "fd_map_ok es" and "fd_op_fd x \<noteq> fd"
  shows "fd_map_lookup (snd (fd_op_step x es)) fd = fd_map_lookup es fd"
proof (cases x)
  case (OpRead f n)
  obtain res es' where r: "rps_fd_map_take_read True f False n es = (res, es')" by fastforce
  show ?thesis
  proof (cases "fd_map_lookup es f")
    case None
    with OpRead show ?thesis by (simp add: take_read_miss)
  next
    case (Some d)
    from take_read_hit [OF assms(1) Some _ r] OpRead r assms(2) show ?thesis by simp
  qed
qed (use assms in \<open>auto simp: fm.store_frame fm.remove_frame\<close>)

lemma fd_run_reads:
  assumes "fd_map_ok es" and "fd_map_lookup es fd = Some r" and "only_reads fd xs"
  shows "fst (fd_run fd xs es) = take (asked fd xs) r \<and> fd_map_ok (snd (fd_run fd xs es)) \<and>
         fd_map_lookup (snd (fd_run fd xs es)) fd = Some (drop (asked fd xs) r)"
  using assms
proof (induction xs arbitrary: es r)
  case Nil
  then show ?case by (simp add: asked_def)
next
  case (Cons x xs)
  obtain got es1 where step: "fd_op_step x es = (got, es1)" by fastforce
  have ok1: "fd_map_ok es1" using fd_op_step_ok [OF Cons.prems(1), of x] step by simp
  have reads: "only_reads fd xs" using Cons.prems(3) by (simp add: only_reads_def)
  obtain rest es2 where run: "fd_run fd xs es1 = (rest, es2)" by fastforce
  show ?case
  proof (cases "fd_op_fd x = fd")
    case False
    have "fd_map_lookup es1 fd = Some r"
      using fd_op_step_frame [OF Cons.prems(1) False] Cons.prems(2) step by simp
    from Cons.IH [OF ok1 this reads] False run step show ?thesis by (simp add: asked_def)
  next
    case True
    with Cons.prems(3) obtain n where x: "x = OpRead fd n"
      by (cases x) (auto simp: only_reads_def)
    obtain res es' where rd: "rps_fd_map_take_read True fd False n es = (res, es')" by fastforce
    have *: "got = take n r" "fd_map_lookup es1 fd = Some (drop n r)"
      using take_read_hit [OF Cons.prems(1,2) _ rd] rd step x by auto
    from Cons.IH [OF ok1 *(2) reads] run step x *(1) show ?thesis
      by (simp add: asked_def take_add add.commute)
  qed
qed

section \<open>Properties\<close>

text \<open>
  C30. A virtual file reads like a file: after \<open>rps_fd_map_put\<close> stored a content for a
  descriptor, whatever other descriptors are stored, read or removed in between, the bytes
  delivered by the reads of that descriptor, in buffers of any sizes, are together the
  beginning of the content, as long as the reads asked for (so the whole content once they
  asked for its length, and nothing after it), and the table keeps its invariant.
\<close>

theorem virtual_file_reads_content:
  assumes ok: "fd_map_ok es"
    and put: "rps_fd_map_put mem True fd (Some d) (length d) es = (True, es')"
    and reads: "only_reads fd xs"
  shows "fst (fd_run fd xs es') = take (asked fd xs) d \<and> fd_map_ok (snd (fd_run fd xs es'))"
proof -
  from put_result [OF ok order_refl put]
  have "fd_map_ok es'" "fd_map_lookup es' fd = Some d" by simp_all
  from fd_run_reads [OF this reads] show ?thesis by simp
qed

theorem virtual_file_reads_content_witness:
  "fst (fd_run 7 [OpRead 7 2, OpPut True 8 ''zz'', OpRead 8 1, OpRemove 8, OpRead 7 5]
     (snd (rps_fd_map_put True True 7 (Some ''abc'') 3 fd_entries_init))) = ''abc''"
proof -
  let ?ops = "[OpRead 7 2, OpPut True 8 ''zz'', OpRead 8 1, OpRemove 8, OpRead 7 5]"
  have put: "rps_fd_map_put True True 7 (Some ''abc'') (length ''abc'') fd_entries_init =
      (True, snd (rps_fd_map_put True True 7 (Some ''abc'') 3 fd_entries_init))"
    by (simp add: rps_fd_map_put_def fd_entries_init_def RPS_FD_MAP_CAPACITY_def
        numeral_eq_Suc entry_of_def)
  have "only_reads 7 ?ops" by (simp add: only_reads_def)
  from virtual_file_reads_content [OF fd_entries_init_ok put this]
  show ?thesis by (simp add: asked_def)
qed

text \<open>
  C38. Storing succeeds exactly when the descriptor is not negative, the copy can be
  allocated (an empty one needs no memory), the lock is taken, and the descriptor already
  has an entry or one of the 64 is free; then exactly this descriptor's content changed.
  A failed store leaves the table as it was: no entry is evicted or half written.
\<close>

theorem fd_map_put_outcome:
  assumes ok: "fd_map_ok es"
  shows "(fst (rps_fd_map_put mem lock fd (Some d) (length d) es) \<longleftrightarrow>
           0 \<le> fd \<and> (d = [] \<or> mem) \<and> lock \<and>
           (fd_map_lookup es fd \<noteq> None \<or> (\<exists>e \<in> set es. \<not> fe_active e))) \<and>
         (let (done, es') = rps_fd_map_put mem lock fd (Some d) (length d) es in
          if done then fd_map_lookup es' = (fd_map_lookup es)(fd \<mapsto> d) else es' = es)"
proof -
  let ?put = "rps_fd_map_put mem lock fd (Some d) (length d) es"
  have "fst ?put \<longleftrightarrow> 0 \<le> fd \<and> (d = [] \<or> mem) \<and> lock \<and>
      (find_index (entry_of fd) es \<noteq> None \<or> find_index (\<lambda>e. \<not> fe_active e) es \<noteq> None)"
    by (auto simp: rps_fd_map_put_def Let_def split: option.split)
  then have iff: "fst ?put \<longleftrightarrow> 0 \<le> fd \<and> (d = [] \<or> mem) \<and> lock \<and>
      (fd_map_lookup es fd \<noteq> None \<or> (\<exists>e \<in> set es. \<not> fe_active e))"
    unfolding fd_map_lookup_None_iff find_index_None_iff by auto
  have "if fst ?put then fd_map_lookup (snd ?put) = (fd_map_lookup es)(fd \<mapsto> d) else snd ?put = es"
  proof (cases "fst ?put")
    case True
    then have "rps_fd_map_put mem True fd (Some d) (length d) es = (True, snd ?put)"
      using iff by (cases lock) (auto simp: prod_eq_iff)
    from put_result [OF ok order_refl this] True show ?thesis by simp
  next
    case False
    with put_fails show ?thesis by (metis (full_types) prod.collapse)
  qed
  with iff show ?thesis by (simp add: case_prod_beta)
qed

theorem fd_map_put_outcome_witness:
  "fst (rps_fd_map_put True True 7 (Some ''abc'') (length ''abc'') fd_entries_init)"
  using fd_map_put_outcome [OF fd_entries_init_ok, of True True 7 "''abc''"]
  by (auto simp: fd_entries_init_def RPS_FD_MAP_CAPACITY_def)

end
