(* ===== verification/Bounded_Decimal.thy ===== *)
theory Bounded_Decimal
  imports Shim_Prelude
begin

text \<open>
  The interface of a digit loop. The shim reads decimal numbers in four places
  (\<open>parse_u64_token\<close>, \<open>rps_gpu_parse_nvidia_minor\<close>, \<open>rps_gpu_name_is_nvidia_minor\<close>,
  \<open>rps_gpu_parse_nonnegative_int\<close>), each time with the same guard against overflow,
  \<open>value > (MAX - digit) / 10\<close>, on a different integer type. The locale states what one
  turn of such a loop does, on \<open>nat\<close>; its lemmas say that the loop accepts exactly the
  digit strings whose value is at most the bound, and returns that value. Each parser is
  an interpretation, in the theory that holds it.
\<close>

lemma overflow_guard_iff:
  fixes v d m :: nat
  assumes "d \<le> 9" and "9 \<le> m"
  shows "(m - d) div 10 < v \<longleftrightarrow> m < v * 10 + d"
  using assms by (auto simp: div_less_iff_less_mult)

locale bounded_decimal =
  fixes bound :: nat
    and loop :: "nat \<Rightarrow> string \<Rightarrow> nat option"
  assumes bound_ge: "9 \<le> bound"
    and loop_Nil: "v \<le> bound \<Longrightarrow> loop v [] = Some v"
    and loop_Cons: "v \<le> bound \<Longrightarrow> loop v (c # s) =
          (if \<not> is_digit c then None
           else if (bound - digit_val c) div 10 < v then None
           else loop (v * 10 + digit_val c) s)"
begin

lemma loop_eq:
  "v \<le> bound \<Longrightarrow>
     loop v s = (if all_digits s \<and> dec_from v s \<le> bound then Some (dec_from v s) else None)"
proof (induction s arbitrary: v)
  case Nil
  then show ?case by (simp add: loop_Nil)
next
  case (Cons c s)
  show ?case
  proof (cases "is_digit c")
    case False
    with Cons.prems show ?thesis by (simp add: loop_Cons)
  next
    case digit: True
    let ?v = "v * 10 + digit_val c"
    have guard: "(bound - digit_val c) div 10 < v \<longleftrightarrow> bound < ?v"
      by (rule overflow_guard_iff [OF digit_val_le [OF digit] bound_ge])
    show ?thesis
    proof (cases "bound < ?v")
      case True
      then have "bound < dec_from ?v s" using dec_from_ge [of ?v s] by simp
      with True digit guard Cons.prems show ?thesis by (simp add: loop_Cons)
    next
      case False
      with digit guard Cons.prems Cons.IH [of ?v] show ?thesis by (simp add: loop_Cons)
    qed
  qed
qed

lemma loop_Some_iff:
  "loop 0 s = Some n \<longleftrightarrow> all_digits s \<and> n = dec_from 0 s \<and> n \<le> bound"
  by (auto simp: loop_eq)

lemma loop_None_iff: "loop 0 s = None \<longleftrightarrow> \<not> (all_digits s \<and> dec_from 0 s \<le> bound)"
  by (simp add: loop_eq)

lemma loop_show: "n \<le> bound \<Longrightarrow> loop 0 (show_nat n) = Some n"
  by (simp add: loop_eq)

end

end
