(* ===== verification/Cgroup_Memory.thy ===== *)
theory Cgroup_Memory
  imports Bounded_Decimal Core_Paths
begin

text \<open>
  Discovery of the container's memory limit (\<open>cgroup/cgroup.c\<close>): the tokens of
  controller files, the cgroup mounts of \<open>/proc/self/mountinfo\<close>, the process's cgroups in
  \<open>/proc/self/cgroup\<close>, and the most restrictive finite limit among them. The file system
  is a parameter: what \<open>fopen\<close> finds at a path.
\<close>

section \<open>State\<close>

definition RPS_CGROUP_UNLIMITED_SENTINEL :: u64 where
  "RPS_CGROUP_UNLIMITED_SENTINEL = 0x7ffffffffffff000"

record rps_cgroup_memory =
  cm_version :: int
  cm_limit_bytes :: u64
  cm_current_bytes :: u64
  cm_limit_path :: string
  cm_current_path :: string

definition cgroup_memory_zero :: rps_cgroup_memory where
  "cgroup_memory_zero = \<lparr>cm_version = 0, cm_limit_bytes = 0, cm_current_bytes = 0,
     cm_limit_path = [], cm_current_path = []\<rparr>"

record rps_cgroup_mounts =
  has_v2 :: bool
  has_v1_memory :: bool
  v2_root :: string
  v2_mount :: string
  v1_memory_root :: string
  v1_memory_mount :: string

definition cgroup_mounts_zero :: rps_cgroup_mounts where
  "cgroup_mounts_zero = \<lparr>has_v2 = False, has_v1_memory = False, v2_root = [], v2_mount = [],
     v1_memory_root = [], v1_memory_mount = []\<rparr>"

section \<open>Controller files\<close>

text \<open>The first blank-delimited word of the buffer.\<close>

definition trim_token :: "string \<Rightarrow> string" where
  "trim_token buf = takeWhile (\<lambda>c. \<not> is_space c) (dropWhile is_space buf)"

definition read_token_file :: "fs \<Rightarrow> string \<Rightarrow> nat \<Rightarrow> string option" where
  "read_token_file fs path buflen =
     (case fs path of
        None \<Rightarrow> None
      | Some fp \<Rightarrow>
          (case fgets buflen fp of
             None \<Rightarrow> None
           | Some (line, _) \<Rightarrow>
               let token = trim_token (cstr line) in
               if token = [] then None else Some token))"

fun parse_u64_loop :: "u64 \<Rightarrow> string \<Rightarrow> u64 option" where
  "parse_u64_loop value [] = Some value"
| "parse_u64_loop value (c # cs) =
     (if \<not> is_digit c then None
      else let digit = of_nat (digit_val c) in
           if value > (- 1 - digit) div 10 then None
           else parse_u64_loop (value * 10 + digit) cs)"

definition parse_u64_token :: "string \<Rightarrow> u64 option" where
  "parse_u64_token token = (if token = [] then None else parse_u64_loop 0 token)"

definition read_limit_file :: "fs \<Rightarrow> string \<Rightarrow> u64 option" where
  "read_limit_file fs path =
     (case read_token_file fs path 64 of
        None \<Rightarrow> None
      | Some token \<Rightarrow>
          if token = ''max'' then None
          else (case parse_u64_token token of
                  None \<Rightarrow> None
                | Some value \<Rightarrow>
                    if value = 0 \<or> value \<ge> RPS_CGROUP_UNLIMITED_SENTINEL then None
                    else Some value))"

definition read_counter_file :: "fs \<Rightarrow> string \<Rightarrow> u64 option" where
  "read_counter_file fs path =
     (case read_token_file fs path 64 of
        None \<Rightarrow> None
      | Some token \<Rightarrow> parse_u64_token token)"

section \<open>Mounts\<close>

function controllers_include :: "string \<Rightarrow> string \<Rightarrow> bool" where
  "controllers_include part needle =
     (if part = [] then False
      else case strchr (CHR '','') part of
             None \<Rightarrow> part = needle
           | Some (name, rest) \<Rightarrow> name = needle \<or> controllers_include rest needle)"
  by pat_completeness auto
termination
  by (relation "measure (\<lambda>(part, needle). length part)") (auto simp: strchr_Some_iff)

declare controllers_include.simps [simp del]

text \<open>
  \<open>copy_mount\<close> writes what fits into the buffer and says whether everything did.
\<close>

definition copy_mount :: "nat \<Rightarrow> string \<Rightarrow> string \<times> bool" where
  "copy_mount buflen mount_point = (take (buflen - 1) mount_point, length mount_point < buflen)"

text \<open>The tokens \<open>strtok_r (line, " ", ...)\<close> returns one after the other.\<close>

function tokens :: "string \<Rightarrow> string list" where
  "tokens s =
     (let s' = dropWhile (\<lambda>c. c = SPACE) s in
      if s' = [] then []
      else takeWhile (\<lambda>c. c \<noteq> SPACE) s' # tokens (dropWhile (\<lambda>c. c \<noteq> SPACE) s'))"
  by pat_completeness auto
termination
proof (relation "measure length")
  fix s x :: string
  assume x: "x = dropWhile (\<lambda>c. c = SPACE) s" and ne: "x \<noteq> []"
  then have "hd x \<noteq> SPACE" using hd_dropWhile by blast
  with ne have "length (dropWhile (\<lambda>c. c \<noteq> SPACE) x) < length x"
    by (cases x) (auto simp: less_Suc_eq_le length_dropWhile_le)
  also have "length x \<le> length s" unfolding x by (rule length_dropWhile_le)
  finally show "(dropWhile (\<lambda>c. c \<noteq> SPACE) x, s) \<in> measure length" by simp
qed simp

declare tokens.simps [simp del]

record mountinfo =
  mi_mount_root :: "string option"
  mi_mount_point :: "string option"
  mi_mount_options :: "string option"
  mi_fstype :: "string option"
  mi_super_options :: "string option"

definition mountinfo_none :: mountinfo where
  "mountinfo_none = \<lparr>mi_mount_root = None, mi_mount_point = None, mi_mount_options = None,
     mi_fstype = None, mi_super_options = None\<rparr>"

definition nth_token :: "nat \<Rightarrow> string list \<Rightarrow> string option" where
  "nth_token n ts = (if n < length ts then Some (ts ! n) else None)"

fun mountinfo_scan :: "nat \<Rightarrow> string list \<Rightarrow> mountinfo \<Rightarrow> mountinfo" where
  "mountinfo_scan field [] m = m"
| "mountinfo_scan field (token # ts) m =
     (let field = field + 1;
          m = (if field = 4 then m\<lparr>mi_mount_root := Some token\<rparr>
               else if field = 5 then m\<lparr>mi_mount_point := Some token\<rparr>
               else if field = 6 then m\<lparr>mi_mount_options := Some token\<rparr> else m) in
      if token = ''-''
      then m\<lparr>mi_fstype := nth_token 0 ts, mi_super_options := nth_token 2 ts\<rparr>
      else mountinfo_scan field ts m)"

definition record_v2 :: "string \<Rightarrow> string \<Rightarrow> string \<Rightarrow> rps_cgroup_mounts \<Rightarrow> rps_cgroup_mounts" where
  "record_v2 fstype root point mounts =
     (if \<not> has_v2 mounts \<and> fstype = ''cgroup2'' then
        let (r, r_ok) = copy_mount 512 root; mounts = mounts\<lparr>v2_root := r\<rparr> in
        if r_ok then
          let (p, p_ok) = copy_mount 512 point; mounts = mounts\<lparr>v2_mount := p\<rparr> in
          if p_ok then mounts\<lparr>has_v2 := True\<rparr> else mounts
        else mounts
      else mounts)"

definition record_v1_memory ::
    "string \<Rightarrow> string \<Rightarrow> string \<Rightarrow> string option \<Rightarrow> string option \<Rightarrow>
     rps_cgroup_mounts \<Rightarrow> rps_cgroup_mounts" where
  "record_v1_memory fstype root point options super mounts =
     (if \<not> has_v1_memory mounts \<and> fstype = ''cgroup'' \<and>
         (controllers_include (the_default [] options) ''memory'' \<or>
          controllers_include (the_default [] super) ''memory'') then
        let (r, r_ok) = copy_mount 512 root; mounts = mounts\<lparr>v1_memory_root := r\<rparr> in
        if r_ok then
          let (p, p_ok) = copy_mount 512 point; mounts = mounts\<lparr>v1_memory_mount := p\<rparr> in
          if p_ok then mounts\<lparr>has_v1_memory := True\<rparr> else mounts
        else mounts
      else mounts)"

definition parse_mountinfo_line :: "rps_cgroup_mounts \<Rightarrow> string \<Rightarrow> rps_cgroup_mounts" where
  "parse_mountinfo_line mounts line =
     (let m = mountinfo_scan 0 (tokens line) mountinfo_none in
      case (mi_mount_root m, mi_mount_point m, mi_fstype m) of
        (Some root, Some point, Some fstype) \<Rightarrow>
          record_v1_memory fstype root point (mi_mount_options m) (mi_super_options m)
            (record_v2 fstype root point mounts)
      | _ \<Rightarrow> mounts)"

text \<open>\<open>line[strcspn (line, "\r\n")] = '\0'\<close> on the C string a line buffer holds.\<close>

definition chomp :: "string \<Rightarrow> string" where
  "chomp line = takeWhile (\<lambda>c. c \<noteq> CR \<and> c \<noteq> LF) (cstr line)"

definition detect_mounts :: "env \<Rightarrow> fs \<Rightarrow> rps_cgroup_mounts option" where
  "detect_mounts env fs =
     (case rps_proc_path env 512 ''/proc/self/mountinfo'' of
        None \<Rightarrow> None
      | Some path \<Rightarrow>
          (case fs path of
             None \<Rightarrow> None
           | Some fp \<Rightarrow>
               let mounts = foldl (\<lambda>m line. parse_mountinfo_line m (chomp line))
                              cgroup_mounts_zero (fgets_all 1024 fp) in
               if has_v2 mounts \<or> has_v1_memory mounts then Some mounts else None))"

section \<open>Candidates\<close>

text \<open>The candidate a cgroup offers, where its two files give one.\<close>

definition candidate_of ::
    "env \<Rightarrow> fs \<Rightarrow> int \<Rightarrow> string \<Rightarrow> string \<Rightarrow> string \<Rightarrow> string \<Rightarrow> string \<Rightarrow> rps_cgroup_memory option" where
  "candidate_of env fs version mount_point mount_root rel_path limit_file current_file =
     (case (rps_cgroup_path env 512 mount_point (Some mount_root) (Some rel_path) limit_file,
            rps_cgroup_path env 512 mount_point (Some mount_root) (Some rel_path) current_file) of
        (Some limit_path, Some current_path) \<Rightarrow>
          (case read_limit_file fs limit_path of
             None \<Rightarrow> None
           | Some limit \<Rightarrow>
               (case read_counter_file fs current_path of
                  None \<Rightarrow> None
                | Some current \<Rightarrow>
                    Some \<lparr>cm_version = version, cm_limit_bytes = limit, cm_current_bytes = current,
                          cm_limit_path = limit_path, cm_current_path = current_path\<rparr>))
      | _ \<Rightarrow> None)"

definition consider_candidate ::
    "env \<Rightarrow> fs \<Rightarrow> int \<Rightarrow> string \<Rightarrow> string \<Rightarrow> string \<Rightarrow> string \<Rightarrow> string \<Rightarrow>
     bool \<times> rps_cgroup_memory \<Rightarrow> bool \<times> rps_cgroup_memory" where
  "consider_candidate env fs version mount_point mount_root rel_path limit_file current_file best =
     (let (found, out) = best in
      case candidate_of env fs version mount_point mount_root rel_path limit_file current_file of
        None \<Rightarrow> (found, out)
      | Some candidate \<Rightarrow>
          if \<not> found \<or> cm_limit_bytes candidate < cm_limit_bytes out
          then (True, candidate) else (found, out))"

text \<open>One line \<open>hierarchy:controllers:path\<close> of \<open>/proc/self/cgroup\<close>.\<close>

definition split_cgroup_line :: "string \<Rightarrow> (string \<times> string \<times> string) option" where
  "split_cgroup_line line =
     (case strchr (CHR '':'') line of
        None \<Rightarrow> None
      | Some (hierarchy, rest) \<Rightarrow>
          (case strchr (CHR '':'') rest of
             None \<Rightarrow> None
           | Some (controllers, rel_path) \<Rightarrow>
               Some (hierarchy, controllers, if rel_path = [] then ''/'' else rel_path)))"

definition consider_cgroup_line ::
    "env \<Rightarrow> fs \<Rightarrow> rps_cgroup_mounts \<Rightarrow> bool \<times> rps_cgroup_memory \<Rightarrow> string \<Rightarrow>
     bool \<times> rps_cgroup_memory" where
  "consider_cgroup_line env fs mounts best line =
     (case split_cgroup_line (chomp line) of
        None \<Rightarrow> best
      | Some (hierarchy, controllers, rel_path) \<Rightarrow>
          let best = (if hierarchy = ''0'' \<and> controllers = [] \<and> has_v2 mounts
                      then consider_candidate env fs 2 (v2_mount mounts) (v2_root mounts) rel_path
                             ''memory.max'' ''memory.current'' best
                      else best) in
          if controllers_include controllers ''memory'' \<and> has_v1_memory mounts
          then consider_candidate env fs 1 (v1_memory_mount mounts) (v1_memory_root mounts) rel_path
                 ''memory.limit_in_bytes'' ''memory.usage_in_bytes'' best
          else best)"

definition rps_cgroup_memory_detect :: "env \<Rightarrow> fs \<Rightarrow> bool \<times> rps_cgroup_memory" where
  "rps_cgroup_memory_detect env fs =
     (case detect_mounts env fs of
        None \<Rightarrow> (False, cgroup_memory_zero)
      | Some mounts \<Rightarrow>
          (case rps_proc_path env 512 ''/proc/self/cgroup'' of
             None \<Rightarrow> (False, cgroup_memory_zero)
           | Some path \<Rightarrow>
               (case fs path of
                  None \<Rightarrow> (False, cgroup_memory_zero)
                | Some fp \<Rightarrow>
                    let (found, out) = foldl (consider_cgroup_line env fs mounts)
                                         (False, cgroup_memory_zero) (fgets_all 1024 fp) in
                    if found then (True, out) else (False, cgroup_memory_zero))))"

definition rps_cgroup_memory_refresh :: "fs \<Rightarrow> rps_cgroup_memory \<Rightarrow> bool \<times> rps_cgroup_memory" where
  "rps_cgroup_memory_refresh fs mem =
     (if cm_current_path mem = [] then (False, mem)
      else case read_counter_file fs (cm_current_path mem) of
             None \<Rightarrow> (False, mem)
           | Some current \<Rightarrow> (True, mem\<lparr>cm_current_bytes := current\<rparr>))"

section \<open>Specification: the candidates and the most restrictive one\<close>

fun when_some :: "bool \<Rightarrow> 'a option \<Rightarrow> 'a list" where
  "when_some True (Some x) = [x]"
| "when_some _ _ = []"

definition line_candidates :: "env \<Rightarrow> fs \<Rightarrow> rps_cgroup_mounts \<Rightarrow> string \<Rightarrow> rps_cgroup_memory list" where
  "line_candidates env fs mounts line =
     (case split_cgroup_line (chomp line) of
        None \<Rightarrow> []
      | Some (hierarchy, controllers, rel) \<Rightarrow>
          when_some (hierarchy = ''0'' \<and> controllers = [] \<and> has_v2 mounts)
            (candidate_of env fs 2 (v2_mount mounts) (v2_root mounts) rel
               ''memory.max'' ''memory.current'') @
          when_some (controllers_include controllers ''memory'' \<and> has_v1_memory mounts)
            (candidate_of env fs 1 (v1_memory_mount mounts) (v1_memory_root mounts) rel
               ''memory.limit_in_bytes'' ''memory.usage_in_bytes''))"

text \<open>Every cgroup of the process that offers a finite limit and a readable usage.\<close>

definition cgroup_candidates :: "env \<Rightarrow> fs \<Rightarrow> rps_cgroup_memory list" where
  "cgroup_candidates env fs =
     (case detect_mounts env fs of
        None \<Rightarrow> []
      | Some mounts \<Rightarrow>
          (case rps_proc_path env 512 ''/proc/self/cgroup'' of
             None \<Rightarrow> []
           | Some path \<Rightarrow>
               (case fs path of
                  None \<Rightarrow> []
                | Some fp \<Rightarrow>
                    concat (map (line_candidates env fs mounts) (fgets_all 1024 fp)))))"

definition pick :: "bool \<times> rps_cgroup_memory \<Rightarrow> rps_cgroup_memory \<Rightarrow> bool \<times> rps_cgroup_memory" where
  "pick best c =
     (if \<not> fst best \<or> cm_limit_bytes c < cm_limit_bytes (snd best) then (True, c) else best)"

section \<open>Lemmas\<close>

lemma unat_u64_digit_guard:
  assumes "v \<le> 2 ^ 64 - 1" and "d \<le> 9"
  shows "(of_nat v > (- 1 - of_nat d :: u64) div 10) \<longleftrightarrow> v > (2 ^ 64 - 1 - d) div 10"
proof -
  have d: "unat (of_nat d :: u64) = d" using assms(2) by (simp add: unat_of_nat)
  have v: "unat (of_nat v :: u64) = v" using assms(1) by (simp add: unat_of_nat)
  have "unat (- 1 - of_nat d :: u64) = unat (- 1 :: u64) - d"
    using d by (subst unat_sub) (simp_all add: word_order.extremum)
  also have "unat (- 1 :: u64) = 2 ^ 64 - 1" by (simp add: unsigned_minus_1_eq_mask mask_eq_exp_minus_1)
  finally show ?thesis by (simp add: word_less_nat_alt unat_div v)
qed

interpretation u64d: bounded_decimal "2 ^ 64 - 1" "\<lambda>v s. map_option unat (parse_u64_loop (of_nat v) s)"
proof unfold_locales
  show "9 \<le> (2 ^ 64 - 1 :: nat)" by simp
next
  fix v :: nat assume v: "v \<le> 2 ^ 64 - 1"
  show "map_option unat (parse_u64_loop (of_nat v) []) = Some v"
    using v by (simp add: unat_of_nat)
  fix c s
  show "map_option unat (parse_u64_loop (of_nat v) (c # s)) =
      (if \<not> is_digit c then None else if (2 ^ 64 - 1 - digit_val c) div 10 < v then None
       else map_option unat (parse_u64_loop (of_nat (v * 10 + digit_val c)) s))"
    using unat_u64_digit_guard [OF v digit_val_le, of c] by (simp add: Let_def)
qed

lemma parse_u64_token_Some_iff:
  "parse_u64_token t = Some w \<longleftrightarrow>
     t \<noteq> [] \<and> all_digits t \<and> dec_from 0 t \<le> 2 ^ 64 - 1 \<and> w = of_nat (dec_from 0 t)"
proof -
  have "parse_u64_loop 0 t = Some w \<longleftrightarrow> map_option unat (parse_u64_loop (of_nat 0) t) = Some (unat w)"
    by (auto simp: word_unat_eq_iff)
  also have "\<dots> \<longleftrightarrow> all_digits t \<and> unat w = dec_from 0 t \<and> unat w \<le> 2 ^ 64 - 1"
    by (rule u64d.loop_Some_iff)
  also have "\<dots> \<longleftrightarrow> all_digits t \<and> dec_from 0 t \<le> 2 ^ 64 - 1 \<and> w = of_nat (dec_from 0 t)"
  proof -
    have "unat w = dec_from 0 t \<longleftrightarrow> w = of_nat (dec_from 0 t)" if "dec_from 0 t \<le> 2 ^ 64 - 1"
      using that by (auto simp: word_unat_eq_iff unat_of_nat)
    then show ?thesis by auto
  qed
  finally show ?thesis by (simp add: parse_u64_token_def)
qed

lemma parse_u64_show [simp]: "parse_u64_token (show_nat (unat (w :: u64))) = Some w"
proof -
  have "unat w \<le> 2 ^ 64 - 1" using unsigned_less [of w, where 'a = nat] by simp
  then show ?thesis by (simp add: parse_u64_token_Some_iff)
qed

lemma read_limit_file_finite:
  "read_limit_file fs p = Some v \<Longrightarrow> 0 < v \<and> v < RPS_CGROUP_UNLIMITED_SENTINEL"
  by (auto simp: read_limit_file_def word_gt_0 split: option.splits if_splits)

lemma candidate_of_good:
  assumes "candidate_of env fs ver mp mr rel lf cf = Some c"
  shows "read_limit_file fs (cm_limit_path c) = Some (cm_limit_bytes c)"
    and "read_counter_file fs (cm_current_path c) = Some (cm_current_bytes c)"
    and "cm_version c = ver"
  using assms by (auto simp: candidate_of_def split: option.splits)

lemma consider_candidate_pick:
  "consider_candidate env fs ver mp mr rel lf cf best =
     (case candidate_of env fs ver mp mr rel lf cf of None \<Rightarrow> best | Some c \<Rightarrow> pick best c)"
  by (auto simp: consider_candidate_def pick_def split: prod.splits option.splits)

lemma set_when_some: "x \<in> set (when_some b y) \<longleftrightarrow> b \<and> y = Some x"
  by (cases b; cases y) auto

lemma foldl_pick_when_some:
  "foldl pick best (when_some b y) =
     (if b then case y of None \<Rightarrow> best | Some c \<Rightarrow> pick best c else best)"
  by (cases b; cases y) auto

lemma consider_if_pick:
  "(if b then consider_candidate env fs ver mp mr rel lf cf best else best) =
     foldl pick best (when_some b (candidate_of env fs ver mp mr rel lf cf))"
  by (simp add: consider_candidate_pick foldl_pick_when_some)

lemma consider_cgroup_line_pick:
  "consider_cgroup_line env fs mounts best line = foldl pick best (line_candidates env fs mounts line)"
  by (cases "split_cgroup_line (chomp line)")
    (simp_all only: consider_cgroup_line_def line_candidates_def consider_if_pick Let_def
      foldl_append foldl_Nil option.case case_prod_beta)

lemma foldl_consider_cgroup_line:
  "foldl (consider_cgroup_line env fs mounts) best ls =
     foldl pick best (concat (map (line_candidates env fs mounts) ls))"
  by (induction ls arbitrary: best) (simp_all add: consider_cgroup_line_pick)

lemma detect_pick:
  "rps_cgroup_memory_detect env fs =
     (let (found, out) = foldl pick (False, cgroup_memory_zero) (cgroup_candidates env fs) in
      if found then (True, out) else (False, cgroup_memory_zero))"
  by (auto simp: rps_cgroup_memory_detect_def cgroup_candidates_def foldl_consider_cgroup_line
      split: option.split)

lemma foldl_pick_found:
  "foldl pick (True, b) cs = (True, out) \<Longrightarrow>
     out \<in> insert b (set cs) \<and> (\<forall>c \<in> insert b (set cs). cm_limit_bytes out \<le> cm_limit_bytes c)"
proof (induction cs arbitrary: b)
  case Nil
  then show ?case by simp
next
  case (Cons c cs)
  define b' where "b' = (if cm_limit_bytes c < cm_limit_bytes b then c else b)"
  have "pick (True, b) c = (True, b')" by (simp add: pick_def b'_def)
  with Cons.prems have "foldl pick (True, b') cs = (True, out)" by simp
  from Cons.IH [OF this] show ?case by (auto simp: b'_def split: if_splits)
qed

lemma foldl_pick_stays: "fst (foldl pick (True, b) cs)"
  by (induction cs arbitrary: b) (auto simp: pick_def)

lemma foldl_pick_min:
  "foldl pick (False, z) cs = (found, out) \<Longrightarrow>
     found = (cs \<noteq> []) \<and>
     (found \<longrightarrow> out \<in> set cs \<and> (\<forall>c \<in> set cs. cm_limit_bytes out \<le> cm_limit_bytes c))"
proof (cases cs)
  case (Cons c cs')
  assume "foldl pick (False, z) cs = (found, out)"
  with Cons have *: "foldl pick (True, c) cs' = (found, out)" by (simp add: pick_def)
  with foldl_pick_stays [of c cs'] have "found" by simp
  with * foldl_pick_found [of c cs' out] Cons show ?thesis by simp
qed simp

lemma line_candidates_candidate:
  assumes "c \<in> set (line_candidates env fs mounts line)"
  shows "\<exists>ver mp mr rel lf cf. candidate_of env fs ver mp mr rel lf cf = Some c \<and> ver \<in> {1, 2}"
proof (cases "split_cgroup_line (chomp line)")
  case None
  with assms show ?thesis by (simp add: line_candidates_def)
next
  case (Some t)
  obtain h cs rel where "t = (h, cs, rel)" by (cases t)
  with Some assms
  have "candidate_of env fs 2 (v2_mount mounts) (v2_root mounts) rel
          ''memory.max'' ''memory.current'' = Some c \<or>
        candidate_of env fs 1 (v1_memory_mount mounts) (v1_memory_root mounts) rel
          ''memory.limit_in_bytes'' ''memory.usage_in_bytes'' = Some c"
    by (auto simp: line_candidates_def set_when_some)
  then show ?thesis by blast
qed

lemma cgroup_candidates_good:
  assumes "c \<in> set (cgroup_candidates env fs)"
  shows "0 < cm_limit_bytes c \<and> cm_limit_bytes c < RPS_CGROUP_UNLIMITED_SENTINEL \<and>
         read_limit_file fs (cm_limit_path c) = Some (cm_limit_bytes c) \<and>
         read_counter_file fs (cm_current_path c) = Some (cm_current_bytes c) \<and>
         cm_version c \<in> {1, 2}"
proof -
  have "\<exists>mounts line. c \<in> set (line_candidates env fs mounts line)"
    using assms unfolding cgroup_candidates_def
    by (cases "detect_mounts env fs"; cases "rps_proc_path env 512 ''/proc/self/cgroup''";
        cases "fs (the (rps_proc_path env 512 ''/proc/self/cgroup''))") auto
  then obtain mounts line where "c \<in> set (line_candidates env fs mounts line)" by blast
  from line_candidates_candidate [OF this] obtain ver mp mr rel lf cf where
    "candidate_of env fs ver mp mr rel lf cf = Some c" and ver: "ver \<in> {1, 2}" by blast
  from candidate_of_good [OF this(1)] ver show ?thesis by (auto dest: read_limit_file_finite)
qed

lemma detect_most_restrictive:
  "rps_cgroup_memory_detect env fs = (ok, out) \<Longrightarrow>
     ok = (cgroup_candidates env fs \<noteq> []) \<and>
     (ok \<longrightarrow> out \<in> set (cgroup_candidates env fs) \<and>
        (\<forall>c \<in> set (cgroup_candidates env fs). cm_limit_bytes out \<le> cm_limit_bytes c)) \<and>
     (\<not> ok \<longrightarrow> out = cgroup_memory_zero)"
  using foldl_pick_min [of cgroup_memory_zero "cgroup_candidates env fs"]
  by (cases "foldl pick (False, cgroup_memory_zero) (cgroup_candidates env fs)")
    (auto simp: detect_pick split: if_splits)

lemma refresh_keeps_limit:
  "rps_cgroup_memory_refresh fs m = (ok, m') \<Longrightarrow>
     cm_limit_bytes m' = cm_limit_bytes m \<and> cm_current_path m' = cm_current_path m \<and>
     (ok \<longrightarrow> read_counter_file fs (cm_current_path m) = Some (cm_current_bytes m'))"
  by (auto simp: rps_cgroup_memory_refresh_def split: if_splits option.splits)

lemma trim_token_line:
  assumes "t \<noteq> []" and "\<forall>c \<in> set t. \<not> is_space c"
  shows "trim_token (t @ [LF]) = t"
proof -
  have "dropWhile is_space (t @ [LF]) = t @ [LF]" using assms by (cases t) auto
  moreover have "takeWhile (\<lambda>c. \<not> is_space c) (t @ [LF]) = t"
    using assms(2) by (simp add: takeWhile_append2 is_space_def)
  ultimately show ?thesis by (simp add: trim_token_def)
qed

lemma u64_decimal_short: "length (show_nat (unat (w :: u64))) \<le> 20"
  using unsigned_less [of w, where 'a = nat] by (intro show_nat_length) simp_all

text \<open>The file the kernel shows for a counter holds its decimal text and a newline.\<close>

lemma read_token_counter:
  assumes "fs p = Some \<lparr>st_data = show_nat (unat (w :: u64)) @ [LF], st_err = e\<rparr>"
  shows "read_token_file fs p 64 = Some (show_nat (unat w))"
proof -
  let ?t = "show_nat (unat w)"
  note no = all_digits_no [OF show_nat_digits, of "unat w"]
  have "fgets 64 \<lparr>st_data = ?t @ [LF], st_err = e\<rparr> = Some (?t @ [LF], \<lparr>st_data = [], st_err = e\<rparr>)"
    using no u64_decimal_short [of w] by (intro fgets_line) auto
  moreover have "cstr (?t @ [LF]) = ?t @ [LF]" using no by simp
  moreover have "trim_token (?t @ [LF]) = ?t" using no by (intro trim_token_line) simp_all
  ultimately show ?thesis using assms by (simp add: read_token_file_def)
qed

lemma read_counter_file_decimal:
  "fs p = Some \<lparr>st_data = show_nat (unat (w :: u64)) @ [LF], st_err = e\<rparr> \<Longrightarrow>
     read_counter_file fs p = Some w"
  using read_token_counter [of fs p w e] by (simp add: read_counter_file_def)

lemma show_nat_not_max: "show_nat n \<noteq> ''max''"
proof
  assume "show_nat n = ''max''"
  then have "all_digits ''max''" using show_nat_digits [of n] by simp
  then show False by (simp add: is_digit_def)
qed

lemma read_limit_file_decimal:
  assumes "fs p = Some \<lparr>st_data = show_nat (unat (w :: u64)) @ [LF], st_err = e\<rparr>"
    and "0 < w" and "w < RPS_CGROUP_UNLIMITED_SENTINEL"
  shows "read_limit_file fs p = Some w"
  using read_token_counter [of fs p w e, OF assms(1)] assms(2,3) show_nat_not_max
  by (simp add: read_limit_file_def word_gt_0)

section \<open>Properties\<close>

text \<open>
  C39. A counter token is read exactly: \<open>parse_u64_token\<close> accepts the non-empty strings of
  digits whose value is below \<open>2^64\<close>, and nothing else, and the word it returns has that
  value, so its guard against overflow loses no number and lets no wrapped one through. The
  decimal text the kernel prints for a counter is read back as that counter.
\<close>

theorem parse_u64_token_exact:
  "(parse_u64_token t = Some w \<longleftrightarrow> t \<noteq> [] \<and> all_digits t \<and> dec_from 0 t = unat w) \<and>
   parse_u64_token (show_nat (unat v)) = Some v"
proof -
  have "dec_from 0 t \<le> 2 ^ 64 - 1 \<and> w = of_nat (dec_from 0 t) \<longleftrightarrow> dec_from 0 t = unat w"
    using unsigned_less [of w, where 'a = nat] by (auto simp: unat_of_nat)
  then show ?thesis by (auto simp: parse_u64_token_Some_iff)
qed

text \<open>
  C19. Detection takes the most restrictive finite limit: it succeeds exactly when some
  cgroup of the process offers a limit file and a usage file that can be read, the result is
  one of those candidates and no candidate has a smaller limit; the limit is neither zero
  nor at or above the kernel's unlimited value, and both numbers are what the files hold.
  Otherwise it fails with an all-zero result (the host view is kept).
\<close>

theorem detect_takes_smallest_finite_limit:
  assumes "rps_cgroup_memory_detect env fs = (ok, out)"
  shows "(ok \<longleftrightarrow> cgroup_candidates env fs \<noteq> []) \<and>
         (ok \<longrightarrow> out \<in> set (cgroup_candidates env fs) \<and>
            (\<forall>c \<in> set (cgroup_candidates env fs). cm_limit_bytes out \<le> cm_limit_bytes c) \<and>
            0 < cm_limit_bytes out \<and> cm_limit_bytes out < RPS_CGROUP_UNLIMITED_SENTINEL \<and>
            read_limit_file fs (cm_limit_path out) = Some (cm_limit_bytes out) \<and>
            read_counter_file fs (cm_current_path out) = Some (cm_current_bytes out)) \<and>
         (\<not> ok \<longrightarrow> out = cgroup_memory_zero)"
  using detect_most_restrictive [OF assms] cgroup_candidates_good [of out env fs] by blast

text \<open>The hybrid layout of \<open>tests/test_cgroup_detection.sh\<close>: a v2 and a v1 limit.\<close>

definition text_file :: "string \<Rightarrow> stream option" where
  "text_file s = Some \<lparr>st_data = s @ [LF], st_err = False\<rparr>"

definition hybrid_fs :: fs where
  "hybrid_fs p =
     (if p = ''/proc/self/mountinfo'' then
        text_file (''10 9 0:1 / /sys/fs/cgroup rw - cgroup2 cgroup rw'' @ [LF] @
                   ''20 9 0:2 / /sys/fs/cgroup/memory rw - cgroup cgroup rw,memory'')
      else if p = ''/proc/self/cgroup'' then
        text_file (''0::/pod'' @ [LF] @ ''5:memory:/docker/pod'')
      else if p = ''/sys/fs/cgroup/pod/memory.max'' then text_file ''3221225472''
      else if p = ''/sys/fs/cgroup/pod/memory.current'' then text_file ''805306368''
      else if p = ''/sys/fs/cgroup/memory/docker/pod/memory.limit_in_bytes'' then text_file ''2147483648''
      else if p = ''/sys/fs/cgroup/memory/docker/pod/memory.usage_in_bytes'' then text_file ''536870912''
      else None)"

theorem detect_takes_smallest_finite_limit_witness:
  "\<exists>out. rps_cgroup_memory_detect (\<lambda>_. None) hybrid_fs = (True, out) \<and>
     (\<forall>c \<in> set (cgroup_candidates (\<lambda>_. None) hybrid_fs). cm_limit_bytes out \<le> cm_limit_bytes c) \<and>
     cm_limit_bytes out = 2147483648 \<and> cm_version out = 1"
proof -
  have ev: "rps_cgroup_memory_detect (\<lambda>_. None) hybrid_fs =
      (True, \<lparr>cm_version = 1, cm_limit_bytes = 2147483648, cm_current_bytes = 536870912,
         cm_limit_path = ''/sys/fs/cgroup/memory/docker/pod/memory.limit_in_bytes'',
         cm_current_path = ''/sys/fs/cgroup/memory/docker/pod/memory.usage_in_bytes''\<rparr>)"
    by code_simp
  from detect_takes_smallest_finite_limit [OF ev] ev show ?thesis by simp
qed

end
