(* ===== verification/Cgroup_Files.thy ===== *)
theory Cgroup_Files imports Cgroup_Memory
begin

text \<open>
  The two files that detection reads (\<open>cgroup/cgroup.c\<close>), as the kernel writes them: a line of
  \<open>/proc/self/mountinfo\<close> as in proc(5), with any number of optional fields, and a line
  \<open>hierarchy:controllers:path\<close> of \<open>/proc/self/cgroup\<close>. The parser recovers the fields of every
  such line, so that the mounts and the cgroups detection works with are those of the files.
\<close>

section \<open>The files\<close>

fun words_line :: "string list \<Rightarrow> string" where
  "words_line [] = []"
| "words_line [w] = w"
| "words_line (w # ws) = w @ SPACE # words_line ws"

record mount_entry =
  me_id :: string
  me_parent :: string
  me_device :: string
  me_root :: string
  me_point :: string
  me_options :: string
  me_optional :: "string list"
  me_fstype :: string
  me_source :: string
  me_super :: string

definition mount_words :: "mount_entry \<Rightarrow> string list" where
  "mount_words e = [me_id e, me_parent e, me_device e, me_root e, me_point e, me_options e] @
     me_optional e @ [''-'', me_fstype e, me_source e, me_super e]"

definition mount_line :: "mount_entry \<Rightarrow> string" where
  "mount_line e = words_line (mount_words e)"

text \<open>No field is empty or has a blank, none before the separator is \<open>-\<close>, the line fits the buffer.\<close>

definition mount_entry_ok :: "mount_entry \<Rightarrow> bool" where
  "mount_entry_ok e \<longleftrightarrow>
     (\<forall>w \<in> set (mount_words e). w \<noteq> [] \<and> set w \<inter> {SPACE, NUL, CR, LF} = {}) \<and>
     ''-'' \<notin> set ([me_id e, me_parent e, me_device e, me_root e, me_point e, me_options e] @ me_optional e) \<and>
     length (mount_line e) < 1023 \<and> length (me_root e) < 512 \<and> length (me_point e) < 512"

record cgroup_entry =
  ce_hierarchy :: string
  ce_controllers :: string
  ce_path :: string

definition cgroup_line :: "cgroup_entry \<Rightarrow> string" where
  "cgroup_line c = ce_hierarchy c @ CHR '':'' # ce_controllers c @ CHR '':'' # ce_path c"

definition cgroup_entry_ok :: "cgroup_entry \<Rightarrow> bool" where
  "cgroup_entry_ok c \<longleftrightarrow> CHR '':'' \<notin> set (ce_hierarchy c) \<and> CHR '':'' \<notin> set (ce_controllers c) \<and>
     set (cgroup_line c) \<inter> {NUL, CR, LF} = {} \<and> length (cgroup_line c) < 1023"

definition lines_file :: "string list \<Rightarrow> stream option" where
  "lines_file ls = Some \<lparr>st_data = concat (map (\<lambda>l. l @ [LF]) ls), st_err = False\<rparr>"

text \<open>A word of a list separated by commas.\<close>

definition comma_word :: "string \<Rightarrow> string \<Rightarrow> bool" where
  "comma_word n s \<longleftrightarrow> (\<exists>u v. s = u @ n @ v \<and> CHR '','' \<notin> set n \<and>
     (u = [] \<or> last u = CHR '','') \<and> (v = [] \<or> hd v = CHR '',''))"

definition is_v2 :: "mount_entry \<Rightarrow> bool" where
  "is_v2 e \<longleftrightarrow> me_fstype e = ''cgroup2''"

definition is_v1_memory :: "mount_entry \<Rightarrow> bool" where
  "is_v1_memory e \<longleftrightarrow> me_fstype e = ''cgroup'' \<and>
     (comma_word ''memory'' (me_options e) \<or> comma_word ''memory'' (me_super e))"

section \<open>Parsing: lemmas\<close>

lemma tokens_simps [simp]:
  "tokens [] = []"
  "w \<noteq> [] \<Longrightarrow> SPACE \<notin> set w \<Longrightarrow> tokens w = [w]"
  "w \<noteq> [] \<Longrightarrow> SPACE \<notin> set w \<Longrightarrow> tokens (w @ SPACE # s) = w # tokens s"
proof -
  show nil: "tokens [] = []" by (simp add: tokens.simps)
  assume w: "w \<noteq> []" "SPACE \<notin> set w"
  then have front: "dropWhile (\<lambda>c. c = SPACE) (w @ x) = w @ x" for x by (cases w) auto
  have all: "takeWhile (\<lambda>c. c \<noteq> SPACE) w = w" "dropWhile (\<lambda>c. c \<noteq> SPACE) w = []"
    using w(2) by (induction w) auto
  have sp: "tokens (SPACE # s) = tokens s"
    by (simp add: tokens.simps [of "SPACE # s"] tokens.simps [of s])
  have "takeWhile (\<lambda>c. c \<noteq> SPACE) (w @ SPACE # s) = w" "dropWhile (\<lambda>c. c \<noteq> SPACE) (w @ SPACE # s) = SPACE # s"
    using w(2) by (induction w) auto
  then show "tokens (w @ SPACE # s) = w # tokens s"
    using front [of "SPACE # s"] w(1) by (subst tokens.simps) (simp add: sp)
  show "tokens w = [w]"
    using front [of "[]"] w(1) by (subst tokens.simps) (simp add: nil all)
qed

lemma tokens_words: "\<forall>w \<in> set ws. w \<noteq> [] \<and> SPACE \<notin> set w \<Longrightarrow> tokens (words_line ws) = ws"
  by (induction ws rule: words_line.induct) auto

lemma words_line_set: "set (words_line ws) \<subseteq> insert SPACE (\<Union>w \<in> set ws. set w)"
  by (induction ws rule: words_line.induct) auto

lemma mountinfo_scan_past:
  "''-'' \<notin> set ws \<Longrightarrow> 6 \<le> n \<Longrightarrow> mountinfo_scan n (ws @ rest) m = mountinfo_scan (n + length ws) rest m"
  by (induction ws arbitrary: n) auto

lemma mountinfo_scan_words:
  assumes "''-'' \<notin> set ([a, b, c, root, point, opts] @ optional)"
  shows "mountinfo_scan 0 ([a, b, c, root, point, opts] @ optional @ [''-'', fstype, source, super]) mountinfo_none =
    \<lparr>mi_mount_root = Some root, mi_mount_point = Some point, mi_mount_options = Some opts,
     mi_fstype = Some fstype, mi_super_options = Some super\<rparr>"
proof -
  have "mountinfo_scan (Suc (Suc (Suc (Suc (Suc (Suc 0)))))) (optional @ [''-'', fstype, source, super])
      \<lparr>mi_mount_root = Some root, mi_mount_point = Some point, mi_mount_options = Some opts,
       mi_fstype = None, mi_super_options = None\<rparr> =
    \<lparr>mi_mount_root = Some root, mi_mount_point = Some point, mi_mount_options = Some opts,
     mi_fstype = Some fstype, mi_super_options = Some super\<rparr>"
    using assms by (subst mountinfo_scan_past) (auto simp: nth_token_def Let_def)
  moreover have "a \<noteq> ''-''" "b \<noteq> ''-''" "c \<noteq> ''-''" "root \<noteq> ''-''" "point \<noteq> ''-''" "opts \<noteq> ''-''"
    using assms by auto
  ultimately show ?thesis by (simp add: mountinfo_none_def Let_def)
qed

lemma chomp_line: "set l \<inter> {NUL, CR, LF} = {} \<Longrightarrow> chomp (l @ [LF]) = l"
proof -
  assume "set l \<inter> {NUL, CR, LF} = {}"
  then have "cstr (l @ [LF]) = l @ [LF]" "takeWhile (\<lambda>c. c \<noteq> CR \<and> c \<noteq> LF) (l @ [LF]) = l"
    by (simp, subst takeWhile_append2) auto
  then show ?thesis by (simp add: chomp_def)
qed

lemma parse_mount_line:
  assumes "mount_entry_ok e"
  shows "parse_mountinfo_line mounts (chomp (mount_line e @ [LF])) =
    record_v1_memory (me_fstype e) (me_root e) (me_point e) (Some (me_options e)) (Some (me_super e))
      (record_v2 (me_fstype e) (me_root e) (me_point e) mounts)"
proof -
  have words: "\<forall>w \<in> set (mount_words e). w \<noteq> [] \<and> set w \<inter> {SPACE, NUL, CR, LF} = {}"
    and dash: "''-'' \<notin> set ([me_id e, me_parent e, me_device e, me_root e, me_point e, me_options e] @ me_optional e)"
    using assms unfolding mount_entry_ok_def by blast+
  have "set (mount_line e) \<inter> {NUL, CR, LF} = {}"
    using words_line_set [of "mount_words e"] words unfolding mount_line_def by fastforce
  then have "chomp (mount_line e @ [LF]) = mount_line e" by (rule chomp_line)
  moreover have "tokens (mount_line e) = mount_words e"
    unfolding mount_line_def using words by (intro tokens_words) auto
  ultimately show ?thesis
    unfolding parse_mountinfo_line_def mount_words_def by (simp only: mountinfo_scan_words [OF dash]) simp
qed

lemma comma_wordE:
  assumes "comma_word n s"
  obtains u v where "s = u @ n @ v" "CHR '','' \<notin> set n" "u = [] \<or> last u = CHR '',''" "v = [] \<or> hd v = CHR '',''"
  using assms unfolding comma_word_def by blast

lemma comma_wordI:
  "CHR '','' \<notin> set n \<Longrightarrow> u = [] \<or> last u = CHR '','' \<Longrightarrow> v = [] \<or> hd v = CHR '','' \<Longrightarrow> comma_word n (u @ n @ v)"
  unfolding comma_word_def by blast

lemma first_comma:
  assumes "CHR '','' \<notin> set a" "CHR '','' \<notin> set b" "a @ CHR '','' # s = b @ CHR '','' # t"
  shows "a = b \<and> s = t"
proof -
  have "strchr (CHR '','') (a @ CHR '','' # s) = Some (a, s)" "strchr (CHR '','') (b @ CHR '','' # t) = Some (b, t)"
    using assms(1,2) by simp_all
  then have "Some (a, s) = Some (b, t)" unfolding assms(3) by (simp only:)
  then show ?thesis by simp
qed

lemma comma_word_no_comma:
  assumes s: "CHR '','' \<notin> set s"
  shows "comma_word n s \<longleftrightarrow> s = n"
proof
  assume "comma_word n s"
  then obtain u v where uv: "s = u @ n @ v" "u = [] \<or> last u = CHR '',''" "v = [] \<or> hd v = CHR '',''"
    by (rule comma_wordE)
  have "u = []" by (rule ccontr) (use uv s last_in_set [of u] in auto)
  moreover have "v = []" by (rule ccontr) (use uv s hd_in_set [of v] in auto)
  ultimately show "s = n" using uv(1) by simp
next
  assume "s = n"
  then show "comma_word n s" using comma_wordI [of n "[]" "[]"] s by simp
qed

lemma comma_word_append:
  assumes a: "CHR '','' \<notin> set a"
  shows "comma_word n (a @ CHR '','' # s) \<longleftrightarrow> a = n \<or> comma_word n s"
proof
  assume "comma_word n (a @ CHR '','' # s)"
  then obtain u v where uv: "a @ CHR '','' # s = u @ n @ v" "CHR '','' \<notin> set n"
      "u = [] \<or> last u = CHR '',''" "v = [] \<or> hd v = CHR '',''" by (rule comma_wordE)
  consider "u = []" "v = []" | v' where "u = []" "v = CHR '','' # v'" | u' where "u = u' @ [CHR '','']"
    using uv(3,4) by (cases u rule: rev_cases; cases v) auto
  then show "a = n \<or> comma_word n s"
  proof cases
    case 1
    then have "n = a @ CHR '','' # s" using uv(1) by simp
    with uv(2) show ?thesis by simp
  next
    case (2 v')
    then have "a @ CHR '','' # s = n @ CHR '','' # v'" using uv(1) by simp
    from first_comma [OF a uv(2) this] show ?thesis by simp
  next
    case (3 u')
    then have eq: "a @ CHR '','' # s = u' @ CHR '','' # n @ v" using uv(1) by simp
    show ?thesis
    proof (cases "CHR '','' \<in> set u'")
      case True
      then obtain b c where bc: "u' = b @ CHR '','' # c" "CHR '','' \<notin> set b" by (meson split_list_first)
      with eq have "a @ CHR '','' # s = b @ CHR '','' # (c @ [CHR '','']) @ n @ v" by simp
      from first_comma [OF a bc(2) this] comma_wordI [OF uv(2) _ uv(4), of "c @ [CHR '','']"]
      show ?thesis by simp
    next
      case False
      from first_comma [OF a False eq] comma_wordI [OF uv(2) _ uv(4), of "[]"] show ?thesis by simp
    qed
  qed
next
  assume "a = n \<or> comma_word n s"
  then show "comma_word n (a @ CHR '','' # s)"
  proof
    assume "a = n"
    then show ?thesis using comma_wordI [of n "[]" "CHR '','' # s"] a by simp
  next
    assume "comma_word n s"
    then obtain u v where uv: "s = u @ n @ v" "CHR '','' \<notin> set n"
      "u = [] \<or> last u = CHR '',''" "v = [] \<or> hd v = CHR '',''" by (rule comma_wordE)
    have "last (a @ CHR '','' # u) = CHR '',''" using uv(3) by (cases "u = []") simp_all
    then show ?thesis
      using comma_wordI [OF uv(2) _ uv(4), of "a @ CHR '','' # u"] uv(1) by simp
  qed
qed

lemma controllers_include_iff: "n \<noteq> [] \<Longrightarrow> controllers_include s n \<longleftrightarrow> comma_word n s"
proof (induction s n rule: controllers_include.induct)
  case (1 s n)
  show ?case
  proof (cases "strchr (CHR '','') s")
    case None
    then have "comma_word n s \<longleftrightarrow> s = n" by (intro comma_word_no_comma) simp
    with 1(2) show ?thesis by (subst controllers_include.simps) (auto simp add: None simp del: strchr_None_iff)
  next
    case (Some p)
    obtain a r where p: "p = (a, r)" by fastforce
    with Some have s: "s = a @ CHR '','' # r" "CHR '','' \<notin> set a" by (simp_all add: strchr_Some_iff)
    have "comma_word n s \<longleftrightarrow> a = n \<or> comma_word n r" unfolding s(1) by (rule comma_word_append [OF s(2)])
    moreover have "controllers_include r n \<longleftrightarrow> comma_word n r" using 1(1) [OF _ Some p [symmetric]] s(1) 1(2) by simp
    moreover have "s \<noteq> []" using s(1) by simp
    ultimately show ?thesis by (subst controllers_include.simps) (simp add: Some p)
  qed
qed

section \<open>Detection of the mounts: lemmas\<close>

definition mounts_of :: "mount_entry list \<Rightarrow> rps_cgroup_mounts" where
  "mounts_of es =
     (let v2 = find is_v2 es; v1 = find is_v1_memory es in
      \<lparr>has_v2 = (v2 \<noteq> None), has_v1_memory = (v1 \<noteq> None),
       v2_root = (case v2 of None \<Rightarrow> [] | Some e \<Rightarrow> me_root e),
       v2_mount = (case v2 of None \<Rightarrow> [] | Some e \<Rightarrow> me_point e),
       v1_memory_root = (case v1 of None \<Rightarrow> [] | Some e \<Rightarrow> me_root e),
       v1_memory_mount = (case v1 of None \<Rightarrow> [] | Some e \<Rightarrow> me_point e)\<rparr>)"

lemma find_snoc: "find P (xs @ [x]) = (case find P xs of None \<Rightarrow> if P x then Some x else None | Some y \<Rightarrow> Some y)"
  by (induction xs) auto

lemma parse_mount_lines:
  assumes "\<forall>e \<in> set es. mount_entry_ok e"
  shows "foldl (\<lambda>m line. parse_mountinfo_line m (chomp line)) cgroup_mounts_zero
      (map (\<lambda>l. l @ [LF]) (map mount_line es)) = mounts_of es"
  using assms
proof (induction es rule: rev_induct)
  case Nil
  then show ?case by (simp add: mounts_of_def cgroup_mounts_zero_def)
next
  case (snoc e es)
  have ok: "mount_entry_ok e" using snoc.prems by simp
  then have short: "length (me_root e) < 512" "length (me_point e) < 512" unfolding mount_entry_ok_def by blast+
  have "record_v1_memory (me_fstype e) (me_root e) (me_point e) (Some (me_options e)) (Some (me_super e))
      (record_v2 (me_fstype e) (me_root e) (me_point e) (mounts_of es)) = mounts_of (es @ [e])"
    using short
    by (auto simp: record_v1_memory_def record_v2_def mounts_of_def copy_mount_def Let_def find_snoc is_v2_def
        is_v1_memory_def controllers_include_iff split: option.split)
  then show ?case using snoc by (simp add: parse_mount_line [OF ok])
qed

lemma mount_lines_read:
  assumes "\<forall>e \<in> set es. mount_entry_ok e"
  shows "fgets_all 1024 \<lparr>st_data = concat (map (\<lambda>l. l @ [LF]) (map mount_line es)), st_err = b\<rparr> =
    map (\<lambda>l. l @ [LF]) (map mount_line es)"
proof (rule fgets_all_lines, intro ballI)
  fix l assume "l \<in> set (map mount_line es)"
  then obtain e where e: "l = mount_line e" "mount_entry_ok e" using assms by auto
  then have "\<forall>w \<in> set (mount_words e). LF \<notin> set w" "length l < 1023" by (auto simp: mount_entry_ok_def)
  then show "LF \<notin> set l \<and> length l < 1024 - 1"
    using words_line_set [of "mount_words e"] e(1) unfolding mount_line_def by fastforce
qed

lemma cgroup_line_split:
  assumes "cgroup_entry_ok c"
  shows "split_cgroup_line (chomp (cgroup_line c @ [LF])) =
    Some (ce_hierarchy c, ce_controllers c, if ce_path c = [] then ''/'' else ce_path c)"
proof -
  have "chomp (cgroup_line c @ [LF]) = cgroup_line c"
    using assms by (intro chomp_line) (simp add: cgroup_entry_ok_def)
  then show ?thesis using assms by (simp add: split_cgroup_line_def cgroup_line_def cgroup_entry_ok_def)
qed

lemma cgroup_lines_read:
  assumes "\<forall>c \<in> set cs. cgroup_entry_ok c"
  shows "fgets_all 1024 \<lparr>st_data = concat (map (\<lambda>l. l @ [LF]) (map cgroup_line cs)), st_err = b\<rparr> =
    map (\<lambda>l. l @ [LF]) (map cgroup_line cs)"
  using assms by (intro fgets_all_lines) (auto simp: cgroup_entry_ok_def)

section \<open>A pod's cgroup: lemmas\<close>

text \<open>
  The directory of the pod's cgroup, where the whole hierarchy is mounted; the root cgroup is
  the mount point itself.
\<close>

definition pod_dir :: "string \<Rightarrow> string \<Rightarrow> string" where
  "pod_dir mount pod = (if pod = [] then mount else mount @ SLASH # pod)"

text \<open>
  A system with the cgroup v2 hierarchy mounted and the process in cgroup \<open>/pod\<close>, with a finite
  limit and a usage: \<open>es\<close> are the lines of mountinfo, \<open>cs\<close> those of the cgroup file, which may
  name other hierarchies, but none that has the memory controller.
\<close>

definition v2_pod_system ::
    "env \<Rightarrow> fs \<Rightarrow> mount_entry list \<Rightarrow> cgroup_entry list \<Rightarrow> mount_entry \<Rightarrow> string \<Rightarrow> u64 \<Rightarrow> u64 \<Rightarrow> bool" where
  "v2_pod_system env fs es cs e pod limit usage \<longleftrightarrow>
     env ''RUNPOD_SHIM_TEST_PROC_ROOT'' = None \<and> env ''RUNPOD_SHIM_TEST_CGROUP_ROOT'' = None \<and>
     fs ''/proc/self/mountinfo'' = lines_file (map mount_line es) \<and> (\<forall>e \<in> set es. mount_entry_ok e) \<and>
     find is_v2 es = Some e \<and> me_root e = ''/'' \<and> me_point e \<noteq> [] \<and> last (me_point e) \<noteq> SLASH \<and>
     fs ''/proc/self/cgroup'' = lines_file (map cgroup_line cs) \<and> (\<forall>c \<in> set cs. cgroup_entry_ok c) \<and>
     filter (\<lambda>c. ce_hierarchy c = ''0'' \<and> ce_controllers c = []) cs =
       [\<lparr>ce_hierarchy = ''0'', ce_controllers = [], ce_path = SLASH # pod\<rparr>] \<and>
     (\<forall>c \<in> set cs. \<not> comma_word ''memory'' (ce_controllers c)) \<and>
     (pod = [] \<or> hd pod \<noteq> SLASH \<and> last pod \<noteq> SLASH) \<and> length (pod_dir (me_point e) pod) < 497 \<and>
     fs (pod_dir (me_point e) pod @ ''/memory.max'') = lines_file [show_nat (unat limit)] \<and>
     fs (pod_dir (me_point e) pod @ ''/memory.current'') = lines_file [show_nat (unat usage)] \<and>
     0 < limit \<and> limit < RPS_CGROUP_UNLIMITED_SENTINEL"

lemma pod_path:
  assumes "env ''RUNPOD_SHIM_TEST_CGROUP_ROOT'' = None" "mount \<noteq> []" "last mount \<noteq> SLASH"
    and "pod = [] \<or> hd pod \<noteq> SLASH \<and> last pod \<noteq> SLASH" "f \<noteq> []" "hd f \<noteq> SLASH"
    and "length (pod_dir mount pod) + length f < 511"
  shows "rps_cgroup_path env 512 mount (Some ''/'') (Some (SLASH # pod)) f = Some (pod_dir mount pod @ SLASH # f)"
proof (cases "pod = []")
  case True
  with assms rps_cgroup_path_joined [where env = env and n = 512 and mount = mount and rel = "''x''" and fname = f]
  show ?thesis by (simp add: pod_dir_def fits_def)
next
  case False
  with assms rps_cgroup_path_joined [where env = env and n = 512 and mount = mount and rel = pod and fname = f]
  show ?thesis by (simp add: pod_dir_def fits_def)
qed

lemma when_some_False [simp]: "when_some False x = []"
  by (cases x) simp_all

lemma concat_one:
  assumes "filter P xs = [x]" and "\<forall>y \<in> set xs. f y = (if P y then g y else [])"
  shows "concat (map f xs) = g x"
proof -
  have "concat (map f xs) = concat (map g (filter P xs))"
    using assms(2) by (induction xs) auto
  with assms(1) show ?thesis by simp
qed

lemma detect_mounts_lines:
  assumes "rps_proc_path env 512 ''/proc/self/mountinfo'' = Some path"
    and "fs path = lines_file (map mount_line es)" "\<forall>e \<in> set es. mount_entry_ok e"
  shows "detect_mounts env fs =
    (if has_v2 (mounts_of es) \<or> has_v1_memory (mounts_of es) then Some (mounts_of es) else None)"
  using assms(1,2) mount_lines_read [OF assms(3), of False] parse_mount_lines [OF assms(3)]
  by (simp add: detect_mounts_def lines_file_def Let_def del: map_map)

lemma detect_reads_v2_pod:
  assumes "v2_pod_system env fs es cs e pod limit usage"
  shows "rps_cgroup_memory_detect env fs =
    (True, \<lparr>cm_version = 2, cm_limit_bytes = limit, cm_current_bytes = usage,
            cm_limit_path = pod_dir (me_point e) pod @ ''/memory.max'',
            cm_current_path = pod_dir (me_point e) pod @ ''/memory.current''\<rparr>)"
proof -
  note sys = assms [unfolded v2_pod_system_def]
  let ?c = "\<lparr>cm_version = 2, cm_limit_bytes = limit, cm_current_bytes = usage,
            cm_limit_path = pod_dir (me_point e) pod @ ''/memory.max'',
            cm_current_path = pod_dir (me_point e) pod @ ''/memory.current''\<rparr>"
  have env: "env ''RUNPOD_SHIM_TEST_PROC_ROOT'' = None" "env ''RUNPOD_SHIM_TEST_CGROUP_ROOT'' = None"
    and v2: "find is_v2 es = Some e" "me_root e = ''/''" "me_point e \<noteq> []" "last (me_point e) \<noteq> SLASH"
    and pod: "pod = [] \<or> hd pod \<noteq> SLASH \<and> last pod \<noteq> SLASH" "length (pod_dir (me_point e) pod) < 497"
    and cs: "\<forall>c \<in> set cs. cgroup_entry_ok c" "\<forall>c \<in> set cs. \<not> comma_word ''memory'' (ce_controllers c)"
    and finite: "0 < limit" "limit < RPS_CGROUP_UNLIMITED_SENTINEL"
    using sys by simp_all
  have mounts: "detect_mounts env fs = Some (mounts_of es)"
    using detect_mounts_lines [of env "''/proc/self/mountinfo''" fs es] sys
    by (simp add: rps_proc_path_default fits_def mounts_of_def Let_def)
  have m: "has_v2 (mounts_of es)" "v2_root (mounts_of es) = ''/''" "v2_mount (mounts_of es) = me_point e"
    using v2 by (simp_all add: mounts_of_def Let_def)
  have "read_limit_file fs (pod_dir (me_point e) pod @ ''/memory.max'') = Some limit"
    "read_counter_file fs (pod_dir (me_point e) pod @ ''/memory.current'') = Some usage"
    using read_limit_file_decimal [of fs _ limit False] read_counter_file_decimal [of fs _ usage False] sys finite
    by (simp_all add: lines_file_def)
  then have candidate: "candidate_of env fs 2 (me_point e) ''/'' (SLASH # pod) ''memory.max'' ''memory.current'' = Some ?c"
    using pod_path [where env = env and mount = "me_point e" and pod = pod and f = "''memory.max''"]
      pod_path [where env = env and mount = "me_point e" and pod = pod and f = "''memory.current''"] env(2) v2(3,4) pod
    by (simp add: candidate_of_def)
  have "line_candidates env fs (mounts_of es) (cgroup_line c @ [LF]) =
      (if ce_hierarchy c = ''0'' \<and> ce_controllers c = []
       then when_some True (candidate_of env fs 2 (me_point e) ''/'' (if ce_path c = [] then ''/'' else ce_path c)
          ''memory.max'' ''memory.current'') else [])" if "c \<in> set cs" for c
    using cgroup_line_split [of c] cs that m
    by (cases "ce_hierarchy c = ''0'' \<and> ce_controllers c = []")
      (auto simp: line_candidates_def controllers_include_iff)
  then have "concat (map (line_candidates env fs (mounts_of es)) (map (\<lambda>l. l @ [LF]) (map cgroup_line cs))) = [?c]"
    using concat_one [of "\<lambda>c. ce_hierarchy c = ''0'' \<and> ce_controllers c = []" cs
        "\<lparr>ce_hierarchy = ''0'', ce_controllers = [], ce_path = SLASH # pod\<rparr>"
        "\<lambda>c. line_candidates env fs (mounts_of es) (cgroup_line c @ [LF])"
        "\<lambda>c. when_some True (candidate_of env fs 2 (me_point e) ''/'' (if ce_path c = [] then ''/'' else ce_path c)
          ''memory.max'' ''memory.current'')"] sys candidate by (simp add: comp_def)
  then have "cgroup_candidates env fs = [?c]"
    using sys mounts cgroup_lines_read [OF cs(1), of False]
    by (simp add: cgroup_candidates_def rps_proc_path_default fits_def lines_file_def del: map_map)
  then show ?thesis by (simp add: detect_pick pick_def)
qed

section \<open>Properties\<close>





end
