(* ===== verification/Memory_View.thy ===== *)
theory Memory_View
  imports Core_Config Cgroup_Memory
begin

text \<open>
  What the memory module shows: the snapshot (\<open>memory/memory.c\<close>) taken from the cgroup
  detected once and refreshed at every call, and the rewritten \<open>/proc/meminfo\<close>
  (\<open>memory/proc_meminfo.c\<close>). \<open>memory.c\<close> reaches the cgroup module through two calls; the
  snapshot is defined over them as parameters, the locale \<open>limit_source\<close> states what it
  relies on, and the cgroup module's own functions are the interpretation.
\<close>

section \<open>Snapshot\<close>

record rps_memory_snapshot_t =
  snap_total :: u64
  snap_available :: u64

text \<open>The static variables of \<open>rps_memory_snapshot\<close>.\<close>

record 'm mem_state =
  ms_cgmem :: 'm
  ms_detected :: bool

text \<open>
  \<open>lock_ok\<close> is the outcome of \<open>pthread_mutex_lock\<close>; \<open>detect\<close> and \<open>refresh\<close> are the calls
  into the cgroup module, \<open>limit\<close> and \<open>current\<close> the fields they fill.
\<close>

definition memory_snapshot_via ::
    "('m \<Rightarrow> u64) \<Rightarrow> ('m \<Rightarrow> u64) \<Rightarrow> bool \<times> 'm \<Rightarrow> ('m \<Rightarrow> bool \<times> 'm) \<Rightarrow> bool \<Rightarrow> 'm mem_state \<Rightarrow>
     rps_memory_snapshot_t option \<times> 'm mem_state" where
  "memory_snapshot_via limit current detect refresh lock_ok st =
     (if \<not> lock_ok then (None, st)
      else
        let (ok, st) =
          (if \<not> ms_detected st
           then (fst detect, st\<lparr>ms_cgmem := snd detect, ms_detected := fst detect\<rparr>)
           else (True, st)) in
        if \<not> ok then (None, st)
        else
          let (ok, m) = refresh (ms_cgmem st); st = st\<lparr>ms_cgmem := m\<rparr> in
          if \<not> ok then (None, st)
          else (Some \<lparr>snap_total = limit m,
                      snap_available = (if current m < limit m then limit m - current m else 0)\<rparr>,
                st))"

definition rps_memory_snapshot ::
    "env \<Rightarrow> fs \<Rightarrow> bool \<Rightarrow> rps_cgroup_memory mem_state \<Rightarrow>
     rps_memory_snapshot_t option \<times> rps_cgroup_memory mem_state" where
  "rps_memory_snapshot env fs lock_ok st =
     memory_snapshot_via cm_limit_bytes cm_current_bytes
       (rps_cgroup_memory_detect env fs) (rps_cgroup_memory_refresh fs) lock_ok st"

definition mem_state_init :: "rps_cgroup_memory mem_state" where
  "mem_state_init = \<lparr>ms_cgmem = cgroup_memory_zero, ms_detected = False\<rparr>"

section \<open>/proc/meminfo\<close>

definition append_bytes :: "nat \<Rightarrow> string \<Rightarrow> string \<Rightarrow> string option" where
  "append_bytes buflen buf data =
     (if length data > buflen \<or> length buf > buflen - length data then None
      else Some (buf @ data))"

text \<open>The text of \<open>"%s%16llu kB\n"\<close>, or without the newline.\<close>

definition meminfo_line :: "string \<Rightarrow> u64 \<Rightarrow> bool \<Rightarrow> string" where
  "meminfo_line key value_kb newline =
     key @ pad_left 16 (show_nat (unat value_kb)) @ '' kB'' @ (if newline then [LF] else [])"

definition append_rewritten_line ::
    "nat \<Rightarrow> string \<Rightarrow> string \<Rightarrow> u64 \<Rightarrow> bool \<Rightarrow> string option" where
  "append_rewritten_line buflen buf key value_kb newline =
     (case fits 128 (meminfo_line key value_kb newline) of
        None \<Rightarrow> None
      | Some line \<Rightarrow> append_bytes buflen buf line)"

definition open_meminfo :: "env \<Rightarrow> fs \<Rightarrow> stream option" where
  "open_meminfo env fs =
     (case rps_proc_path env 512 ''/proc/meminfo'' of
        None \<Rightarrow> None
      | Some path \<Rightarrow>
          (case fs path of
             Some fp \<Rightarrow> Some fp
           | None \<Rightarrow>
               if path \<noteq> ''/proc/meminfo''
               then (case rps_proc_path env 512 ''/proc/self/meminfo'' of
                       None \<Rightarrow> None
                     | Some path \<Rightarrow> fs path)
               else None))"

text \<open>The loop over the lines; \<open>None\<close> is the return on a full buffer.\<close>

fun meminfo_loop :: "nat \<Rightarrow> u64 \<Rightarrow> u64 \<Rightarrow> string \<Rightarrow> string list \<Rightarrow> string option" where
  "meminfo_loop buflen total_kb available_kb buf [] = Some buf"
| "meminfo_loop buflen total_kb available_kb buf (raw # lines) =
     (let line = cstr raw; newline = (strchr LF line \<noteq> None) in
      case (if starts_with line ''MemTotal:'' then
              append_rewritten_line buflen buf ''MemTotal:'' total_kb newline
            else if starts_with line ''MemAvailable:'' then
              append_rewritten_line buflen buf ''MemAvailable:'' available_kb newline
            else if starts_with line ''MemFree:'' then
              append_rewritten_line buflen buf ''MemFree:'' available_kb newline
            else append_bytes buflen buf line) of
        None \<Rightarrow> None
      | Some buf \<Rightarrow> meminfo_loop buflen total_kb available_kb buf lines)"

definition rps_proc_meminfo_build ::
    "env \<Rightarrow> fs \<Rightarrow> bool \<Rightarrow> nat \<Rightarrow> rps_cgroup_memory mem_state \<Rightarrow>
     string option \<times> rps_cgroup_memory mem_state" where
  "rps_proc_meminfo_build env fs lock_ok buflen st =
     (case rps_memory_snapshot env fs lock_ok st of
        (None, st) \<Rightarrow> (None, st)
      | (Some snapshot, st) \<Rightarrow>
          (case open_meminfo env fs of
             None \<Rightarrow> (None, st)
           | Some fp \<Rightarrow>
               let total_kb = snap_total snapshot div 1024;
                   available_kb = snap_available snapshot div 1024 in
               case meminfo_loop buflen total_kb available_kb [] (fgets_all 1024 fp) of
                 None \<Rightarrow> (None, st)
               | Some out \<Rightarrow> if st_err fp then (None, st) else (Some out, st)))"

text \<open>Calls one after the other, the environment and the files changing between them.\<close>

fun memory_snapshots ::
    "(env \<times> fs) list \<Rightarrow> rps_cgroup_memory mem_state \<Rightarrow> rps_memory_snapshot_t option list" where
  "memory_snapshots [] st = []"
| "memory_snapshots ((env, fs) # es) st =
     (let (res, st') = rps_memory_snapshot env fs True st in res # memory_snapshots es st')"

text \<open>What the static state keeps between calls: a detected limit is finite.\<close>

definition mem_state_ok :: "rps_cgroup_memory mem_state \<Rightarrow> bool" where
  "mem_state_ok st \<longleftrightarrow>
     (ms_detected st \<longrightarrow> 0 < cm_limit_bytes (ms_cgmem st) \<and>
        cm_limit_bytes (ms_cgmem st) < RPS_CGROUP_UNLIMITED_SENTINEL)"

text \<open>What one line of the real file becomes.\<close>

definition rewrite_line :: "u64 \<Rightarrow> u64 \<Rightarrow> string \<Rightarrow> string" where
  "rewrite_line total_kb available_kb raw =
     (let line = cstr raw; newline = (LF \<in> set line) in
      if starts_with line ''MemTotal:'' then meminfo_line ''MemTotal:'' total_kb newline
      else if starts_with line ''MemAvailable:'' then meminfo_line ''MemAvailable:'' available_kb newline
      else if starts_with line ''MemFree:'' then meminfo_line ''MemFree:'' available_kb newline
      else line)"

text \<open>The three replaced lines, as the documentation has them: the number in kB, right aligned.\<close>

definition kb_text :: "string \<Rightarrow> u64 \<Rightarrow> string" where
  "kb_text key bytes = key @ pad_left 16 (show_nat (unat (bytes div 1024))) @ '' kB''"

definition container_line :: "rps_memory_snapshot_t \<Rightarrow> string \<Rightarrow> string" where
  "container_line s l =
     (if starts_with l ''MemTotal:'' then kb_text ''MemTotal:'' (snap_total s)
      else if starts_with l ''MemAvailable:'' then kb_text ''MemAvailable:'' (snap_available s)
      else if starts_with l ''MemFree:'' then kb_text ''MemFree:'' (snap_available s)
      else l)"

section \<open>The interface to the cgroup module\<close>

locale limit_source =
  fixes limit :: "'m \<Rightarrow> u64"
    and current :: "'m \<Rightarrow> u64"
    and unlimited :: u64
    and detect :: "'e \<Rightarrow> bool \<times> 'm"
    and refresh :: "'e \<Rightarrow> 'm \<Rightarrow> bool \<times> 'm"
  assumes detect_finite: "detect e = (True, m) \<Longrightarrow> 0 < limit m \<and> limit m < unlimited"
    and refresh_limit: "refresh e m = (ok, m') \<Longrightarrow> limit m' = limit m"
begin

text \<open>What the static state keeps between calls.\<close>

definition settled :: "'m mem_state \<Rightarrow> bool" where
  "settled st \<longleftrightarrow> (ms_detected st \<longrightarrow> 0 < limit (ms_cgmem st) \<and> limit (ms_cgmem st) < unlimited)"

lemma snapshot_step:
  assumes "settled st"
    and "memory_snapshot_via limit current (detect e) (refresh e) lock st = (res, st')"
  shows "settled st' \<and> (ms_detected st \<longrightarrow> ms_detected st' \<and> limit (ms_cgmem st') = limit (ms_cgmem st)) \<and>
    (case res of
       None \<Rightarrow> True
     | Some s \<Rightarrow> ms_detected st' \<and> snap_total s = limit (ms_cgmem st') \<and>
         0 < snap_total s \<and> snap_total s < unlimited \<and> snap_available s \<le> snap_total s \<and>
         unat (snap_available s) = unat (limit (ms_cgmem st')) - unat (current (ms_cgmem st')))"
proof -
  obtain ok m where d: "detect e = (ok, m)" by fastforce
  define st1 where "st1 = (if ms_detected st then st else st\<lparr>ms_cgmem := m, ms_detected := ok\<rparr>)"
  obtain ok' m' where r: "refresh e (ms_cgmem st1) = (ok', m')" by fastforce
  have st1: "settled st1"
    using assms(1) d detect_finite [of e m] by (auto simp: settled_def st1_def)
  have lim: "limit m' = limit (ms_cgmem st1)" using r by (rule refresh_limit)
  have avail: "(if c < l then l - c else 0) \<le> l \<and>
      unat (if c < l then l - c else 0) = unat l - unat c" for c l :: u64
    by (auto simp: word_le_nat_alt word_less_nat_alt unat_sub_if')
  consider "\<not> lock" | "lock" "\<not> ms_detected st1" | "lock" "ms_detected st1" "\<not> ok'"
    | "lock" "ms_detected st1" "ok'" by blast
  then show ?thesis
  proof cases
    case 1
    with assms show ?thesis by (simp add: memory_snapshot_via_def)
  next
    case 2
    then have "res = None" "st' = st1" "\<not> ms_detected st"
      using assms(2) d by (auto simp: memory_snapshot_via_def st1_def split: if_splits)
    with st1 show ?thesis by simp
  next
    case 3
    then have "res = None" "st' = st1\<lparr>ms_cgmem := m'\<rparr>"
      using assms(2) d r by (auto simp: memory_snapshot_via_def st1_def split: if_splits)
    with st1 lim show ?thesis by (auto simp: settled_def st1_def)
  next
    case 4
    then have "res = Some \<lparr>snap_total = limit m',
        snap_available = (if current m' < limit m' then limit m' - current m' else 0)\<rparr>"
        "st' = st1\<lparr>ms_cgmem := m'\<rparr>"
      using assms(2) d r by (auto simp: memory_snapshot_via_def st1_def split: if_splits)
    with 4 st1 lim avail [of "current m'" "limit m'"] show ?thesis
      by (auto simp: settled_def st1_def)
  qed
qed

text \<open>Calls one after the other, while the environment changes between them.\<close>

fun snapshots :: "'e list \<Rightarrow> 'm mem_state \<Rightarrow> rps_memory_snapshot_t option list" where
  "snapshots [] st = []"
| "snapshots (e # es) st =
     (let (res, st') = memory_snapshot_via limit current (detect e) (refresh e) True st
      in res # snapshots es st')"

lemma snapshots_total:
  assumes "settled st" and "ms_detected st" and "Some s \<in> set (snapshots es st)"
  shows "snap_total s = limit (ms_cgmem st)"
  using assms
proof (induction es arbitrary: st)
  case (Cons e es)
  obtain res st' where r: "memory_snapshot_via limit current (detect e) (refresh e) True st = (res, st')"
    by fastforce
  note step = snapshot_step [OF Cons.prems(1) r]
  from Cons.prems(3) r have "res = Some s \<or> Some s \<in> set (snapshots es st')" by auto
  then show ?case
  proof
    assume "res = Some s"
    with step Cons.prems(2) show ?thesis by simp
  next
    assume "Some s \<in> set (snapshots es st')"
    with Cons.IH [of st'] step Cons.prems(2) show ?thesis by simp
  qed
qed simp

lemma snapshots_same_total:
  "settled st \<Longrightarrow> Some s \<in> set (snapshots es st) \<Longrightarrow> Some s' \<in> set (snapshots es st) \<Longrightarrow>
     snap_total s = snap_total s'"
proof (induction es arbitrary: st)
  case (Cons e es)
  obtain res st' where r: "memory_snapshot_via limit current (detect e) (refresh e) True st = (res, st')"
    by fastforce
  note step = snapshot_step [OF Cons.prems(1) r]
  have settled: "settled st'" using step by simp
  have members: "res = Some s \<or> Some s \<in> set (snapshots es st')"
      "res = Some s' \<or> Some s' \<in> set (snapshots es st')"
    using Cons.prems(2,3) r by auto
  show ?case
  proof (cases res)
    case None
    with Cons.IH [OF settled] members show ?thesis by simp
  next
    case (Some t)
    with step have t: "ms_detected st'" "snap_total t = limit (ms_cgmem st')" by simp_all
    have "snap_total x = snap_total t" if "res = Some x \<or> Some x \<in> set (snapshots es st')" for x
      using that snapshots_total [OF settled t(1)] Some t(2) by auto
    from this [OF members(1)] this [OF members(2)] show ?thesis by simp
  qed
qed simp

end

interpretation cg: limit_source cm_limit_bytes cm_current_bytes RPS_CGROUP_UNLIMITED_SENTINEL
  "\<lambda>(env, fs). rps_cgroup_memory_detect env fs" "\<lambda>(env :: env, fs). rps_cgroup_memory_refresh fs"
proof unfold_locales
  fix e :: "env \<times> fs" and m :: rps_cgroup_memory
  assume d: "(case e of (env, fs) \<Rightarrow> rps_cgroup_memory_detect env fs) = (True, m)"
  obtain env fs where e: "e = (env, fs)" by fastforce
  with d have "rps_cgroup_memory_detect env fs = (True, m)" by simp
  from detect_most_restrictive [OF this] cgroup_candidates_good
  show "0 < cm_limit_bytes m \<and> cm_limit_bytes m < RPS_CGROUP_UNLIMITED_SENTINEL" by blast
next
  fix e :: "env \<times> fs" and m ok m'
  assume "(case e of (env, fs) \<Rightarrow> rps_cgroup_memory_refresh fs) m = (ok, m')"
  then show "cm_limit_bytes m' = cm_limit_bytes m"
    by (auto dest: refresh_keeps_limit split: prod.splits)
qed

section \<open>Lemmas\<close>

lemma settled_mem_state_ok: "cg.settled st = mem_state_ok st"
  by (simp add: cg.settled_def mem_state_ok_def)

lemma memory_snapshots_eq: "memory_snapshots es st = cg.snapshots es st"
  by (induction es st rule: memory_snapshots.induct) (auto simp: rps_memory_snapshot_def split: prod.split)

lemma mem_state_init_ok [simp]: "mem_state_ok mem_state_init"
  by (simp add: mem_state_ok_def mem_state_init_def)

lemma memory_snapshot_step:
  assumes "mem_state_ok st" and "rps_memory_snapshot env fs lock st = (res, st')"
  shows "mem_state_ok st' \<and>
    (ms_detected st \<longrightarrow> ms_detected st' \<and>
       cm_limit_bytes (ms_cgmem st') = cm_limit_bytes (ms_cgmem st)) \<and>
    (case res of
       None \<Rightarrow> True
     | Some s \<Rightarrow> ms_detected st' \<and> snap_total s = cm_limit_bytes (ms_cgmem st') \<and>
         0 < snap_total s \<and> snap_total s < RPS_CGROUP_UNLIMITED_SENTINEL \<and>
         snap_available s \<le> snap_total s \<and>
         unat (snap_available s) =
           unat (cm_limit_bytes (ms_cgmem st')) - unat (cm_current_bytes (ms_cgmem st')))"
  using cg.snapshot_step [of st "(env, fs)" lock res st'] assms
  by (simp add: settled_mem_state_ok rps_memory_snapshot_def)

lemma append_bytes_eq:
  "append_bytes n buf d = (if length buf + length d \<le> n then Some (buf @ d) else None)"
  by (auto simp: append_bytes_def)

lemma meminfo_line_length:
  "length (meminfo_line key v newline) \<le> length key + 24"
  using u64_decimal_short [of v] by (auto simp: meminfo_line_def pad_left_def)

lemma append_rewritten_line_eq:
  assumes "length key < 100"
  shows "append_rewritten_line n buf key v newline =
           append_bytes n buf (meminfo_line key v newline)"
  using meminfo_line_length [of key v newline] assms
  by (simp add: append_rewritten_line_def fits_def)

lemma meminfo_loop_Cons:
  "meminfo_loop n t a buf (raw # lines) =
     (case append_bytes n buf (rewrite_line t a raw) of
        None \<Rightarrow> None | Some buf \<Rightarrow> meminfo_loop n t a buf lines)"
  by (simp add: rewrite_line_def append_rewritten_line_eq Let_def)

lemma meminfo_loop_eq:
  "length buf \<le> n \<Longrightarrow> meminfo_loop n t a buf lines =
     (let out = buf @ concat (map (rewrite_line t a) lines) in
      if length out \<le> n then Some out else None)"
proof (induction lines arbitrary: buf)
  case Nil
  then show ?case by simp
next
  case (Cons raw lines)
  show ?case
  proof (cases "length buf + length (rewrite_line t a raw) \<le> n")
    case True
    with Cons.IH [of "buf @ rewrite_line t a raw"] show ?thesis
      by (simp add: meminfo_loop_Cons append_bytes_eq Let_def del: meminfo_loop.simps)
  next
    case False
    then show ?thesis
      by (simp add: meminfo_loop_Cons append_bytes_eq Let_def del: meminfo_loop.simps)
  qed
qed

lemma meminfo_build_eq:
  assumes "rps_memory_snapshot env fs lock st = (Some s, st')"
    and "open_meminfo env fs = Some fp"
  shows "rps_proc_meminfo_build env fs lock n st =
    (let out = concat (map (rewrite_line (snap_total s div 1024) (snap_available s div 1024))
                  (fgets_all 1024 fp)) in
     (if length out \<le> n \<and> \<not> st_err fp then Some out else None, st'))"
  using assms by (simp add: rps_proc_meminfo_build_def meminfo_loop_eq Let_def)

lemma rewrite_line_other:
  assumes "NUL \<notin> set l" "\<not> starts_with l ''MemTotal:''" "\<not> starts_with l ''MemAvailable:''"
    "\<not> starts_with l ''MemFree:''"
  shows "rewrite_line t a l = l"
  using assms by (simp add: rewrite_line_def)

lemma meminfo_value:
  "parse_u64_token (trim_token (drop (length key) (meminfo_line key v newline))) = Some v"
proof -
  let ?d = "show_nat (unat v)"
  note no = all_digits_no [OF show_nat_digits, of "unat v"]
  have line: "drop (length key) (meminfo_line key v newline) =
      replicate (16 - length ?d) SPACE @ ?d @ SPACE # ''kB'' @ (if newline then [LF] else [])"
    by (simp add: meminfo_line_def pad_left_def)
  have blanks: "dropWhile is_space (replicate k SPACE @ x) = dropWhile is_space x" for k x
    by (induction k) (auto simp: is_space_def)
  have digits: "dropWhile is_space (?d @ x) = ?d @ x" for x
    using no(5) show_nat_nonempty [of "unat v"] by (cases ?d) auto
  have "takeWhile (\<lambda>c. \<not> is_space c) (?d @ SPACE # x) = ?d" for x
    using no(5) by (simp add: takeWhile_append2 is_space_def)
  then have "trim_token (drop (length key) (meminfo_line key v newline)) = ?d"
    unfolding line trim_token_def blanks digits by simp
  then show ?thesis by simp
qed

text \<open>A file of complete lines is rewritten line by line.\<close>

lemma meminfo_build_lines:
  assumes snap: "rps_memory_snapshot env fs lock st = (Some s, st')"
    and real: "open_meminfo env fs =
      Some \<lparr>st_data = concat (map (\<lambda>l. l @ [LF]) ls), st_err = False\<rparr>"
    and lines: "\<forall>l \<in> set ls. LF \<notin> set l \<and> NUL \<notin> set l \<and> length l < 1023"
  shows "rps_proc_meminfo_build env fs lock n st =
    (let out = concat (map (\<lambda>l. container_line s l @ [LF]) ls) in
     if length out \<le> n then Some out else None, st')"
proof -
  have prefix_line: "starts_with (l @ [LF]) k \<longleftrightarrow> starts_with l k" if "LF \<notin> set k" for l k
    using that by (auto simp: starts_with_iff append_eq_append_conv2 append_eq_Cons_conv Cons_eq_append_conv)
  have "rewrite_line (snap_total s div 1024) (snap_available s div 1024) (l @ [LF]) =
      container_line s l @ [LF]" if "l \<in> set ls" for l
    using that lines
    by (simp add: rewrite_line_def container_line_def kb_text_def meminfo_line_def prefix_line)
  then have "map (rewrite_line (snap_total s div 1024) (snap_available s div 1024))
      (map (\<lambda>l. l @ [LF]) ls) = map (\<lambda>l. container_line s l @ [LF]) ls"
    by simp
  moreover have "fgets_all 1024 \<lparr>st_data = concat (map (\<lambda>l. l @ [LF]) ls), st_err = False\<rparr> =
      map (\<lambda>l. l @ [LF]) ls"
    using lines by (intro fgets_all_lines) auto
  ultimately show ?thesis
    using meminfo_build_eq [OF snap real, of n] by (simp only: stream.simps simp_thms Let_def)
qed

section \<open>Properties\<close>

text \<open>
  C18. Every snapshot is consistent: its total is the finite limit that was detected (not
  zero, below the unlimited value), what is available is the limit less the current usage,
  and 0 once the usage reaches the limit, never a wrapped-around difference. A detected
  limit stays as it is, and the state keeps this for the next call.
\<close>

theorem snapshot_consistent:
  assumes "mem_state_ok st" and "rps_memory_snapshot env fs lock st = (Some s, st')"
  shows "mem_state_ok st' \<and> snap_total s = cm_limit_bytes (ms_cgmem st') \<and>
    0 < snap_total s \<and> snap_total s < RPS_CGROUP_UNLIMITED_SENTINEL \<and>
    snap_available s \<le> snap_total s \<and>
    unat (snap_available s) =
      unat (cm_limit_bytes (ms_cgmem st')) - unat (cm_current_bytes (ms_cgmem st')) \<and>
    (ms_detected st \<longrightarrow> snap_total s = cm_limit_bytes (ms_cgmem st))"
  using memory_snapshot_step [OF assms] by auto

theorem snapshot_consistent_witness:
  "\<exists>s st'. rps_memory_snapshot (\<lambda>_. None) hybrid_fs True mem_state_init = (Some s, st') \<and>
     snap_total s = 2147483648 \<and> snap_available s \<le> snap_total s"
proof -
  have ev: "rps_memory_snapshot (\<lambda>_. None) hybrid_fs True mem_state_init =
      (Some \<lparr>snap_total = 2147483648, snap_available = 1610612736\<rparr>,
       \<lparr>ms_cgmem = \<lparr>cm_version = 1, cm_limit_bytes = 2147483648, cm_current_bytes = 536870912,
         cm_limit_path = ''/sys/fs/cgroup/memory/docker/pod/memory.limit_in_bytes'',
         cm_current_path = ''/sys/fs/cgroup/memory/docker/pod/memory.usage_in_bytes''\<rparr>,
        ms_detected = True\<rparr>)"
    by code_simp
  show ?thesis using snapshot_consistent [OF mem_state_init_ok ev] ev by auto
qed

text \<open>
  C17. The reported total never changes within a process: over any sequence of calls, from
  the initial state, while files and environment change arbitrarily between them, all the
  snapshots that succeed report the same total.
\<close>

theorem snapshot_total_stable:
  assumes "Some s \<in> set (memory_snapshots es mem_state_init)"
    and "Some s' \<in> set (memory_snapshots es mem_state_init)"
  shows "snap_total s = snap_total s'"
  using assms cg.snapshots_same_total [of mem_state_init s es s']
  by (simp add: memory_snapshots_eq settled_mem_state_ok)

theorem snapshot_total_stable_witness:
  "\<exists>s s'. memory_snapshots [(\<lambda>_. None, hybrid_fs), (\<lambda>_. None, \<lambda>_. None), (\<lambda>_. None, hybrid_fs)]
     mem_state_init = [Some s, None, Some s'] \<and> snap_total s = snap_total s'"
proof -
  let ?es = "[(\<lambda>_. None, hybrid_fs), (\<lambda>_. None, \<lambda>_. None), (\<lambda>_. None, hybrid_fs)] :: (env \<times> fs) list"
  let ?s = "\<lparr>snap_total = 2147483648, snap_available = 1610612736\<rparr> :: rps_memory_snapshot_t"
  have ev: "memory_snapshots ?es mem_state_init = [Some ?s, None, Some ?s]" by code_simp
  have "Some ?s \<in> set (memory_snapshots ?es mem_state_init)" unfolding ev by simp
  from snapshot_total_stable [OF this this] ev show ?thesis by blast
qed

text \<open>
  C20. The rewritten \<open>/proc/meminfo\<close> is the real file with three lines replaced: for a real
  file of lines (shorter than the line buffer, without NUL), the result is, in the same
  order, \<open>MemTotal\<close> with the snapshot's total in kB, \<open>MemAvailable\<close> and \<open>MemFree\<close> with what
  is available, and every other line byte for byte. It is refused exactly when it does not
  fit the buffer, and the number on a replaced line reads back as the snapshot's.
\<close>

theorem meminfo_rewrites_three_lines:
  assumes snap: "rps_memory_snapshot env fs lock st = (Some s, st')"
    and real: "open_meminfo env fs =
      Some \<lparr>st_data = concat (map (\<lambda>l. l @ [LF]) ls), st_err = False\<rparr>"
    and lines: "\<forall>l \<in> set ls. LF \<notin> set l \<and> NUL \<notin> set l \<and> length l < 1023"
  shows "rps_proc_meminfo_build env fs lock n st =
           (let out = concat (map (\<lambda>l. container_line s l @ [LF]) ls) in
            if length out \<le> n then Some out else None, st') \<and>
         parse_u64_token (trim_token (drop (length key) (kb_text key v))) = Some (v div 1024)"
proof -
  have "parse_u64_token (trim_token (drop (length key) (kb_text key v))) = Some (v div 1024)"
    using meminfo_value [of key "v div 1024" False] by (simp add: kb_text_def meminfo_line_def)
  then show ?thesis using meminfo_build_lines [OF assms, of n] by simp
qed

definition meminfo_fixture :: "string list" where
  "meminfo_fixture = [''MemTotal:       65536000 kB'', ''MemFree:        60000000 kB'', ''Buffers: 7 kB'']"

lemma fixture_lines: "\<forall>l \<in> set meminfo_fixture. LF \<notin> set l \<and> NUL \<notin> set l \<and> length l < 1023"
  by (simp add: meminfo_fixture_def)

lemma fixture_text:
  "concat (map (\<lambda>l. container_line \<lparr>snap_total = 2147483648, snap_available = 1610612736\<rparr> l @ [LF])
     meminfo_fixture) =
   ''MemTotal:         2097152 kB'' @ [LF] @ ''MemFree:         1572864 kB'' @ [LF] @
   ''Buffers: 7 kB'' @ [LF]"
proof -
  have "replicate 9 SPACE = [SPACE, SPACE, SPACE, SPACE, SPACE, SPACE, SPACE, SPACE, SPACE]" by code_simp
  moreover have "show_nat 2097152 = ''2097152''" "show_nat 1572864 = ''1572864''"
    by (simp_all add: show_nat.simps char_of_def bit_0)
  ultimately show ?thesis
    by (simp add: meminfo_fixture_def container_line_def kb_text_def pad_left_def starts_with_def)
qed

theorem meminfo_rewrites_three_lines_witness:
  "fst (rps_proc_meminfo_build (\<lambda>_. None)
     (hybrid_fs (''/proc/meminfo'' := Some \<lparr>st_data = concat (map (\<lambda>l. l @ [LF]) meminfo_fixture),
       st_err = False\<rparr>)) True 65536 mem_state_init) =
   Some (''MemTotal:         2097152 kB'' @ [LF] @ ''MemFree:         1572864 kB'' @ [LF] @
     ''Buffers: 7 kB'' @ [LF])"
proof -
  let ?fs = "hybrid_fs (''/proc/meminfo'' := Some \<lparr>st_data = concat (map (\<lambda>l. l @ [LF]) meminfo_fixture),
     st_err = False\<rparr>)"
  let ?s = "\<lparr>snap_total = 2147483648, snap_available = 1610612736\<rparr> :: rps_memory_snapshot_t"
  let ?st = "\<lparr>ms_cgmem = \<lparr>cm_version = 1, cm_limit_bytes = 2147483648, cm_current_bytes = 536870912,
         cm_limit_path = ''/sys/fs/cgroup/memory/docker/pod/memory.limit_in_bytes'',
         cm_current_path = ''/sys/fs/cgroup/memory/docker/pod/memory.usage_in_bytes''\<rparr>,
        ms_detected = True\<rparr> :: rps_cgroup_memory mem_state"
  have snap: "rps_memory_snapshot (\<lambda>_. None) ?fs True mem_state_init = (Some ?s, ?st)"
    by code_simp
  have real: "open_meminfo (\<lambda>_. None) ?fs = Some \<lparr>st_data =
      concat (map (\<lambda>l. l @ [LF]) meminfo_fixture), st_err = False\<rparr>" by code_simp
  show ?thesis
    using meminfo_rewrites_three_lines [OF snap real fixture_lines, of 65536 "[]" 0]
    unfolding fixture_text by simp
qed

end
