(* ===== verification/Gpu_Proc_Filter.thy ===== *)
theory Gpu_Proc_Filter
  imports Bounded_Decimal Fd_Table
begin

text \<open>
  The filter on the driver's directory \<open>/proc/driver/nvidia/gpus\<close> (\<open>gpu/proc_filter.c\<close>):
  lexical path normalisation, the parser of a GPU's \<open>information\<close> file, the set of allowed
  GPUs (those whose device node is mounted, or the one asked for by UUID), the decision on a
  path and the compaction of a \<open>getdents64\<close> buffer. A C \<open>int\<close> is an \<open>int\<close>, with the code's
  guard against \<open>INT_MAX\<close> written out; a \<open>char\<close> array holds its C string. The files the
  set is built from are what the raw system calls return, a parameter of the model.
\<close>

abbreviation INT_MAX :: int where "INT_MAX \<equiv> 2147483647"
abbreviation RPS_GPU_MAX_GPUS :: nat where "RPS_GPU_MAX_GPUS \<equiv> 32"
abbreviation RPS_GPU_PROC_PATH_MAX :: nat where "RPS_GPU_PROC_PATH_MAX \<equiv> 256"
abbreviation RPS_GPU_PROC_BUS_ID_MAX :: nat where "RPS_GPU_PROC_BUS_ID_MAX \<equiv> 32"
abbreviation RPS_GPU_PROC_UUID_MAX :: nat where "RPS_GPU_PROC_UUID_MAX \<equiv> 96"
abbreviation PATH_MAX :: nat where "PATH_MAX \<equiv> 4096"

section \<open>Data\<close>

record rps_gpu_info =
  gi_present :: bool
  gi_device_minor :: int
  gi_bus_id :: string
  gi_uuid :: string

text \<open>The first \<open>count\<close> elements of the array \<open>gpus\<close>.\<close>

record rps_gpu_allowed_gpus =
  ga_valid :: bool
  ga_gpus :: "rps_gpu_info list"

datatype rps_gpu_proc_decision = RPS_GPU_PROC_IGNORE | RPS_GPU_PROC_ALLOW | RPS_GPU_PROC_DENY

section \<open>Numbers and slices\<close>

text \<open>The loop of \<open>rps_gpu_name_is_nvidia_minor\<close>, up to the NUL.\<close>

fun name_minor_loop :: "int \<Rightarrow> string \<Rightarrow> int option" where
  "name_minor_loop v [] = Some v"
| "name_minor_loop v (c # s) =
     (if \<not> is_digit c then None
      else let digit = int (digit_val c) in
           if v > (INT_MAX - digit) div 10 then None
           else name_minor_loop (v * 10 + digit) s)"

definition rps_gpu_name_is_nvidia_minor :: "string \<Rightarrow> int option" where
  "rps_gpu_name_is_nvidia_minor name =
     (let prefix = ''nvidia'' in
      if \<not> starts_with name prefix then None
      else let cursor = drop (length prefix) name in
           if cursor = [] \<or> \<not> is_digit (hd cursor) then None
           else name_minor_loop 0 cursor)"

definition rps_gpu_zero_info :: rps_gpu_info where
  "rps_gpu_zero_info =
     \<lparr>gi_present = False, gi_device_minor = -1, gi_bus_id = [], gi_uuid = []\<rparr>"

definition is_blank :: "char \<Rightarrow> bool" where
  "is_blank c \<longleftrightarrow> c = SPACE \<or> c = TAB \<or> c = CR \<or> c = LF"

definition rps_gpu_trim_slice :: "string \<Rightarrow> string" where
  "rps_gpu_trim_slice s = rev (dropWhile is_blank (rev (dropWhile is_blank s)))"

text \<open>The destination is written only when the slice fits with its NUL.\<close>

definition rps_gpu_copy_slice_exact :: "nat \<Rightarrow> string \<Rightarrow> string option" where
  "rps_gpu_copy_slice_exact dst_size src =
     (if dst_size = 0 \<or> length src \<ge> dst_size then None else Some src)"

fun nonnegative_loop :: "int \<Rightarrow> string \<Rightarrow> int option" where
  "nonnegative_loop parsed [] = Some parsed"
| "nonnegative_loop parsed (c # s) =
     (if \<not> is_digit c then None
      else let digit = int (digit_val c) in
           if parsed > (INT_MAX - digit) div 10 then None
           else nonnegative_loop (parsed * 10 + digit) s)"

definition rps_gpu_parse_nonnegative_int :: "string \<Rightarrow> int option" where
  "rps_gpu_parse_nonnegative_int src = (if src = [] then None else nonnegative_loop 0 src)"

definition rps_gpu_value_after_key :: "string \<Rightarrow> string \<Rightarrow> string option" where
  "rps_gpu_value_after_key line key =
     (if length line < length key \<or> \<not> starts_with line key then None
      else Some (rps_gpu_trim_slice (drop (length key) line)))"

section \<open>Paths\<close>

text \<open>
  The scan over the path: the first \<open>count\<close> elements of \<open>segments\<close>, and the text from
  \<open>path + offset\<close> on. At most 64 segments are live at a time.
\<close>

function normalize_loop :: "string list \<Rightarrow> string \<Rightarrow> string list option" where
  "normalize_loop segments p =
     (let p = dropWhile (\<lambda>c. c = SLASH) p in
      if p = [] then Some segments
      else let segment = takeWhile (\<lambda>c. c \<noteq> SLASH) p;
               rest = dropWhile (\<lambda>c. c \<noteq> SLASH) p in
           if segment = ''.'' then normalize_loop segments rest
           else if segment = ''..'' then
             normalize_loop (if segments \<noteq> [] then butlast segments else segments) rest
           else if length segments \<ge> 64 then None
           else normalize_loop (segments @ [segment]) rest)"
  by pat_completeness auto

lemma normalize_loop_shrinks:
  assumes "dropWhile (\<lambda>c. c = SLASH) p \<noteq> []"
  shows "length (dropWhile (\<lambda>c. c \<noteq> SLASH) (dropWhile (\<lambda>c. c = SLASH) p)) < length p"
proof -
  obtain c q where q: "dropWhile (\<lambda>c. c = SLASH) p = c # q" using assms by (meson neq_Nil_conv)
  then have c: "c \<noteq> SLASH" by (metis (full_types) dropWhile_eq_Cons_conv)
  have "length (dropWhile (\<lambda>c. c \<noteq> SLASH) (c # q)) \<le> length q"
    using c by (simp add: length_dropWhile_le)
  also have "\<dots> < length (c # q)" by simp
  also have "\<dots> \<le> length p" using length_dropWhile_le [of "\<lambda>c. c = SLASH" p] q by simp
  finally show ?thesis using q by simp
qed

termination normalize_loop
  by (relation "measure (\<lambda>(segments, p). length p)") (auto simp: normalize_loop_shrinks)

declare normalize_loop.simps [simp del]

text \<open>The loop that writes the segments to \<open>out\<close>.\<close>

fun normalize_out :: "nat \<Rightarrow> string \<Rightarrow> string list \<Rightarrow> string option" where
  "normalize_out out_size out [] = Some out"
| "normalize_out out_size out (s # segments) =
     (if length out + 1 + length s \<ge> out_size then None
      else normalize_out out_size (out @ SLASH # s) segments)"

definition rps_gpu_proc_normalize_path :: "string option \<Rightarrow> nat \<Rightarrow> string option" where
  "rps_gpu_proc_normalize_path path out_size =
     (case path of
        None \<Rightarrow> None
      | Some p \<Rightarrow>
          if out_size < 2 \<or> p = [] \<or> hd p \<noteq> SLASH then None
          else (case normalize_loop [] p of
                  None \<Rightarrow> None
                | Some segments \<Rightarrow>
                    if segments = [] then Some ''/'' else normalize_out out_size [] segments))"

definition gpus_base :: string where "gpus_base = ''/proc/driver/nvidia/gpus''"

definition info_name :: string where "info_name = ''information''"

text \<open>The results: the return value, the buffer \<open>bus_id\<close>, \<open>*is_bus_dir\<close>, \<open>*is_information\<close>.\<close>

definition rps_gpu_extract_proc_bus_kind ::
    "string option \<Rightarrow> string \<Rightarrow> nat \<Rightarrow> bool \<times> string \<times> bool \<times> bool" where
  "rps_gpu_extract_proc_bus_kind path bus_id bus_id_size =
     (case path of
        None \<Rightarrow> (False, bus_id, False, False)
      | Some _ \<Rightarrow>
          (case rps_gpu_proc_normalize_path path RPS_GPU_PROC_PATH_MAX of
             None \<Rightarrow> (False, bus_id, False, False)
           | Some normalized \<Rightarrow>
               if \<not> starts_with normalized gpus_base
                  \<or> take 1 (drop (length gpus_base) normalized) \<noteq> [SLASH]
               then (False, bus_id, False, False)
               else
                 let rest = drop (length gpus_base + 1) normalized;
                     slash = strchr SLASH rest;
                     bus = (case slash of None \<Rightarrow> rest | Some (before, _) \<Rightarrow> before) in
                 if bus = [] \<or> length bus \<ge> bus_id_size then (False, bus_id, False, False)
                 else (case rps_gpu_copy_slice_exact bus_id_size bus of
                         None \<Rightarrow> (False, bus_id, False, False)
                       | Some bus_id \<Rightarrow>
                           (case slash of
                              None \<Rightarrow> (True, bus_id, True, False)
                            | Some (_, after) \<Rightarrow>
                                if after = info_name then (True, bus_id, False, True)
                                else (False, bus_id, False, False)))))"

definition rps_gpu_extract_proc_bus :: "string option \<Rightarrow> string \<Rightarrow> nat \<Rightarrow> bool \<times> string" where
  "rps_gpu_extract_proc_bus path bus_id bus_id_size =
     (let (ok, bus_id, _, is_information) = rps_gpu_extract_proc_bus_kind path bus_id bus_id_size in
      (ok \<and> is_information, bus_id))"

section \<open>The information file\<close>

text \<open>One line: the new \<open>ok\<close> and the new \<open>*info\<close>.\<close>

definition gpu_information_line :: "string \<Rightarrow> bool \<times> rps_gpu_info \<Rightarrow> bool \<times> rps_gpu_info" where
  "gpu_information_line line st =
     (let (ok, info) = st;
          line = (if line \<noteq> [] \<and> last line = CR then butlast line else line) in
      case rps_gpu_value_after_key line ''GPU UUID:'' of
        Some v \<Rightarrow>
          (case rps_gpu_copy_slice_exact RPS_GPU_PROC_UUID_MAX v of
             None \<Rightarrow> (False, info)
           | Some v \<Rightarrow> (ok, info\<lparr>gi_uuid := v\<rparr>))
      | None \<Rightarrow>
      (case rps_gpu_value_after_key line ''Bus Location:'' of
        Some v \<Rightarrow>
          if v = [] then (False, info)
          else (case rps_gpu_copy_slice_exact RPS_GPU_PROC_BUS_ID_MAX v of
                  None \<Rightarrow> (False, info)
                | Some v \<Rightarrow> (ok, info\<lparr>gi_bus_id := v\<rparr>))
      | None \<Rightarrow>
      (case rps_gpu_value_after_key line ''Device Minor:'' of
        Some v \<Rightarrow>
          (case rps_gpu_parse_nonnegative_int v of
             None \<Rightarrow> (False, info)
           | Some m \<Rightarrow> (ok, info\<lparr>gi_device_minor := m\<rparr>))
      | None \<Rightarrow> (ok, info))))"

function gpu_information_loop :: "bool \<times> rps_gpu_info \<Rightarrow> string \<Rightarrow> bool \<times> rps_gpu_info" where
  "gpu_information_loop st text =
     (if text = [] then st
      else let line = takeWhile (\<lambda>c. c \<noteq> LF) text;
               rest = dropWhile (\<lambda>c. c \<noteq> LF) text in
           gpu_information_loop (gpu_information_line line st) (drop 1 rest))"
  by pat_completeness auto
termination
  by (relation "measure (\<lambda>(st, text). length text)")
    (auto simp: length_dropWhile_le less_Suc_eq_le diff_le_self
       intro: le_less_trans [OF diff_le_mono [OF length_dropWhile_le]])

declare gpu_information_loop.simps [simp del]

definition rps_gpu_parse_gpu_information ::
    "string option \<Rightarrow> string option \<Rightarrow> bool \<times> rps_gpu_info" where
  "rps_gpu_parse_gpu_information path text =
     (case text of
        None \<Rightarrow> (False, rps_gpu_zero_info)
      | Some text \<Rightarrow>
          let (ok, info) = gpu_information_loop (True, rps_gpu_zero_info) text;
              (ok, info) =
                (if ok \<and> gi_bus_id info = []
                 then let (found, bus) = rps_gpu_extract_proc_bus path (gi_bus_id info) RPS_GPU_PROC_BUS_ID_MAX in
                      (found, info\<lparr>gi_bus_id := bus\<rparr>)
                 else (ok, info));
              info = info\<lparr>gi_present := ok \<and> gi_device_minor info \<ge> 0 \<and> gi_bus_id info \<noteq> []\<rparr> in
          (ok \<and> gi_present info, info))"

section \<open>The allowed GPUs\<close>

fun rps_gpu_minor_is_mounted :: "int \<Rightarrow> int list \<Rightarrow> bool" where
  "rps_gpu_minor_is_mounted minor [] = False"
| "rps_gpu_minor_is_mounted minor (m # ms) = (m = minor \<or> rps_gpu_minor_is_mounted minor ms)"

fun allowed_loop ::
    "int list \<Rightarrow> string option \<Rightarrow> rps_gpu_info list \<Rightarrow> rps_gpu_info list \<Rightarrow> rps_gpu_info list" where
  "allowed_loop mounted explicit_uuid gpus [] = gpus"
| "allowed_loop mounted explicit_uuid gpus (info # infos) =
     (if \<not> length gpus < RPS_GPU_MAX_GPUS then gpus
      else if \<not> gi_present info then allowed_loop mounted explicit_uuid gpus infos
      else if \<not> rps_gpu_minor_is_mounted (gi_device_minor info) mounted
      then allowed_loop mounted explicit_uuid gpus infos
      else if (case explicit_uuid of None \<Rightarrow> False | Some u \<Rightarrow> u \<noteq> [] \<and> gi_uuid info \<noteq> u)
      then allowed_loop mounted explicit_uuid gpus infos
      else allowed_loop mounted explicit_uuid (gpus @ [info]) infos)"

definition rps_gpu_build_allowed_gpus ::
    "rps_gpu_info list \<Rightarrow> int list \<Rightarrow> string option \<Rightarrow> bool \<times> rps_gpu_allowed_gpus" where
  "rps_gpu_build_allowed_gpus infos mounted explicit_uuid =
     (if infos = [] \<or> mounted = [] then (False, \<lparr>ga_valid = False, ga_gpus = []\<rparr>)
      else let gpus = allowed_loop mounted explicit_uuid [] infos in
           (gpus \<noteq> [], \<lparr>ga_valid = (gpus \<noteq> []), ga_gpus = gpus\<rparr>))"

definition rps_gpu_allowed_contains_bus :: "rps_gpu_allowed_gpus option \<Rightarrow> string option \<Rightarrow> bool" where
  "rps_gpu_allowed_contains_bus allowed bus_id =
     (case (allowed, bus_id) of
        (Some a, Some b) \<Rightarrow> ga_valid a \<and> b \<noteq> [] \<and> list_ex (\<lambda>g. gi_bus_id g = b) (ga_gpus a)
      | _ \<Rightarrow> False)"

definition rps_gpu_proc_path_allowed ::
    "rps_gpu_allowed_gpus option \<Rightarrow> string option \<Rightarrow> rps_gpu_proc_decision" where
  "rps_gpu_proc_path_allowed allowed path =
     (case path of
        None \<Rightarrow> RPS_GPU_PROC_IGNORE
      | Some _ \<Rightarrow>
          (case rps_gpu_proc_normalize_path path RPS_GPU_PROC_PATH_MAX of
             None \<Rightarrow> RPS_GPU_PROC_IGNORE
           | Some normalized \<Rightarrow>
               if normalized = gpus_base then RPS_GPU_PROC_ALLOW
               else
                 let (ok, bus_id, is_bus_dir, is_information) =
                   rps_gpu_extract_proc_bus_kind (Some normalized) [] RPS_GPU_PROC_BUS_ID_MAX in
                 if \<not> ok \<or> (\<not> is_bus_dir \<and> \<not> is_information) then RPS_GPU_PROC_IGNORE
                 else (case allowed of
                         None \<Rightarrow> RPS_GPU_PROC_ALLOW
                       | Some a \<Rightarrow>
                           if \<not> ga_valid a then RPS_GPU_PROC_ALLOW
                           else if rps_gpu_allowed_contains_bus allowed (Some bus_id)
                           then RPS_GPU_PROC_ALLOW else RPS_GPU_PROC_DENY)))"

section \<open>Directory records\<close>

text \<open>
  A buffer of \<open>getdents64\<close> is raw bytes: in a record the 16-bit length stands at bytes 16
  and 17, little endian, and the name at byte 19. A read behind the buffer's end, which
  only a malformed record asks for, reads 0.
\<close>

abbreviation dirent_header :: nat where "dirent_header \<equiv> 19"

definition byte_at :: "string \<Rightarrow> nat \<Rightarrow> nat" where
  "byte_at buf i = (if i < length buf then of_char (buf ! i) else 0)"

definition d_reclen :: "string \<Rightarrow> nat \<Rightarrow> nat" where
  "d_reclen buf offset = byte_at buf (offset + 16) + 256 * byte_at buf (offset + 17)"

definition d_name :: "string \<Rightarrow> nat \<Rightarrow> string" where
  "d_name buf offset = cstr (drop (offset + dirent_header) buf)"

text \<open>
  The walk over the records of one buffer, the same in \<open>rps_gpu_collect_mounted_minors\<close> and
  \<open>rps_gpu_collect_gpu_infos\<close>: what is done with a name is the parameter. \<open>True\<close> in the
  result is the return on a malformed record.
\<close>

function walk_dirents ::
    "(string \<Rightarrow> 'a \<Rightarrow> 'a) \<Rightarrow> string \<Rightarrow> nat \<Rightarrow> nat \<Rightarrow> 'a \<Rightarrow> bool \<times> 'a" where
  "walk_dirents step buf nread offset acc =
     (if \<not> offset < nread then (False, acc)
      else let reclen = d_reclen buf offset in
           if reclen = 0 \<or> offset + reclen > nread then (True, acc)
           else walk_dirents step buf nread (offset + reclen) (step (d_name buf offset) acc))"
  by pat_completeness auto
termination
  by (relation "measure (\<lambda>(step, buf, nread, offset, acc). nread - offset)") auto

declare walk_dirents.simps [simp del]

text \<open>
  A directory: the successive results of \<open>getdents64\<close>, each the return value and the
  buffer after the call; \<open>None\<close> where the directory does not open.
\<close>

type_synonym dir_reads = "(int \<times> string) list option"

fun walk_reads :: "(string \<Rightarrow> 'a \<Rightarrow> 'a) \<Rightarrow> (int \<times> string) list \<Rightarrow> 'a \<Rightarrow> 'a" where
  "walk_reads step [] acc = acc"
| "walk_reads step ((nread, buf) # reads) acc =
     (if nread \<le> 0 then acc
      else let (stop, acc) = walk_dirents step buf (nat nread) 0 acc in
           if stop then acc else walk_reads step reads acc)"

text \<open>A file: the results of successive \<open>read\<close> calls, \<open>None\<close> an error, then the end.\<close>

type_synonym file_reads = "string option list"

record gpu_sys =
  sys_dev :: dir_reads
  sys_gpus :: dir_reads
  sys_file :: "string \<Rightarrow> file_reads option"

definition minor_step :: "nat \<Rightarrow> string \<Rightarrow> int list \<Rightarrow> int list" where
  "minor_step capacity name minors =
     (if length minors < capacity
      then (case rps_gpu_name_is_nvidia_minor name of None \<Rightarrow> minors | Some m \<Rightarrow> minors @ [m])
      else minors)"

definition rps_gpu_collect_mounted_minors :: "gpu_sys \<Rightarrow> nat \<Rightarrow> int list" where
  "rps_gpu_collect_mounted_minors sys capacity =
     (if capacity = 0 then []
      else case sys_dev sys of
             None \<Rightarrow> []
           | Some reads \<Rightarrow> walk_reads (minor_step capacity) reads [])"

fun read_file_loop :: "nat \<Rightarrow> string \<Rightarrow> file_reads \<Rightarrow> string option" where
  "read_file_loop buffer_size buf [] = Some buf"
| "read_file_loop buffer_size buf (r # rs) =
     (if \<not> length buf + 1 < buffer_size then Some buf
      else case r of
             None \<Rightarrow> None
           | Some bs \<Rightarrow> if bs = [] then Some buf else read_file_loop buffer_size (buf @ bs) rs)"

definition rps_gpu_read_file_to_buffer :: "gpu_sys \<Rightarrow> string \<Rightarrow> nat \<Rightarrow> string option" where
  "rps_gpu_read_file_to_buffer sys path buffer_size =
     (if buffer_size = 0 then None
      else case sys_file sys path of
             None \<Rightarrow> None
           | Some reads \<Rightarrow>
               (case read_file_loop buffer_size [] reads of
                  None \<Rightarrow> None
                | Some buf \<Rightarrow> if buf = [] then None else Some buf))"

definition info_step :: "gpu_sys \<Rightarrow> nat \<Rightarrow> string \<Rightarrow> rps_gpu_info list \<Rightarrow> rps_gpu_info list" where
  "info_step sys capacity name infos =
     (if name \<noteq> ''.'' \<and> name \<noteq> ''..'' \<and> length infos < capacity
      then (case fits PATH_MAX (gpus_base @ ''/'' @ name @ ''/information'') of
              None \<Rightarrow> infos
            | Some path \<Rightarrow>
                (case rps_gpu_read_file_to_buffer sys path 8192 of
                   None \<Rightarrow> infos
                 | Some text \<Rightarrow>
                     let (ok, info) = rps_gpu_parse_gpu_information (Some path) (Some (cstr text)) in
                     if ok then infos @ [info] else infos))
      else infos)"

definition rps_gpu_collect_gpu_infos :: "gpu_sys \<Rightarrow> nat \<Rightarrow> rps_gpu_info list" where
  "rps_gpu_collect_gpu_infos sys capacity =
     (if capacity = 0 then []
      else case sys_gpus sys of
             None \<Rightarrow> []
           | Some reads \<Rightarrow> walk_reads (info_step sys capacity) reads [])"

definition rps_gpu_proc_filter_runtime_init ::
    "gpu_sys \<Rightarrow> string option \<Rightarrow> bool \<times> rps_gpu_allowed_gpus" where
  "rps_gpu_proc_filter_runtime_init sys explicit_uuid =
     (let mounted = rps_gpu_collect_mounted_minors sys RPS_GPU_MAX_GPUS;
          infos = rps_gpu_collect_gpu_infos sys RPS_GPU_MAX_GPUS in
      rps_gpu_build_allowed_gpus infos mounted explicit_uuid)"

definition rps_gpu_dirent_name_is_valid :: "string \<Rightarrow> nat \<Rightarrow> nat \<Rightarrow> bool" where
  "rps_gpu_dirent_name_is_valid buf offset remaining =
     (let reclen = d_reclen buf offset in
      if reclen < dirent_header \<or> reclen > remaining then False
      else NUL \<in> set (take (reclen - dirent_header) (drop (offset + dirent_header) buf)))"

text \<open>\<open>memmove (buf + dst, buf + src, n)\<close>\<close>

definition memmove :: "string \<Rightarrow> nat \<Rightarrow> nat \<Rightarrow> nat \<Rightarrow> string" where
  "memmove buf dst src n = take dst buf @ take n (drop src buf) @ drop (dst + n) buf"

definition dirent_keep :: "rps_gpu_allowed_gpus \<Rightarrow> string \<Rightarrow> bool" where
  "dirent_keep allowed name \<longleftrightarrow>
     name = ''.'' \<or> name = ''..'' \<or> rps_gpu_allowed_contains_bus (Some allowed) (Some name)"

text \<open>The compaction: the buffer and the length to return.\<close>

function dirent64_loop ::
    "rps_gpu_allowed_gpus \<Rightarrow> nat \<Rightarrow> string \<Rightarrow> nat \<Rightarrow> nat \<Rightarrow> string \<times> nat" where
  "dirent64_loop allowed len buf read_offset write_offset =
     (if \<not> read_offset < len then (buf, write_offset)
      else if len - read_offset < dirent_header then (buf, len)
      else if \<not> rps_gpu_dirent_name_is_valid buf read_offset (len - read_offset) then (buf, len)
      else let reclen = d_reclen buf read_offset in
           if dirent_keep allowed (d_name buf read_offset)
           then dirent64_loop allowed len
                  (if write_offset \<noteq> read_offset then memmove buf write_offset read_offset reclen
                   else buf)
                  (read_offset + reclen) (write_offset + reclen)
           else dirent64_loop allowed len buf (read_offset + reclen) write_offset)"
  by pat_completeness auto
termination
  by (relation "measure (\<lambda>(allowed, len, buf, read_offset, write_offset). len - read_offset)")
    (auto simp: rps_gpu_dirent_name_is_valid_def Let_def split: if_splits)

declare dirent64_loop.simps [simp del]

definition rps_gpu_filter_dirent64_buffer ::
    "string option \<Rightarrow> int \<Rightarrow> rps_gpu_allowed_gpus option \<Rightarrow> string option \<times> int" where
  "rps_gpu_filter_dirent64_buffer buffer len allowed =
     (case (buffer, allowed) of
        (Some buf, Some a) \<Rightarrow>
          if len \<le> 0 \<or> \<not> ga_valid a then (buffer, len)
          else let (buf, n) = dirent64_loop a (nat len) buf 0 0 in (Some buf, int n)
      | _ \<Rightarrow> (buffer, len))"

section \<open>Numbers: lemmas\<close>

lemma int_digit_guard:
  assumes "d \<le> 9"
  shows "(INT_MAX - int d) div 10 < int v \<longleftrightarrow> (2147483647 - d) div 10 < v"
proof -
  have "INT_MAX - int d = int (2147483647 - d)" using assms by linarith
  then have "(INT_MAX - int d) div 10 = int ((2147483647 - d) div 10)"
    by (simp only: of_nat_div of_nat_numeral)
  then show ?thesis by (simp only: of_nat_less_iff)
qed

interpretation name_minor: bounded_decimal 2147483647 "\<lambda>v s. map_option nat (name_minor_loop (int v) s)"
proof unfold_locales
  fix v :: nat and c s
  show "map_option nat (name_minor_loop (int v) (c # s)) =
      (if \<not> is_digit c then None else if (2147483647 - digit_val c) div 10 < v then None
       else map_option nat (name_minor_loop (int (v * 10 + digit_val c)) s))"
    using int_digit_guard [OF digit_val_le, of c v] by (simp add: Let_def)
qed simp_all

interpretation nonneg_int: bounded_decimal 2147483647 "\<lambda>v s. map_option nat (nonnegative_loop (int v) s)"
proof unfold_locales
  fix v :: nat and c s
  show "map_option nat (nonnegative_loop (int v) (c # s)) =
      (if \<not> is_digit c then None else if (2147483647 - digit_val c) div 10 < v then None
       else map_option nat (nonnegative_loop (int (v * 10 + digit_val c)) s))"
    using int_digit_guard [OF digit_val_le, of c v] by (simp add: Let_def)
qed simp_all

lemma name_minor_loop_nonneg: "name_minor_loop v s = Some m \<Longrightarrow> 0 \<le> v \<Longrightarrow> 0 \<le> m"
  by (induction v s rule: name_minor_loop.induct) (auto simp: Let_def split: if_splits)

lemma nonnegative_loop_nonneg: "nonnegative_loop v s = Some m \<Longrightarrow> 0 \<le> v \<Longrightarrow> 0 \<le> m"
  by (induction v s rule: nonnegative_loop.induct) (auto simp: Let_def split: if_splits)

lemma name_minor_loop_iff:
  "name_minor_loop 0 s = Some m \<longleftrightarrow>
     all_digits s \<and> m = int (dec_from 0 s) \<and> dec_from 0 s \<le> 2147483647"
  using name_minor.loop_eq [of 0 s] name_minor_loop_nonneg [of 0 s]
  by (auto split: if_splits)

lemma nonnegative_loop_iff:
  "nonnegative_loop 0 s = Some m \<longleftrightarrow>
     all_digits s \<and> m = int (dec_from 0 s) \<and> dec_from 0 s \<le> 2147483647"
  using nonneg_int.loop_eq [of 0 s] nonnegative_loop_nonneg [of 0 s]
  by (auto split: if_splits)

lemma name_is_nvidia_minor_iff:
  "rps_gpu_name_is_nvidia_minor name = Some m \<longleftrightarrow>
     (\<exists>s. name = ''nvidia'' @ s \<and> s \<noteq> [] \<and> all_digits s \<and> m = int (dec_from 0 s) \<and>
          dec_from 0 s \<le> 2147483647)"
proof -
  let ?R = "\<lambda>s. s \<noteq> [] \<and> all_digits s \<and> m = int (dec_from 0 s) \<and> dec_from 0 s \<le> 2147483647"
  have hd: "is_digit (hd s)" if "s \<noteq> []" "all_digits s" for s using that by (cases s) auto
  have "rps_gpu_name_is_nvidia_minor (''nvidia'' @ s) = Some m \<longleftrightarrow> ?R s" for s
  proof -
    have "rps_gpu_name_is_nvidia_minor (''nvidia'' @ s) =
        (if s = [] \<or> \<not> is_digit (hd s) then None else name_minor_loop 0 s)"
      unfolding rps_gpu_name_is_nvidia_minor_def Let_def by (simp only: starts_with_append append_eq_conv_conj) simp
    then show ?thesis using hd [of s] by (auto simp: name_minor_loop_iff)
  qed
  moreover have "rps_gpu_name_is_nvidia_minor name = None" if "\<nexists>s. name = ''nvidia'' @ s"
    using that unfolding rps_gpu_name_is_nvidia_minor_def starts_with_iff Let_def by simp
  ultimately show ?thesis by (metis option.distinct(1))
qed

lemma parse_nonnegative_int_show [simp]:
  "n \<le> 2147483647 \<Longrightarrow> rps_gpu_parse_nonnegative_int (show_nat n) = Some (int n)"
  by (simp add: rps_gpu_parse_nonnegative_int_def nonnegative_loop_iff)

lemma parse_nonnegative_int_ge: "rps_gpu_parse_nonnegative_int s = Some m \<Longrightarrow> 0 \<le> m"
  by (auto simp: rps_gpu_parse_nonnegative_int_def nonnegative_loop_iff split: if_splits)

section \<open>Normalisation: reference and lemmas\<close>

text \<open>The text between slashes, the segments of a path, and what they denote.\<close>

fun split_slash :: "string \<Rightarrow> string list" where
  "split_slash [] = [[]]"
| "split_slash (c # s) =
     (if c = SLASH then [] # split_slash s
      else (case split_slash s of [] \<Rightarrow> [[c]] | x # xs \<Rightarrow> (c # x) # xs))"

definition path_segments :: "string \<Rightarrow> string list" where
  "path_segments p = filter (\<lambda>s. s \<noteq> []) (split_slash p)"

fun resolve_step :: "string list \<Rightarrow> string \<Rightarrow> string list" where
  "resolve_step st s = (if s = ''.'' then st else if s = ''..'' then butlast st else st @ [s])"

definition resolve :: "string list \<Rightarrow> string list" where
  "resolve segments = foldl resolve_step [] segments"

definition join_path :: "string list \<Rightarrow> string" where
  "join_path segments = (if segments = [] then ''/'' else concat (map (\<lambda>s. SLASH # s) segments))"

definition proper_segment :: "string \<Rightarrow> bool" where
  "proper_segment s \<longleftrightarrow> s \<noteq> [] \<and> SLASH \<notin> set s \<and> s \<noteq> ''.'' \<and> s \<noteq> ''..''"

lemma split_slash_nonempty [simp]: "split_slash p \<noteq> []"
  by (cases p) (auto split: list.split)

lemma split_slash_append:
  "SLASH \<notin> set s \<Longrightarrow> split_slash (s @ rest) = (s @ hd (split_slash rest)) # tl (split_slash rest)"
  by (induction s) auto

lemma path_segments_simps [simp]:
  "path_segments [] = []"
  "path_segments (SLASH # p) = path_segments p"
  by (simp_all add: path_segments_def)

lemma path_segments_append:
  assumes "s \<noteq> []" "SLASH \<notin> set s" and "rest = [] \<or> hd rest = SLASH"
  shows "path_segments (s @ rest) = s # path_segments rest"
  using assms split_slash_append [of s rest]
  by (cases rest) (auto simp: path_segments_def)

lemma path_segments_dropWhile [simp]:
  "path_segments (dropWhile (\<lambda>c. c = SLASH) p) = path_segments p"
  by (induction p) auto

lemma path_segments_proper: "s \<in> set (path_segments p) \<Longrightarrow> s \<noteq> [] \<and> SLASH \<notin> set s"
proof -
  have "\<forall>s \<in> set (split_slash p). SLASH \<notin> set s"
  proof (induction p)
    case Nil
    then show ?case by simp
  next
    case (Cons c p)
    obtain x xs where x: "split_slash p = x # xs" by (cases "split_slash p") auto
    with Cons show ?case by auto
  qed
  then show "s \<in> set (path_segments p) \<Longrightarrow> s \<noteq> [] \<and> SLASH \<notin> set s"
    by (auto simp: path_segments_def)
qed

text \<open>The scan with its cap, over the segments.\<close>

fun resolve_capped :: "string list \<Rightarrow> string list \<Rightarrow> string list option" where
  "resolve_capped st [] = Some st"
| "resolve_capped st (s # ss) =
     (if s \<noteq> ''.'' \<and> s \<noteq> ''..'' \<and> length st \<ge> 64 then None
      else resolve_capped (resolve_step st s) ss)"

lemma normalize_loop_eq: "normalize_loop st p = resolve_capped st (path_segments p)"
proof (induction st p rule: normalize_loop.induct)
  case (1 st p)
  let ?p = "dropWhile (\<lambda>c. c = SLASH) p"
  show ?case
  proof (cases "?p = []")
    case True
    have "path_segments p = path_segments ?p" by (rule path_segments_dropWhile [symmetric])
    then have "path_segments p = []" unfolding True by simp
    with True show ?thesis by (simp add: normalize_loop.simps [of st p])
  next
    case False
    let ?s = "takeWhile (\<lambda>c. c \<noteq> SLASH) ?p" and ?r = "dropWhile (\<lambda>c. c \<noteq> SLASH) ?p"
    have "hd ?p \<noteq> SLASH" using hd_dropWhile [OF False] by simp
    with False have ne: "?s \<noteq> []" by (cases ?p) auto
    have s: "SLASH \<notin> set ?s" by (auto dest: set_takeWhileD)
    have r: "?r = [] \<or> hd ?r = SLASH" using hd_dropWhile [of "\<lambda>c. c \<noteq> SLASH" ?p] by blast
    have "path_segments p = path_segments (?s @ ?r)"
      unfolding takeWhile_dropWhile_id by (rule path_segments_dropWhile [symmetric])
    also have "\<dots> = ?s # path_segments ?r" by (rule path_segments_append [OF ne s r])
    finally have eq: "path_segments p = ?s # path_segments ?r" .
    have bl: "(if st \<noteq> [] then butlast st else st) = butlast st" by simp
    note IH = "1.IH" [OF refl False refl refl, unfolded bl]
    show ?thesis
      unfolding eq normalize_loop.simps [of st p] Let_def bl
      using False IH by (simp only: if_False resolve_capped.simps resolve_step.simps) simp
  qed
qed

lemma resolve_capped_SomeD: "resolve_capped st ss = Some r \<Longrightarrow> r = foldl resolve_step st ss"
  by (induction st ss rule: resolve_capped.induct) (auto split: if_splits)

lemma resolve_step_length: "length (resolve_step st s) \<le> Suc (length st)"
  by auto

lemma resolve_capped_total:
  "length st + length ss \<le> 64 \<Longrightarrow> resolve_capped st ss = Some (foldl resolve_step st ss)"
proof (induction st ss rule: resolve_capped.induct)
  case (2 st s ss)
  then have "length (resolve_step st s) + length ss \<le> 64"
    using resolve_step_length [of st s] by simp
  with 2 show ?case by (simp del: resolve_step.simps)
qed simp

lemma resolve_capped_bound:
  "resolve_capped st ss = Some r \<Longrightarrow> length st \<le> 64 \<Longrightarrow> length r \<le> 64"
  by (induction st ss rule: resolve_capped.induct) (auto split: if_splits)

lemma foldl_resolve_proper:
  "\<forall>s \<in> set ss. s \<noteq> [] \<and> SLASH \<notin> set s \<Longrightarrow> \<forall>s \<in> set st. proper_segment s \<Longrightarrow>
     \<forall>s \<in> set (foldl resolve_step st ss). proper_segment s"
proof (induction ss arbitrary: st)
  case Nil
  then show ?case by simp
next
  case (Cons s ss)
  have "\<forall>x \<in> set (butlast st). proper_segment x"
    using Cons.prems(2) in_set_butlastD by fast
  moreover have "proper_segment s" if "s \<noteq> ''.''" "s \<noteq> ''..''"
    using that Cons.prems(1) unfolding proper_segment_def by simp
  ultimately have "\<forall>x \<in> set (resolve_step st s). proper_segment x"
    using Cons.prems(2) unfolding resolve_step.simps by (simp split: if_split)
  moreover have "\<forall>x \<in> set ss. x \<noteq> [] \<and> SLASH \<notin> set x" using Cons.prems(1) by simp
  ultimately show ?case unfolding foldl_Cons by (rule Cons.IH [rotated])
qed

lemma resolve_step_proper: "proper_segment s \<Longrightarrow> resolve_step st s = st @ [s]"
  unfolding proper_segment_def resolve_step.simps by (simp only: if_False)

lemma foldl_resolve_id:
  "\<forall>s \<in> set ss. proper_segment s \<Longrightarrow> foldl resolve_step st ss = st @ ss"
  by (induction ss arbitrary: st) (simp_all add: resolve_step_proper del: resolve_step.simps)

lemma path_segments_concat:
  "\<forall>s \<in> set ss. proper_segment s \<Longrightarrow> path_segments (concat (map (\<lambda>s. SLASH # s) ss)) = ss"
proof (induction ss)
  case Nil
  then show ?case by simp
next
  case (Cons s ss)
  then have "s \<noteq> []" "SLASH \<notin> set s" by (auto simp: proper_segment_def)
  then have "path_segments (s @ concat (map (\<lambda>s. SLASH # s) ss)) =
      s # path_segments (concat (map (\<lambda>s. SLASH # s) ss))"
    by (rule path_segments_append) (cases ss; simp)
  with Cons show ?case by simp
qed

lemma path_segments_join: "\<forall>s \<in> set ss. proper_segment s \<Longrightarrow> path_segments (join_path ss) = ss"
  by (simp add: join_path_def path_segments_concat)

lemma normalize_out_eq:
  "length out < n \<Longrightarrow> normalize_out n out ss = fits n (out @ concat (map (\<lambda>s. SLASH # s) ss))"
  by (induction ss arbitrary: out) (auto simp: fits_def)

lemma normalize_path_eq:
  "rps_gpu_proc_normalize_path (Some p) n =
     (if n < 2 \<or> p = [] \<or> hd p \<noteq> SLASH then None
      else Option.bind (resolve_capped [] (path_segments p)) (\<lambda>r. fits n (join_path r)))"
  by (auto simp: rps_gpu_proc_normalize_path_def normalize_loop_eq normalize_out_eq
      join_path_def fits_def split: option.split)

text \<open>Everything a normalised path is good for: it denotes its own segments.\<close>

lemma normalize_path_SomeD:
  assumes "rps_gpu_proc_normalize_path (Some p) n = Some q"
  obtains r where "r = resolve (path_segments p)" "q = join_path r" "length q < n"
    "\<forall>s \<in> set r. proper_segment s" "length r \<le> 64" "2 \<le> n"
proof -
  from assms obtain r where r: "resolve_capped [] (path_segments p) = Some r"
    and q: "q = join_path r" "length q < n" "2 \<le> n"
    by (auto simp: normalize_path_eq bind_eq_Some_conv split: if_splits)
  have "r = resolve (path_segments p)"
    using resolve_capped_SomeD [OF r] by (simp add: resolve_def)
  moreover have "\<forall>s \<in> set r. proper_segment s"
    using foldl_resolve_proper [of "path_segments p" "[]"] path_segments_proper [of _ p] calculation
    by (auto simp: resolve_def)
  moreover have "length r \<le> 64" using resolve_capped_bound [OF r] by simp
  ultimately show ?thesis using q that by blast
qed

lemma normalize_join:
  assumes "\<forall>s \<in> set r. proper_segment s" "length r \<le> 64" "2 \<le> n"
  shows "rps_gpu_proc_normalize_path (Some (join_path r)) n = fits n (join_path r)"
proof -
  have "resolve_capped [] r = Some r"
    using assms resolve_capped_total [of "[]" r] foldl_resolve_id [of r "[]"] by simp
  moreover have "join_path r \<noteq> [] \<and> hd (join_path r) = SLASH"
    by (cases r) (auto simp: join_path_def)
  ultimately show ?thesis using assms by (simp add: normalize_path_eq path_segments_join)
qed

lemma normalize_stable:
  "rps_gpu_proc_normalize_path (Some p) n = Some q \<Longrightarrow>
     rps_gpu_proc_normalize_path (Some q) n = Some q"
  by (elim normalize_path_SomeD) (simp add: normalize_join)

section \<open>Decisions on paths: lemmas\<close>

abbreviation bus_dir :: "string \<Rightarrow> string" where
  "bus_dir bus \<equiv> gpus_base @ SLASH # bus"

abbreviation bus_information :: "string \<Rightarrow> string" where
  "bus_information bus \<equiv> gpus_base @ SLASH # bus @ SLASH # info_name"

lemma below_base_iff:
  "starts_with q gpus_base \<and> take 1 (drop (length gpus_base) q) = [SLASH] \<longleftrightarrow>
     (\<exists>rest. q = gpus_base @ SLASH # rest)"
proof
  assume L: "starts_with q gpus_base \<and> take 1 (drop (length gpus_base) q) = [SLASH]"
  then obtain r where r: "q = gpus_base @ r" unfolding starts_with_iff by blast
  with L have "take 1 r = [SLASH]" by simp
  with r show "\<exists>rest. q = gpus_base @ SLASH # rest" by (cases r) auto
next
  assume "\<exists>rest. q = gpus_base @ SLASH # rest"
  then show "starts_with q gpus_base \<and> take 1 (drop (length gpus_base) q) = [SLASH]"
    by (elim exE) (simp add: starts_with_def)
qed

lemma extract_kind_below:
  assumes "rps_gpu_proc_normalize_path (Some p) RPS_GPU_PROC_PATH_MAX = Some (gpus_base @ SLASH # rest)"
  shows "rps_gpu_extract_proc_bus_kind (Some p) b n = (True, bus, d, i) \<longleftrightarrow>
     SLASH \<notin> set bus \<and> bus \<noteq> [] \<and> length bus < n \<and>
     (d \<and> \<not> i \<and> rest = bus \<or> \<not> d \<and> i \<and> rest = bus @ SLASH # info_name)"
proof -
  let ?bus = "case strchr SLASH rest of None \<Rightarrow> rest | Some (before, _) \<Rightarrow> before"
  have eq: "rps_gpu_extract_proc_bus_kind (Some p) b n =
      (if ?bus = [] \<or> length ?bus \<ge> n then (False, b, False, False)
       else case strchr SLASH rest of
              None \<Rightarrow> (True, ?bus, True, False)
            | Some (_, after) \<Rightarrow>
                if after = info_name then (True, ?bus, False, True)
                else (False, ?bus, False, False))"
  proof -
    have "drop (length gpus_base + 1) (gpus_base @ SLASH # rest) = rest" by simp
    moreover have "\<not> (\<not> starts_with (gpus_base @ SLASH # rest) gpus_base
        \<or> take 1 (drop (length gpus_base) (gpus_base @ SLASH # rest)) \<noteq> [SLASH])"
      using below_base_iff by blast
    ultimately show ?thesis
      unfolding rps_gpu_extract_proc_bus_kind_def assms option.case Let_def
        rps_gpu_copy_slice_exact_def
      by (simp only: if_False) (simp split: option.split)
  qed
  show ?thesis
  proof (cases "strchr SLASH rest")
    case None
    then have no: "SLASH \<notin> set rest" by simp
    have "rest \<noteq> bus @ SLASH # info_name" using no by auto
    with None no show ?thesis
      unfolding eq None option.case by (cases "rest = [] \<or> n \<le> length rest") auto
  next
    case (Some ab)
    then obtain x y where ab: "strchr SLASH rest = Some (x, y)" by (cases ab) auto
    then have rest: "rest = x @ SLASH # y" "SLASH \<notin> set x" by (auto simp: strchr_Some_iff)
    have "rest = bus @ SLASH # info_name \<and> SLASH \<notin> set bus \<longleftrightarrow>
        x = bus \<and> y = info_name"
      using ab strchr_Some_iff [of SLASH rest bus "info_name"] rest by auto
    moreover have "\<not> (rest = bus \<and> SLASH \<notin> set bus)" using rest by auto
    ultimately show ?thesis
      unfolding eq ab option.case prod.case
      by (cases "x = [] \<or> n \<le> length x"; cases "y = info_name") auto
  qed
qed

lemma extract_kind_outside:
  assumes "\<nexists>rest. rps_gpu_proc_normalize_path (Some p) RPS_GPU_PROC_PATH_MAX =
      Some (gpus_base @ SLASH # rest)"
  shows "rps_gpu_extract_proc_bus_kind (Some p) b n = (False, b, False, False)"
proof (cases "rps_gpu_proc_normalize_path (Some p) RPS_GPU_PROC_PATH_MAX")
  case None
  then show ?thesis by (simp add: rps_gpu_extract_proc_bus_kind_def)
next
  case (Some q)
  with assms have "\<nexists>rest. q = gpus_base @ SLASH # rest" by blast
  then have "\<not> starts_with q gpus_base \<or> take 1 (drop (length gpus_base) q) \<noteq> [SLASH]"
    using below_base_iff [of q] by blast
  with Some show ?thesis
    unfolding rps_gpu_extract_proc_bus_kind_def by (simp only: option.case if_True)
qed

lemma extract_kind_iff:
  "rps_gpu_extract_proc_bus_kind (Some p) b n = (True, bus, d, i) \<longleftrightarrow>
     SLASH \<notin> set bus \<and> bus \<noteq> [] \<and> length bus < n \<and>
     (d \<and> \<not> i \<and> rps_gpu_proc_normalize_path (Some p) RPS_GPU_PROC_PATH_MAX = Some (bus_dir bus) \<or>
      \<not> d \<and> i \<and> rps_gpu_proc_normalize_path (Some p) RPS_GPU_PROC_PATH_MAX = Some (bus_information bus))"
proof (cases "\<exists>rest. rps_gpu_proc_normalize_path (Some p) RPS_GPU_PROC_PATH_MAX =
      Some (gpus_base @ SLASH # rest)")
  case True
  then obtain rest where r: "rps_gpu_proc_normalize_path (Some p) RPS_GPU_PROC_PATH_MAX =
      Some (gpus_base @ SLASH # rest)" by blast
  show ?thesis
    unfolding extract_kind_below [OF r] r option.inject same_append_eq list.inject by blast
next
  case False
  have "rps_gpu_extract_proc_bus_kind (Some p) b n \<noteq> (True, bus, d, i)"
    using extract_kind_outside [of p b n] False by simp
  with False show ?thesis by blast
qed

lemma contains_bus_iff:
  "rps_gpu_allowed_contains_bus (Some a) (Some b) \<longleftrightarrow>
     ga_valid a \<and> b \<noteq> [] \<and> b \<in> gi_bus_id ` set (ga_gpus a)"
  by (auto simp: rps_gpu_allowed_contains_bus_def list_ex_iff)

text \<open>The GPU a path names, by its directory or by its \<open>information\<close> file.\<close>

definition path_names_bus :: "string \<Rightarrow> string \<Rightarrow> bool" where
  "path_names_bus p bus \<longleftrightarrow>
     SLASH \<notin> set bus \<and> bus \<noteq> [] \<and> length bus < RPS_GPU_PROC_BUS_ID_MAX \<and>
     rps_gpu_proc_normalize_path (Some p) RPS_GPU_PROC_PATH_MAX
       \<in> {Some (bus_dir bus), Some (bus_information bus)}"

lemma path_names_bus_unique: "path_names_bus p b \<Longrightarrow> path_names_bus p b' \<Longrightarrow> b = b'"
proof -
  have "strchr SLASH (b @ SLASH # x) = Some (b, x)" if "SLASH \<notin> set b" for b x
    using that by simp
  then show "path_names_bus p b \<Longrightarrow> path_names_bus p b' \<Longrightarrow> b = b'"
    unfolding path_names_bus_def by (elim conjE insertE emptyE) 
      (simp_all, (metis in_set_conv_decomp append_Cons option.inject prod.inject)+)
qed

lemma path_allowed_eq:
  "rps_gpu_proc_path_allowed allowed (Some p) =
     (case rps_gpu_proc_normalize_path (Some p) RPS_GPU_PROC_PATH_MAX of
        None \<Rightarrow> RPS_GPU_PROC_IGNORE
      | Some q \<Rightarrow>
          if q = gpus_base then RPS_GPU_PROC_ALLOW
          else if \<not> (\<exists>bus. path_names_bus p bus) then RPS_GPU_PROC_IGNORE
          else if \<exists>a bus. allowed = Some a \<and> ga_valid a \<and> path_names_bus p bus \<and>
                 bus \<notin> gi_bus_id ` set (ga_gpus a)
          then RPS_GPU_PROC_DENY else RPS_GPU_PROC_ALLOW)"
proof (cases "rps_gpu_proc_normalize_path (Some p) RPS_GPU_PROC_PATH_MAX")
  case None
  then show ?thesis by (simp add: rps_gpu_proc_path_allowed_def)
next
  case (Some q)
  obtain ok bus d i where e: "rps_gpu_extract_proc_bus_kind (Some q) [] RPS_GPU_PROC_BUS_ID_MAX =
      (ok, bus, d, i)" by (cases "rps_gpu_extract_proc_bus_kind (Some q) [] RPS_GPU_PROC_BUS_ID_MAX")
  have names: "path_names_bus p b \<longleftrightarrow>
      (\<exists>d i. rps_gpu_extract_proc_bus_kind (Some q) [] RPS_GPU_PROC_BUS_ID_MAX = (True, b, d, i))" for b
    unfolding extract_kind_iff path_names_bus_def normalize_stable [OF Some] Some by auto
  show ?thesis
  proof (cases "ok")
    case False
    then have "\<not> (\<exists>bus. path_names_bus p bus)" using names e by auto
    with False show ?thesis
      by (simp add: rps_gpu_proc_path_allowed_def Some e)
  next
    case True
    then have bus: "path_names_bus p bus" unfolding names e by simp
    from e True have e': "rps_gpu_extract_proc_bus_kind (Some q) [] RPS_GPU_PROC_BUS_ID_MAX =
        (True, bus, d, i)" by simp
    have di: "d \<or> i" using extract_kind_iff [THEN iffD1, OF e'] by blast
    have ne: "bus \<noteq> []" using bus by (simp add: path_names_bus_def)
    have code: "rps_gpu_proc_path_allowed allowed (Some p) =
        (if q = gpus_base then RPS_GPU_PROC_ALLOW
         else case allowed of
                None \<Rightarrow> RPS_GPU_PROC_ALLOW
              | Some a \<Rightarrow>
                  if ga_valid a \<and> bus \<notin> gi_bus_id ` set (ga_gpus a) then RPS_GPU_PROC_DENY
                  else RPS_GPU_PROC_ALLOW)"
      using True di ne
      by (cases allowed)
        (simp_all add: rps_gpu_proc_path_allowed_def Some e contains_bus_iff, blast+)
    have "path_names_bus p b \<longleftrightarrow> b = bus" for b
      using bus path_names_bus_unique by blast
    then show ?thesis
      unfolding code Some option.case by (cases allowed) simp_all
  qed
qed

section \<open>Directory records: lemmas\<close>

text \<open>A well-formed record, its name, and a buffer of such records.\<close>

definition dirent_ok :: "string \<Rightarrow> bool" where
  "dirent_ok r \<longleftrightarrow>
     dirent_header \<le> length r \<and> d_reclen r 0 = length r \<and> NUL \<in> set (drop dirent_header r)"

definition dirent_name :: "string \<Rightarrow> string" where
  "dirent_name r = cstr (drop dirent_header r)"

lemma byte_at_append: "i < length r \<Longrightarrow> byte_at (pre @ r @ post) (length pre + i) = byte_at r i"
  by (simp add: byte_at_def nth_append)

lemma d_reclen_append:
  "dirent_ok r \<Longrightarrow> d_reclen (pre @ r @ post) (length pre) = length r"
  using byte_at_append [of 16 r pre post] byte_at_append [of 17 r pre post]
  by (simp add: dirent_ok_def d_reclen_def)

lemma cstr_append: "NUL \<in> set s \<Longrightarrow> cstr (s @ t) = cstr s"
  by (simp add: cstr_def takeWhile_append1)

lemma d_name_append: "dirent_ok r \<Longrightarrow> d_name (pre @ r @ post) (length pre) = dirent_name r"
  by (simp add: dirent_ok_def d_name_def dirent_name_def cstr_append)

lemma name_valid_append:
  "dirent_ok r \<Longrightarrow> length r \<le> remaining \<Longrightarrow>
     rps_gpu_dirent_name_is_valid (pre @ r @ post) (length pre) remaining"
  using d_reclen_append [of r pre post]
  by (simp add: rps_gpu_dirent_name_is_valid_def Let_def dirent_ok_def)

lemma dirent_ok_length: "dirent_ok r \<Longrightarrow> 0 < length r"
  by (auto simp: dirent_ok_def)

lemma walk_dirents_records:
  "\<forall>r \<in> set rs. dirent_ok r \<Longrightarrow>
     walk_dirents step (pre @ concat rs @ post) (length pre + length (concat rs)) (length pre) acc =
       (False, fold step (map dirent_name rs) acc)"
proof (induction rs arbitrary: pre acc)
  case Nil
  then show ?case by (simp add: walk_dirents.simps)
next
  case (Cons r rs)
  then have r: "dirent_ok r" by simp
  have "walk_dirents step (pre @ concat (r # rs) @ post) (length pre + length (concat (r # rs)))
      (length pre) acc =
    walk_dirents step ((pre @ r) @ concat rs @ post) (length (pre @ r) + length (concat rs))
      (length (pre @ r)) (step (dirent_name r) acc)"
    using d_reclen_append [OF r, of pre "concat rs @ post"] d_name_append [OF r, of pre "concat rs @ post"]
      dirent_ok_length [OF r]
    by (subst walk_dirents.simps) (simp add: Let_def add.assoc)
  also have "\<dots> = (False, fold step (map dirent_name rs) (step (dirent_name r) acc))"
    using Cons.prems by (intro Cons.IH) simp
  finally show ?case by simp
qed

text \<open>A result of \<open>getdents64\<close> that holds the records \<open>rs\<close>, with stale bytes behind them.\<close>

definition chunk_holds :: "int \<times> string \<Rightarrow> string list \<Rightarrow> bool" where
  "chunk_holds chunk rs \<longleftrightarrow> rs \<noteq> [] \<and> (\<forall>r \<in> set rs. dirent_ok r) \<and>
     fst chunk = int (length (concat rs)) \<and> take (length (concat rs)) (snd chunk) = concat rs"

definition lists_names :: "dir_reads \<Rightarrow> string list \<Rightarrow> bool" where
  "lists_names reads names \<longleftrightarrow>
     (\<exists>chunks rss. reads = Some chunks \<and> list_all2 chunk_holds chunks rss \<and>
        names = map dirent_name (concat rss))"

lemma walk_reads_records:
  "list_all2 chunk_holds chunks rss \<Longrightarrow>
     walk_reads step chunks acc = fold step (map dirent_name (concat rss)) acc"
proof (induction chunks rss arbitrary: acc rule: list_all2_induct)
  case Nil
  then show ?case by simp
next
  case (Cons chunk chunks rs rss)
  obtain n buf where c: "chunk = (n, buf)" by fastforce
  have buf: "buf = concat rs @ drop (length (concat rs)) buf"
    using Cons.hyps(1) append_take_drop_id [of "length (concat rs)" buf] c
    by (simp add: chunk_holds_def)
  from Cons.hyps(1) c have n: "nat n = length (concat rs)" and ok: "\<forall>r \<in> set rs. dirent_ok r"
    by (simp_all add: chunk_holds_def)
  from Cons.hyps(1) c have "0 < length (concat rs)"
    using dirent_ok_length by (cases rs) (auto simp: chunk_holds_def)
  then have "\<not> n \<le> 0" using n by linarith
  moreover have "walk_dirents step buf (nat n) 0 acc = (False, fold step (map dirent_name rs) acc)"
    using walk_dirents_records [OF ok, of step "[]" "drop (length (concat rs)) buf" acc] buf n
    by simp
  ultimately show ?case by (simp add: c Cons.IH)
qed

section \<open>Capped collection: lemmas\<close>

text \<open>The three loops that fill an array of bounded size keep the first elements that qualify.\<close>

definition capped_step :: "nat \<Rightarrow> ('a \<Rightarrow> 'b option) \<Rightarrow> 'a \<Rightarrow> 'b list \<Rightarrow> 'b list" where
  "capped_step cap f x acc =
     (if length acc < cap then (case f x of None \<Rightarrow> acc | Some y \<Rightarrow> acc @ [y]) else acc)"

lemma fold_capped:
  "length acc \<le> cap \<Longrightarrow>
     fold (capped_step cap f) xs acc = take cap (acc @ List.map_filter f xs)"
proof (induction xs arbitrary: acc)
  case Nil
  then show ?case by (simp add: List.map_filter_def)
next
  case (Cons x xs)
  show ?case
  proof (cases "f x")
    case None
    then have "capped_step cap f x acc = acc" by (simp add: capped_step_def)
    with None Cons show ?thesis by (simp add: List.map_filter_simps)
  next
    case (Some y)
    show ?thesis
    proof (cases "length acc < cap")
      case True
      with Some have "capped_step cap f x acc = acc @ [y]" by (simp add: capped_step_def)
      with Some True Cons.IH [of "acc @ [y]"] show ?thesis by (simp add: List.map_filter_simps)
    next
      case False
      with Cons.prems have "capped_step cap f x acc = acc" "length acc = cap"
        by (simp_all add: capped_step_def)
      with Cons.IH [of acc] show ?thesis by simp
    qed
  qed
qed

lemma minor_step_capped: "minor_step cap = capped_step cap rps_gpu_name_is_nvidia_minor"
  by (intro ext) (simp add: minor_step_def capped_step_def)

text \<open>The GPU a directory entry describes, if its file is read and parses.\<close>

definition gpu_info_of :: "gpu_sys \<Rightarrow> string \<Rightarrow> rps_gpu_info option" where
  "gpu_info_of sys name =
     (if name = ''.'' \<or> name = ''..'' then None
      else Option.bind (fits PATH_MAX (gpus_base @ ''/'' @ name @ ''/information''))
        (\<lambda>path. Option.bind (rps_gpu_read_file_to_buffer sys path 8192)
          (\<lambda>text. let (ok, info) = rps_gpu_parse_gpu_information (Some path) (Some (cstr text)) in
            if ok then Some info else None)))"

lemma info_step_capped: "info_step sys cap = capped_step cap (gpu_info_of sys)"
proof (intro ext)
  fix name infos
  let ?path = "gpus_base @ ''/'' @ name @ ''/information''"
  show "info_step sys cap name infos = capped_step cap (gpu_info_of sys) name infos"
  proof (cases "(name = ''.'' \<or> name = ''..'') \<or> \<not> length infos < cap")
    case True
    then have skip: "\<not> (name \<noteq> ''.'' \<and> name \<noteq> ''..'' \<and> length infos < cap)" by blast
    show ?thesis
    proof (cases "length infos < cap")
      case True
      with skip have "name = ''.'' \<or> name = ''..''" by blast
      with skip show ?thesis
        unfolding info_step_def capped_step_def gpu_info_of_def by (simp only: if_False if_True) simp
    next
      case False
      with skip show ?thesis
        unfolding info_step_def capped_step_def by (simp only: if_False)
    qed
  next
    case False
    then have name: "name \<noteq> ''.''" "name \<noteq> ''..''" "length infos < cap" by simp_all
    show ?thesis
    proof (cases "fits PATH_MAX ?path")
      case None
      with name show ?thesis
        unfolding info_step_def capped_step_def gpu_info_of_def None by simp
    next
      case (Some path)
      with name show ?thesis
        unfolding info_step_def capped_step_def gpu_info_of_def Some
        by (cases "rps_gpu_read_file_to_buffer sys path 8192") (simp_all split: prod.split)
    qed
  qed
qed

lemma collect_mounted_minors_eq:
  assumes "lists_names (sys_dev sys) names"
  shows "rps_gpu_collect_mounted_minors sys cap =
     take cap (List.map_filter rps_gpu_name_is_nvidia_minor names)"
  using assms fold_capped [of "[]" cap]
  by (auto simp: lists_names_def rps_gpu_collect_mounted_minors_def walk_reads_records
      minor_step_capped)

lemma collect_gpu_infos_eq:
  assumes "lists_names (sys_gpus sys) names"
  shows "rps_gpu_collect_gpu_infos sys cap = take cap (List.map_filter (gpu_info_of sys) names)"
  using assms fold_capped [of "[]" cap]
  by (auto simp: lists_names_def rps_gpu_collect_gpu_infos_def walk_reads_records info_step_capped)

text \<open>What makes a GPU allowed.\<close>

definition gpu_admitted :: "int list \<Rightarrow> string option \<Rightarrow> rps_gpu_info \<Rightarrow> bool" where
  "gpu_admitted mounted explicit_uuid info \<longleftrightarrow>
     gi_present info \<and> gi_device_minor info \<in> set mounted \<and>
     (explicit_uuid \<in> {None, Some []} \<or> explicit_uuid = Some (gi_uuid info))"

lemma minor_is_mounted_iff [simp]: "rps_gpu_minor_is_mounted m ms \<longleftrightarrow> m \<in> set ms"
  by (induction ms) auto

lemma allowed_loop_eq:
  "length gpus \<le> RPS_GPU_MAX_GPUS \<Longrightarrow>
     allowed_loop mounted uuid gpus infos =
       take RPS_GPU_MAX_GPUS (gpus @ filter (gpu_admitted mounted uuid) infos)"
proof (induction infos arbitrary: gpus)
  case Nil
  then show ?case by simp
next
  case (Cons info infos)
  show ?case
  proof (cases "length gpus < RPS_GPU_MAX_GPUS")
    case True
    have "allowed_loop mounted uuid gpus (info # infos) =
        allowed_loop mounted uuid (if gpu_admitted mounted uuid info then gpus @ [info] else gpus) infos"
      using True by (cases uuid) (auto simp: gpu_admitted_def)
    with True Cons show ?thesis by (simp add: take_Cons' del: allowed_loop.simps)
  next
    case False
    with Cons.prems show ?thesis by simp
  qed
qed

lemma build_allowed_eq:
  "rps_gpu_build_allowed_gpus infos mounted uuid =
     (let gpus = take RPS_GPU_MAX_GPUS (filter (gpu_admitted mounted uuid) infos) in
      (gpus \<noteq> [], \<lparr>ga_valid = (gpus \<noteq> []), ga_gpus = gpus\<rparr>))"
  by (auto simp: rps_gpu_build_allowed_gpus_def allowed_loop_eq Let_def gpu_admitted_def)

section \<open>Compaction: lemmas\<close>

lemma memmove_records:
  assumes "length w = dst" "length (w @ mid) = src" "length r = n"
  shows "memmove (w @ mid @ r @ rest) dst src n = (w @ r) @ drop n (mid @ r) @ rest"
  using assms by (simp add: memmove_def)

definition kept_records :: "rps_gpu_allowed_gpus \<Rightarrow> string list \<Rightarrow> string" where
  "kept_records a rs = concat (filter (\<lambda>r. dirent_keep a (dirent_name r)) rs)"

lemma kept_records_length: "length (kept_records a rs) \<le> length (concat rs)"
  by (induction rs) (auto simp: kept_records_def)

lemma dirent64_loop_step:
  assumes "read_offset < len" "\<not> len - read_offset < dirent_header"
    "rps_gpu_dirent_name_is_valid buf read_offset (len - read_offset)"
    and "d_reclen buf read_offset = n" "d_name buf read_offset = name"
  shows "dirent64_loop a len buf read_offset write_offset =
     (if dirent_keep a name
      then dirent64_loop a len
             (if write_offset \<noteq> read_offset then memmove buf write_offset read_offset n else buf)
             (read_offset + n) (write_offset + n)
      else dirent64_loop a len buf (read_offset + n) write_offset)"
  using assms by (subst dirent64_loop.simps) (simp add: Let_def)

text \<open>
  In the middle of the compaction the buffer is the kept records \<open>w\<close>, bytes \<open>mid\<close> already
  read, the records still to read and the bytes behind them.
\<close>

lemma dirent64_loop_records:
  "\<forall>r \<in> set rs. dirent_ok r \<Longrightarrow>
     \<exists>mid'. dirent64_loop a (length (w @ mid @ concat rs)) (w @ mid @ concat rs @ post)
         (length (w @ mid)) (length w) =
       (w @ kept_records a rs @ mid' @ post, length (w @ kept_records a rs)) \<and>
       length (kept_records a rs @ mid') = length (mid @ concat rs)"
proof (induction rs arbitrary: w mid)
  case Nil
  then show ?case by (simp add: dirent64_loop.simps kept_records_def)
next
  case (Cons r rs)
  then have r: "dirent_ok r" by simp
  let ?len = "length (w @ mid @ concat (r # rs))" and ?buf = "w @ mid @ concat (r # rs) @ post"
  have buf: "?buf = (w @ mid) @ r @ (concat rs @ post)" by simp
  have rl: "d_reclen ?buf (length (w @ mid)) = length r"
    and nm: "d_name ?buf (length (w @ mid)) = dirent_name r"
    unfolding buf by (rule d_reclen_append [OF r], rule d_name_append [OF r])
  have rest: "?len - length (w @ mid) = length r + length (concat rs)" by simp
  have valid: "rps_gpu_dirent_name_is_valid ?buf (length (w @ mid)) (?len - length (w @ mid))"
    unfolding buf by (rule name_valid_append [OF r]) simp
  have hdr: "\<not> ?len - length (w @ mid) < dirent_header" and inside: "length (w @ mid) < ?len"
    using r dirent_ok_length [OF r] unfolding rest by (simp_all add: dirent_ok_def)
  note step = dirent64_loop_step [OF inside hdr valid rl nm, of a "length w"]
  show ?case
  proof (cases "dirent_keep a (dirent_name r)")
    case True
    let ?mid = "drop (length r) (mid @ r)"
    have "(if length w \<noteq> length (w @ mid) then memmove ?buf (length w) (length (w @ mid)) (length r)
           else ?buf) = (w @ r) @ ?mid @ concat rs @ post"
      unfolding buf append_assoc [of w mid]
      by (subst memmove_records) (auto simp: not_less)
    moreover have "length (w @ mid) + length r = length ((w @ r) @ ?mid)"
      "length w + length r = length (w @ r)"
      "?len = length ((w @ r) @ ?mid @ concat rs)" by simp_all
    ultimately have "dirent64_loop a ?len ?buf (length (w @ mid)) (length w) =
        dirent64_loop a (length ((w @ r) @ ?mid @ concat rs)) ((w @ r) @ ?mid @ concat rs @ post)
          (length ((w @ r) @ ?mid)) (length (w @ r))"
      using True unfolding step by (simp only: if_True)
    moreover obtain mid' where
      "dirent64_loop a (length ((w @ r) @ ?mid @ concat rs)) ((w @ r) @ ?mid @ concat rs @ post)
          (length ((w @ r) @ ?mid)) (length (w @ r)) =
        ((w @ r) @ kept_records a rs @ mid' @ post, length ((w @ r) @ kept_records a rs)) \<and>
        length (kept_records a rs @ mid') = length (?mid @ concat rs)"
      using Cons.IH [of "w @ r" ?mid] Cons.prems by auto
    ultimately show ?thesis
      using True by (intro exI [of _ mid']) (simp add: kept_records_def)
  next
    case False
    have "dirent64_loop a ?len ?buf (length (w @ mid)) (length w) =
        dirent64_loop a (length (w @ (mid @ r) @ concat rs)) (w @ (mid @ r) @ concat rs @ post)
          (length (w @ mid @ r)) (length w)"
      using False unfolding step by (simp add: add.assoc)
    moreover obtain mid' where
      "dirent64_loop a (length (w @ (mid @ r) @ concat rs)) (w @ (mid @ r) @ concat rs @ post)
          (length (w @ mid @ r)) (length w) =
        (w @ kept_records a rs @ mid' @ post, length (w @ kept_records a rs)) \<and>
        length (kept_records a rs @ mid') = length ((mid @ r) @ concat rs)"
      using Cons.IH [of w "mid @ r"] Cons.prems by auto
    ultimately show ?thesis
      using False by (intro exI [of _ mid']) (simp add: kept_records_def)
  qed
qed

lemma memmove_length: "dst \<le> src \<Longrightarrow> src + n \<le> length buf \<Longrightarrow> length (memmove buf dst src n) = length buf"
  by (simp add: memmove_def)

lemma memmove_beyond:
  "dst \<le> src \<Longrightarrow> src + n \<le> len \<Longrightarrow> len \<le> length buf \<Longrightarrow>
     drop len (memmove buf dst src n) = drop len buf"
  by (simp add: memmove_def)

lemma dirent64_loop_bounds:
  "write \<le> read \<Longrightarrow> read \<le> len \<Longrightarrow> len \<le> length buf \<Longrightarrow>
     dirent64_loop a len buf read write = (buf', n) \<Longrightarrow>
     length buf' = length buf \<and> drop len buf' = drop len buf \<and> n \<le> len"
proof (induction a len buf read "write" arbitrary: buf' n rule: dirent64_loop.induct)
  case (1 a len buf read_offset write_offset)
  let ?n = "d_reclen buf read_offset"
  show ?case
  proof (cases "read_offset < len \<and> \<not> len - read_offset < dirent_header \<and>
      rps_gpu_dirent_name_is_valid buf read_offset (len - read_offset)")
    case False
    with "1.prems" show ?thesis
      by (auto simp: dirent64_loop.simps [of a len buf read_offset write_offset] split: if_splits)
  next
    case True
    then have n: "?n \<le> len - read_offset"
      by (auto simp: rps_gpu_dirent_name_is_valid_def Let_def split: if_splits)
    with True have fit: "read_offset + ?n \<le> len" by linarith
    let ?buf = "if write_offset \<noteq> read_offset then memmove buf write_offset read_offset ?n else buf"
    have same: "length ?buf = length buf" "drop len ?buf = drop len buf"
      using "1.prems" fit by (auto simp: memmove_length memmove_beyond)
    show ?thesis
    proof (cases "dirent_keep a (d_name buf read_offset)")
      case keep: True
      from "1.prems"(4) True keep
      have "dirent64_loop a len ?buf (read_offset + ?n) (write_offset + ?n) = (buf', n)"
        by (subst (asm) dirent64_loop.simps) (simp add: Let_def)
      with "1.IH"(1) [of ?n] True keep "1.prems" fit same show ?thesis by simp
    next
      case drop: False
      from "1.prems"(4) True drop
      have "dirent64_loop a len buf (read_offset + ?n) write_offset = (buf', n)"
        by (subst (asm) dirent64_loop.simps) (simp add: Let_def)
      with "1.IH"(2) [of ?n] True drop "1.prems" fit show ?thesis by simp
    qed
  qed
qed

section \<open>The information file: lemmas\<close>

definition blank_text :: "string \<Rightarrow> bool" where
  "blank_text ws \<longleftrightarrow> (\<forall>c \<in> set ws. is_blank c)"

definition trimmed :: "string \<Rightarrow> bool" where
  "trimmed v \<longleftrightarrow> v = [] \<or> \<not> is_blank (hd v) \<and> \<not> is_blank (last v)"

definition strip_cr :: "string \<Rightarrow> string" where
  "strip_cr line = (if line \<noteq> [] \<and> last line = CR then butlast line else line)"

lemma trim_slice_surround:
  assumes "blank_text ws" "blank_text ws'" "trimmed v"
  shows "rps_gpu_trim_slice (ws @ v @ ws') = v"
proof -
  have front: "dropWhile is_blank (ws @ x) = dropWhile is_blank x" for x
    using assms(1) by (intro dropWhile_append2) (simp add: blank_text_def)
  have behind: "dropWhile is_blank (rev ws' @ x) = dropWhile is_blank x" for x
    using assms(2) by (intro dropWhile_append2) (simp add: blank_text_def)
  show ?thesis
  proof (cases "v = []")
    case True
    then show ?thesis using front [of ws'] assms(2)
      by (auto simp: rps_gpu_trim_slice_def blank_text_def dest: set_dropWhileD)
  next
    case False
    with assms(3) have v: "\<not> is_blank (hd v)" "\<not> is_blank (last v)" by (auto simp: trimmed_def)
    have "dropWhile is_blank (v @ ws') = v @ ws'" using False v(1) by (cases v) auto
    moreover have "dropWhile is_blank (rev v) = rev v"
      using False v(2) by (cases v rule: rev_cases) auto
    ultimately show ?thesis by (simp add: rps_gpu_trim_slice_def front behind)
  qed
qed

lemma trim_slice_field:
  assumes "blank_text ws" "blank_text ws'" "trimmed v" "last (ws @ v @ ws') = CR" "ws @ v @ ws' \<noteq> []"
  shows "rps_gpu_trim_slice (butlast (ws @ v @ ws')) = v"
proof -
  have blank_butlast: "blank_text (butlast x)" if "blank_text x" for x
    using that by (auto simp: blank_text_def dest: in_set_butlastD)
  have cr: "is_blank CR" by (simp add: is_blank_def)
  show ?thesis
  proof (cases "ws' = []")
    case False
    then show ?thesis
      using trim_slice_surround [OF assms(1) blank_butlast [OF assms(2)] assms(3)]
      by (simp add: butlast_append)
  next
    case True
    with assms(4) have "v \<noteq> [] \<Longrightarrow> last v = CR" by simp
    with cr have "v \<noteq> [] \<Longrightarrow> is_blank (last v)" by simp
    with assms(3) have "v = []" unfolding trimmed_def by blast
    then show ?thesis
      using True trim_slice_surround [OF blank_butlast [OF assms(1)] assms(2,3)]
      by (simp add: butlast_append)
  qed
qed

lemma value_after_key_eq:
  "rps_gpu_value_after_key line key =
     (if starts_with line key then Some (rps_gpu_trim_slice (drop (length key) line)) else None)"
proof -
  have "length key \<le> length line" if "starts_with line key"
    using that unfolding starts_with_iff by auto
  then show ?thesis by (auto simp: rps_gpu_value_after_key_def)
qed

text \<open>The value of a line \<open>key: value\<close>, whatever blanks and carriage return surround it.\<close>

lemma value_after_key_field:
  assumes "blank_text ws" "blank_text ws'" "trimmed v" and "key \<noteq> []" "last key \<noteq> CR"
  shows "rps_gpu_value_after_key (strip_cr (key @ ws @ v @ ws')) key = Some v"
proof (cases "ws @ v @ ws' \<noteq> [] \<and> last (ws @ v @ ws') = CR")
  case True
  then have "strip_cr (key @ ws @ v @ ws') = key @ butlast (ws @ v @ ws')"
    using assms(4) by (simp add: strip_cr_def butlast_append last_append split: if_splits)
  with True trim_slice_field [OF assms(1-3)] show ?thesis
    by (simp add: value_after_key_eq)
next
  case False
  then have "strip_cr (key @ ws @ v @ ws') = key @ ws @ v @ ws'"
    using assms(4,5) by (cases "ws @ v @ ws' = []") (simp_all add: strip_cr_def last_append del: append_is_Nil_conv)
  with trim_slice_surround [OF assms(1-3)] show ?thesis by (simp add: value_after_key_eq)
qed

lemma strip_cr_prefix: "starts_with (strip_cr line) key \<Longrightarrow> starts_with line key"
  unfolding starts_with_iff strip_cr_def
  by (auto split: if_splits) (metis append_assoc append_butlast_last_id)

lemma value_after_key_other:
  "\<not> starts_with line key \<Longrightarrow> rps_gpu_value_after_key (strip_cr line) key = None"
  using strip_cr_prefix [of line key] by (auto simp: value_after_key_eq)

abbreviation uuid_key :: string where "uuid_key \<equiv> ''GPU UUID:''"
abbreviation bus_key :: string where "bus_key \<equiv> ''Bus Location:''"
abbreviation minor_key :: string where "minor_key \<equiv> ''Device Minor:''"

text \<open>A line of the driver's file about the GPU \<open>i\<close>: one of the three fields, or unrelated.\<close>

definition field_line :: "string \<Rightarrow> string \<Rightarrow> string \<Rightarrow> bool" where
  "field_line key v line \<longleftrightarrow>
     (\<exists>ws ws'. blank_text ws \<and> blank_text ws' \<and> line = key @ ws @ v @ ws')"

definition driver_line :: "rps_gpu_info \<Rightarrow> string \<Rightarrow> bool" where
  "driver_line i line \<longleftrightarrow>
     field_line uuid_key (gi_uuid i) line \<or> field_line bus_key (gi_bus_id i) line \<or>
     field_line minor_key (show_nat (nat (gi_device_minor i))) line \<or>
     \<not> (starts_with line uuid_key \<or> starts_with line bus_key \<or> starts_with line minor_key)"

definition printable_info :: "rps_gpu_info \<Rightarrow> bool" where
  "printable_info i \<longleftrightarrow> gi_present i \<and> 0 \<le> gi_device_minor i \<and> gi_device_minor i \<le> INT_MAX \<and>
     trimmed (gi_uuid i) \<and> length (gi_uuid i) < RPS_GPU_PROC_UUID_MAX \<and>
     trimmed (gi_bus_id i) \<and> gi_bus_id i \<noteq> [] \<and> length (gi_bus_id i) < RPS_GPU_PROC_BUS_ID_MAX"

lemma blank_is_space: "is_blank c \<Longrightarrow> is_space c"
  unfolding is_blank_def is_space_def by (elim disjE) simp_all

lemma trimmed_show_nat: "trimmed (show_nat n)"
proof -
  have "\<not> is_blank c" if "c \<in> set (show_nat n)" for c
    using that all_digits_no(5) [OF show_nat_digits [of n]] blank_is_space [of c] by blast
  then show ?thesis by (simp add: trimmed_def)
qed

lemma keys_exclusive:
  "\<not> starts_with (uuid_key @ x) bus_key" "\<not> starts_with (uuid_key @ x) minor_key"
  "\<not> starts_with (bus_key @ x) uuid_key" "\<not> starts_with (bus_key @ x) minor_key"
  "\<not> starts_with (minor_key @ x) uuid_key" "\<not> starts_with (minor_key @ x) bus_key"
  by (simp_all add: starts_with_def)

lemmas information_line = gpu_information_line_def [folded strip_cr_def]

lemma information_line_uuid:
  assumes "field_line uuid_key v line" "trimmed v"
  shows "gpu_information_line line (ok, info) =
     (if length v < RPS_GPU_PROC_UUID_MAX then (ok, info\<lparr>gi_uuid := v\<rparr>) else (False, info))"
proof -
  from assms obtain ws ws' where w: "blank_text ws" "blank_text ws'" "line = uuid_key @ ws @ v @ ws'"
    by (auto simp: field_line_def)
  have "rps_gpu_value_after_key (strip_cr line) uuid_key = Some v"
    unfolding w(3) by (rule value_after_key_field [OF w(1,2) assms(2)]) simp_all
  then show ?thesis
    unfolding information_line prod.case Let_def by (simp add: rps_gpu_copy_slice_exact_def)
qed

lemma information_line_bus:
  assumes "field_line bus_key v line" "trimmed v"
  shows "gpu_information_line line (ok, info) =
     (if v \<noteq> [] \<and> length v < RPS_GPU_PROC_BUS_ID_MAX then (ok, info\<lparr>gi_bus_id := v\<rparr>) else (False, info))"
proof -
  from assms obtain ws ws' where w: "blank_text ws" "blank_text ws'" "line = bus_key @ ws @ v @ ws'"
    by (auto simp: field_line_def)
  have "rps_gpu_value_after_key (strip_cr line) bus_key = Some v"
    unfolding w(3) by (rule value_after_key_field [OF w(1,2) assms(2)]) simp_all
  moreover have "rps_gpu_value_after_key (strip_cr line) uuid_key = None"
    unfolding w(3) by (rule value_after_key_other [OF keys_exclusive(3)])
  ultimately show ?thesis
    unfolding information_line prod.case Let_def by (simp add: rps_gpu_copy_slice_exact_def)
qed

lemma information_line_minor:
  assumes "field_line minor_key v line" "trimmed v"
  shows "gpu_information_line line (ok, info) =
     (case rps_gpu_parse_nonnegative_int v of
        None \<Rightarrow> (False, info) | Some m \<Rightarrow> (ok, info\<lparr>gi_device_minor := m\<rparr>))"
proof -
  from assms obtain ws ws' where w: "blank_text ws" "blank_text ws'" "line = minor_key @ ws @ v @ ws'"
    by (auto simp: field_line_def)
  have "rps_gpu_value_after_key (strip_cr line) minor_key = Some v"
    unfolding w(3) by (rule value_after_key_field [OF w(1,2) assms(2)]) simp_all
  moreover have "rps_gpu_value_after_key (strip_cr line) uuid_key = None"
    unfolding w(3) by (rule value_after_key_other [OF keys_exclusive(5)])
  moreover have "rps_gpu_value_after_key (strip_cr line) bus_key = None"
    unfolding w(3) by (rule value_after_key_other [OF keys_exclusive(6)])
  ultimately show ?thesis
    unfolding information_line prod.case Let_def by simp
qed

lemma information_line_other:
  assumes "\<not> (starts_with line uuid_key \<or> starts_with line bus_key \<or> starts_with line minor_key)"
  shows "gpu_information_line line st = st"
  using assms unfolding information_line
  by (cases st) (simp add: value_after_key_other)

lemma field_line_starts: "field_line key v line \<Longrightarrow> starts_with line key"
  by (auto simp: field_line_def)

lemma information_line_sticky: "\<not> fst st \<Longrightarrow> \<not> fst (gpu_information_line line st)"
  by (cases st) (simp add: information_line Let_def split: option.split)

lemma information_loop_lines:
  "\<forall>l \<in> set ls. LF \<notin> set l \<Longrightarrow>
     gpu_information_loop st (concat (map (\<lambda>l. l @ [LF]) ls)) = fold gpu_information_line ls st"
proof (induction ls arbitrary: st)
  case Nil
  then show ?case by (simp add: gpu_information_loop.simps)
next
  case (Cons l ls)
  let ?rest = "concat (map (\<lambda>l. l @ [LF]) ls)"
  have "\<forall>c \<in> set l. c \<noteq> LF" using Cons.prems by auto
  then have "takeWhile (\<lambda>c. c \<noteq> LF) (l @ LF # ?rest) = l" "dropWhile (\<lambda>c. c \<noteq> LF) (l @ LF # ?rest) = LF # ?rest"
    by (simp_all add: takeWhile_append2 dropWhile_append2)
  with Cons show ?case by (subst gpu_information_loop.simps) (simp add: Let_def)
qed

text \<open>After some lines about \<open>i\<close>, each field holds \<open>i\<close>'s value from its first line on.\<close>

lemma driver_lines_fold:
  assumes i: "printable_info i"
  shows "\<forall>l \<in> set ls. driver_line i l \<Longrightarrow>
     fold gpu_information_line ls (True, info) = (True, info\<lparr>
       gi_uuid := if \<exists>l \<in> set ls. starts_with l uuid_key then gi_uuid i else gi_uuid info,
       gi_bus_id := if \<exists>l \<in> set ls. starts_with l bus_key then gi_bus_id i else gi_bus_id info,
       gi_device_minor := if \<exists>l \<in> set ls. starts_with l minor_key then gi_device_minor i
                          else gi_device_minor info\<rparr>)"
proof (induction ls arbitrary: info)
  case Nil
  then show ?case by simp
next
  case (Cons l ls)
  have excl: "starts_with l uuid_key \<Longrightarrow> \<not> starts_with l bus_key \<and> \<not> starts_with l minor_key"
    "starts_with l bus_key \<Longrightarrow> \<not> starts_with l minor_key"
    using keys_exclusive unfolding starts_with_iff [of l] by auto
  have "driver_line i l" using Cons.prems by simp
  then consider
      (uuid) "field_line uuid_key (gi_uuid i) l"
    | (bus) "field_line bus_key (gi_bus_id i) l"
    | (minor) "field_line minor_key (show_nat (nat (gi_device_minor i))) l"
    | (other) "\<not> (starts_with l uuid_key \<or> starts_with l bus_key \<or> starts_with l minor_key)"
    unfolding driver_line_def by blast
  then have "gpu_information_line l (True, info) = (True, info\<lparr>
       gi_uuid := if starts_with l uuid_key then gi_uuid i else gi_uuid info,
       gi_bus_id := if starts_with l bus_key then gi_bus_id i else gi_bus_id info,
       gi_device_minor := if starts_with l minor_key then gi_device_minor i
                          else gi_device_minor info\<rparr>)"
  proof cases
    case uuid
    then show ?thesis
      using i excl field_line_starts [OF uuid] information_line_uuid [OF uuid]
      by (simp add: printable_info_def)
  next
    case bus
    then show ?thesis
      using i excl field_line_starts [OF bus] information_line_bus [OF bus]
      by (auto simp add: printable_info_def)
  next
    case minor
    have "nat (gi_device_minor i) \<le> 2147483647" "int (nat (gi_device_minor i)) = gi_device_minor i"
      using i by (auto simp: printable_info_def)
    then show ?thesis
      using excl field_line_starts [OF minor] information_line_minor [OF minor trimmed_show_nat]
      by auto
  next
    case other
    then show ?thesis using information_line_other [OF other, of "(True, info)"] by simp
  qed
  with Cons show ?case by simp
qed

lemma parse_information_sticky:
  assumes "\<forall>l \<in> set ls. LF \<notin> set l" "l \<in> set ls" "\<And>st. \<not> fst (gpu_information_line l st)"
  shows "\<not> fst (rps_gpu_parse_gpu_information path (Some (concat (map (\<lambda>l. l @ [LF]) ls))))"
proof -
  have sticky: "\<not> fst st \<Longrightarrow> \<not> fst (fold gpu_information_line xs st)" for xs st
    by (induction xs arbitrary: st) (simp_all add: information_line_sticky)
  from assms(2) obtain xs ys where "ls = xs @ l # ys" by (meson split_list)
  then have "\<not> fst (fold gpu_information_line ls st)" for st
    using sticky [OF assms(3)] by simp
  then show ?thesis
    using information_loop_lines [OF assms(1)]
    by (auto simp: rps_gpu_parse_gpu_information_def Let_def split: prod.split if_splits)
       (metis fst_conv)+
qed

section \<open>Listing and paths: lemmas\<close>

lemma gpus_base_join:
  "proper_segment name \<Longrightarrow>
     join_path [''proc'', ''driver'', ''nvidia'', ''gpus'', name] = bus_dir name"
  by (simp add: join_path_def gpus_base_def)

lemma normalize_bus_dir:
  assumes "proper_segment name" "length name < RPS_GPU_PROC_BUS_ID_MAX"
  shows "rps_gpu_proc_normalize_path (Some (bus_dir name)) RPS_GPU_PROC_PATH_MAX = Some (bus_dir name)"
proof -
  have "\<forall>s \<in> set [''proc'', ''driver'', ''nvidia'', ''gpus'', name]. proper_segment s"
    using assms(1) by (simp add: proper_segment_def)
  from normalize_join [OF this, of RPS_GPU_PROC_PATH_MAX]
  have "rps_gpu_proc_normalize_path (Some (bus_dir name)) RPS_GPU_PROC_PATH_MAX =
      fits RPS_GPU_PROC_PATH_MAX (bus_dir name)"
    unfolding gpus_base_join [OF assms(1)] by simp
  moreover have "length (bus_dir name) < RPS_GPU_PROC_PATH_MAX"
    using assms(2) by (simp add: gpus_base_def)
  ultimately show ?thesis by (simp add: fits_def)
qed

lemma path_names_bus_dir:
  assumes "proper_segment name" "length name < RPS_GPU_PROC_BUS_ID_MAX"
  shows "path_names_bus (bus_dir name) b \<longleftrightarrow> b = name"
proof -
  have "path_names_bus (bus_dir name) name"
    using assms by (simp add: path_names_bus_def normalize_bus_dir proper_segment_def)
  then show ?thesis using path_names_bus_unique by blast
qed

lemma path_names_bus_not_base:
  "path_names_bus p b \<Longrightarrow> rps_gpu_proc_normalize_path (Some p) RPS_GPU_PROC_PATH_MAX \<noteq> Some gpus_base"
  by (auto simp: path_names_bus_def)

lemma path_denied_iff:
  "rps_gpu_proc_path_allowed allowed (Some p) = RPS_GPU_PROC_DENY \<longleftrightarrow>
     (\<exists>a bus. allowed = Some a \<and> ga_valid a \<and> path_names_bus p bus \<and>
        bus \<notin> gi_bus_id ` set (ga_gpus a))"
proof (cases "\<exists>bus. path_names_bus p bus")
  case True
  then obtain bus where bus: "path_names_bus p bus" by blast
  then obtain q where q: "rps_gpu_proc_normalize_path (Some p) RPS_GPU_PROC_PATH_MAX = Some q"
    by (auto simp: path_names_bus_def)
  with path_names_bus_not_base [OF bus] have "q \<noteq> gpus_base" by simp
  with True show ?thesis unfolding path_allowed_eq q option.case by simp
next
  case False
  then show ?thesis unfolding path_allowed_eq by (simp split: option.split)
qed

lemma runtime_init_eq:
  assumes "lists_names (sys_dev sys) dev_names" and "lists_names (sys_gpus sys) gpu_names"
  shows "rps_gpu_proc_filter_runtime_init sys uuid =
    (let minors = take 32 (List.map_filter rps_gpu_name_is_nvidia_minor dev_names);
         infos = take 32 (List.map_filter (gpu_info_of sys) gpu_names);
         gpus = filter (\<lambda>i. gi_present i \<and> gi_device_minor i \<in> set minors \<and>
                          (uuid \<in> {None, Some []} \<or> uuid = Some (gi_uuid i))) infos in
     (gpus \<noteq> [], \<lparr>ga_valid = (gpus \<noteq> []), ga_gpus = gpus\<rparr>))"
proof -
  have "length (filter P (take 32 xs)) \<le> 32" for P :: "rps_gpu_info \<Rightarrow> bool" and xs
    by (rule order_trans [OF length_filter_le]) simp
  then show ?thesis
    unfolding rps_gpu_proc_filter_runtime_init_def Let_def build_allowed_eq
      collect_mounted_minors_eq [OF assms(1)] collect_gpu_infos_eq [OF assms(2)]
    by (simp add: gpu_admitted_def [abs_def])
qed

section \<open>Properties\<close>

text \<open>
  C35. Path normalisation computes the lexical meaning of a path: for an absolute path of at
  most 64 segments, the result is the path of its segments with \<open>.\<close> dropped and each \<open>..\<close>
  removing the segment before it (none at the root), and it is refused exactly when it does
  not fit the caller's buffer.
\<close>

theorem normalize_path_resolves:
  assumes "p \<noteq> []" "hd p = SLASH" and "2 \<le> n" and "length (path_segments p) \<le> 64"
  shows "rps_gpu_proc_normalize_path (Some p) n = fits n (join_path (resolve (path_segments p)))"
  using assms resolve_capped_total [of "[]" "path_segments p"]
  by (simp add: normalize_path_eq resolve_def)

theorem normalize_path_resolves_witness:
  "rps_gpu_proc_normalize_path (Some ''/proc//self/.././driver/x/..'') 256 = Some ''/proc/driver''"
proof -
  let ?p = "''/proc//self/.././driver/x/..''"
  have "length (path_segments ?p) \<le> 64" by code_simp
  then have "rps_gpu_proc_normalize_path (Some ?p) 256 = fits 256 (join_path (resolve (path_segments ?p)))"
    by (intro normalize_path_resolves) simp_all
  also have "\<dots> = Some ''/proc/driver''" by code_simp
  finally show ?thesis .
qed

text \<open>
  C36. Whatever it is given, a path that normalises becomes canonical: it fits the buffer,
  it is built from at most 64 segments none of which is empty, \<open>.\<close> or \<open>..\<close>, and
  normalising it again changes nothing, so the filter's second normalisation is harmless.
\<close>

theorem normalize_path_canonical:
  assumes "rps_gpu_proc_normalize_path (Some p) n = Some q"
  shows "length q < n \<and> rps_gpu_proc_normalize_path (Some q) n = Some q \<and>
    (\<exists>r. q = join_path r \<and> length r \<le> 64 \<and> list_all proper_segment r)"
proof -
  obtain r where "q = join_path r" "length q < n" "\<forall>s \<in> set r. proper_segment s" "length r \<le> 64"
    using normalize_path_SomeD [OF assms] by metis
  with normalize_stable [OF assms] show ?thesis unfolding list_all_iff by blast
qed

theorem normalize_path_canonical_witness:
  "rps_gpu_proc_normalize_path (Some ''/proc/driver'') 256 = Some ''/proc/driver''"
proof -
  have "rps_gpu_proc_normalize_path (Some ''/proc/./driver'') 256 = Some ''/proc/driver''" by code_simp
  from normalize_path_canonical [OF this] show ?thesis by blast
qed

text \<open>
  C8. What is hidden, exactly: a path is denied just when the allowed set is known and the
  path, once normalised, is the directory or the \<open>information\<close> file of a GPU (a bus id of
  at most 31 bytes) that is not in the set. With no set, or an invalid one, nothing is
  denied.
\<close>

theorem gpu_path_denied_iff:
  "rps_gpu_proc_path_allowed allowed (Some p) = RPS_GPU_PROC_DENY \<longleftrightarrow>
     (\<exists>a bus. allowed = Some a \<and> ga_valid a \<and>
        bus \<noteq> [] \<and> SLASH \<notin> set bus \<and> length bus < RPS_GPU_PROC_BUS_ID_MAX \<and>
        rps_gpu_proc_normalize_path (Some p) RPS_GPU_PROC_PATH_MAX
          \<in> {Some (gpus_base @ ''/'' @ bus), Some (gpus_base @ ''/'' @ bus @ ''/'' @ info_name)} \<and>
        bus \<notin> gi_bus_id ` set (ga_gpus a))"
  unfolding path_denied_iff path_names_bus_def by auto

text \<open>Listing and opening agree.\<close>

lemma listing_agrees_with_paths:
  assumes "ga_valid a" and "name \<noteq> []" "SLASH \<notin> set name" "name \<noteq> ''.''" "name \<noteq> ''..''"
    and "length name < RPS_GPU_PROC_BUS_ID_MAX"
  shows "dirent_keep a name \<longleftrightarrow>
    rps_gpu_proc_path_allowed (Some a) (Some (gpus_base @ ''/'' @ name)) \<noteq> RPS_GPU_PROC_DENY"
proof -
  have name: "proper_segment name" using assms by (simp add: proper_segment_def)
  have "rps_gpu_proc_path_allowed (Some a) (Some (bus_dir name)) = RPS_GPU_PROC_DENY \<longleftrightarrow>
      name \<notin> gi_bus_id ` set (ga_gpus a)"
    using assms(1) by (simp add: path_denied_iff path_names_bus_dir [OF name assms(6)])
  then show ?thesis using assms by (simp add: dirent_keep_def contains_bus_iff)
qed

definition one_gpu :: rps_gpu_allowed_gpus where
  "one_gpu = \<lparr>ga_valid = True, ga_gpus = [\<lparr>gi_present = True, gi_device_minor = 0,
     gi_bus_id = ''0000:01:00.0'', gi_uuid = ''GPU-1''\<rparr>]\<rparr>"

text \<open>
  C33. The \<open>information\<close> parser reads back what the driver prints: from a file whose lines
  are the three fields of a GPU (blanks and a carriage return around the values allowed),
  each at least once and in any order, between unrelated lines, it recovers the minor, the
  bus id and the UUID.
\<close>

theorem information_roundtrip:
  assumes "printable_info i"
    and "\<forall>l \<in> set ls. LF \<notin> set l \<and> driver_line i l"
    and "\<exists>l \<in> set ls. starts_with l uuid_key" "\<exists>l \<in> set ls. starts_with l bus_key"
    and "\<exists>l \<in> set ls. starts_with l minor_key"
  shows "rps_gpu_parse_gpu_information path (Some (concat (map (\<lambda>l. l @ [LF]) ls))) = (True, i)"
proof -
  have "gpu_information_loop (True, rps_gpu_zero_info) (concat (map (\<lambda>l. l @ [LF]) ls)) =
      (True, \<lparr>gi_present = False, gi_device_minor = gi_device_minor i, gi_bus_id = gi_bus_id i,
        gi_uuid = gi_uuid i\<rparr>)"
    using assms information_loop_lines [of ls] driver_lines_fold [OF assms(1), of ls rps_gpu_zero_info]
    by (simp add: rps_gpu_zero_info_def)
  moreover have "gi_present i" "0 \<le> gi_device_minor i" "gi_bus_id i \<noteq> []"
    using assms(1) by (simp_all add: printable_info_def)
  ultimately show ?thesis
    by (simp add: rps_gpu_parse_gpu_information_def)
qed

theorem information_roundtrip_witness:
  "rps_gpu_parse_gpu_information None (Some (concat (map (\<lambda>l. l @ [LF])
     [''Model: H100'', ''GPU UUID: GPU-1'', ''Bus Location: 0000:01:00.0'' @ [CR], ''Device Minor: 3'']))) =
   (True, \<lparr>gi_present = True, gi_device_minor = 3, gi_bus_id = ''0000:01:00.0'', gi_uuid = ''GPU-1''\<rparr>)"
proof -
  let ?i = "\<lparr>gi_present = True, gi_device_minor = 3, gi_bus_id = ''0000:01:00.0'', gi_uuid = ''GPU-1''\<rparr>"
  let ?ls = "[''Model: H100'', ''GPU UUID: GPU-1'', ''Bus Location: 0000:01:00.0'' @ [CR], ''Device Minor: 3'']"
  have field: "field_line key v (key @ '' '' @ v)" "field_line key v (key @ '' '' @ v @ [CR])" for key v
    unfolding field_line_def
    by (rule exI [of _ "'' ''"], rule exI [of _ "[]"], simp add: blank_text_def is_blank_def)
       (rule exI [of _ "'' ''"], rule exI [of _ "[CR]"], simp add: blank_text_def is_blank_def)
  have "printable_info ?i" by (simp add: printable_info_def trimmed_def is_blank_def)
  moreover have "driver_line ?i ''Model: H100''" by (simp add: driver_line_def starts_with_def)
  moreover have "driver_line ?i ''GPU UUID: GPU-1''"
    using field(1) [of uuid_key "gi_uuid ?i"] by (simp add: driver_line_def)
  moreover have "driver_line ?i (''Bus Location: 0000:01:00.0'' @ [CR])"
    using field(2) [of bus_key "gi_bus_id ?i"] by (simp add: driver_line_def)
  moreover have "driver_line ?i ''Device Minor: 3''"
    using field(1) [of minor_key "show_nat 3"]
    by (simp add: driver_line_def show_nat.simps char_of_def bit_0)
  ultimately show ?thesis
    by (intro information_roundtrip) (simp_all add: starts_with_def)
qed

text \<open>A line whose value cannot be right.\<close>

definition bad_line :: "string \<Rightarrow> bool" where
  "bad_line l \<longleftrightarrow> (\<exists>v. trimmed v \<and>
     (field_line uuid_key v l \<and> length v \<ge> RPS_GPU_PROC_UUID_MAX \<or>
      field_line bus_key v l \<and> (v = [] \<or> length v \<ge> RPS_GPU_PROC_BUS_ID_MAX) \<or>
      field_line minor_key v l \<and> (v = [] \<or> \<not> all_digits v \<or> dec_from 0 v > 2147483647)))"

lemma parse_nonnegative_int_rejects:
  "rps_gpu_parse_nonnegative_int v = None \<longleftrightarrow> v = [] \<or> \<not> all_digits v \<or> dec_from 0 v > 2147483647"
  using nonneg_int.loop_eq [of 0 v] by (auto simp: rps_gpu_parse_nonnegative_int_def split: if_splits)

text \<open>
  C34. A malformed value is never half accepted: if any line has a UUID of 96 characters or
  more, an empty bus id or one of 32 characters or more, or a device minor that is empty, has a
  character other than a digit, or is a decimal number above 2147483647, the whole file is
  rejected, whatever the other lines say.
\<close>

theorem information_rejects_malformed:
  assumes "\<forall>l \<in> set ls. LF \<notin> set l" and "l \<in> set ls" and "bad_line l"
  shows "\<not> fst (rps_gpu_parse_gpu_information path (Some (concat (map (\<lambda>l. l @ [LF]) ls))))"
proof (rule parse_information_sticky [OF assms(1,2)])
  fix st :: "bool \<times> rps_gpu_info"
  obtain ok info where "st = (ok, info)" by fastforce
  with assms(3) show "\<not> fst (gpu_information_line l st)"
    unfolding bad_line_def parse_nonnegative_int_rejects [symmetric]
    by (auto simp: information_line_uuid information_line_bus information_line_minor)
qed

theorem information_rejects_malformed_witness:
  "\<not> fst (rps_gpu_parse_gpu_information None (Some (concat (map (\<lambda>l. l @ [LF])
     [''Bus Location: 0000:01:00.0'', ''Device Minor: 1'', ''Device Minor: 2147483648'']))))"
proof (rule information_rejects_malformed)
  have "field_line minor_key ''2147483648'' ''Device Minor: 2147483648''"
    unfolding field_line_def
    by (rule exI [of _ "'' ''"], rule exI [of _ "[]"]) (simp add: blank_text_def is_blank_def)
  moreover have "trimmed ''2147483648''" by (simp add: trimmed_def is_blank_def)
  moreover have "dec_from 0 ''2147483648'' > 2147483647" by (simp add: digit_val_def)
  ultimately show "bad_line ''Device Minor: 2147483648''" unfolding bad_line_def by blast
qed simp_all

text \<open>
  C12. The allowed set is the right one: on directories whose buffers hold well-formed
  records, initialisation allows exactly the GPUs whose \<open>information\<close> file was read and
  parsed, whose minor is the number of an \<open>nvidia<N>\<close> entry of \<open>/dev\<close> and, where a UUID is
  asked for, whose UUID is that one (at most 32 of each, the first ones), and the filter is
  active exactly when there is one.
\<close>

theorem runtime_init_allows_mounted:
  assumes "lists_names (sys_dev sys) dev_names" and "lists_names (sys_gpus sys) gpu_names"
  shows "rps_gpu_proc_filter_runtime_init sys uuid =
    (let minors = take 32 (List.map_filter rps_gpu_name_is_nvidia_minor dev_names);
         infos = take 32 (List.map_filter (gpu_info_of sys) gpu_names);
         gpus = filter (\<lambda>i. gi_present i \<and> gi_device_minor i \<in> set minors \<and>
                          (uuid \<in> {None, Some []} \<or> uuid = Some (gi_uuid i))) infos in
     (gpus \<noteq> [], \<lparr>ga_valid = (gpus \<noteq> []), ga_gpus = gpus\<rparr>))"
  using assms by (rule runtime_init_eq)

lemma dirent_keep_iff:
  "ga_valid a \<Longrightarrow> dirent_keep a name \<longleftrightarrow>
     name \<in> {''.'', ''..''} \<union> (gi_bus_id ` set (ga_gpus a) - {[]})"
  by (auto simp: dirent_keep_def contains_bus_iff)

text \<open>
  C24. The \<open>getdents64\<close> filter keeps exactly the right records: on a buffer of well-formed
  records followed by any bytes, what is returned is the concatenation of the records whose
  name is \<open>.\<close>, \<open>..\<close> or the bus id of an allowed GPU, unchanged and in order, with their total
  length; the bytes behind the kernel's data are untouched.
\<close>

theorem dirent_filter_exact:
  assumes "ga_valid a" and "\<forall>r \<in> set rs. dirent_ok r"
    and "kept = filter (\<lambda>r. dirent_name r \<in> {''.'', ''..''} \<union> (gi_bus_id ` set (ga_gpus a) - {[]})) rs"
  shows "\<exists>rest. rps_gpu_filter_dirent64_buffer (Some (concat rs @ post)) (int (length (concat rs))) (Some a) =
    (Some (concat kept @ rest @ post), int (length (concat kept)))"
proof (cases "rs = []")
  case True
  then show ?thesis using assms(3)
    by (intro exI [of _ "[]"]) (simp add: rps_gpu_filter_dirent64_buffer_def)
next
  case False
  then have "0 < length (concat rs)" using assms(2) dirent_ok_length by (cases rs) auto
  moreover have "kept_records a rs = concat kept"
    by (simp only: kept_records_def assms(3) dirent_keep_iff [OF assms(1)])
  ultimately show ?thesis using assms(1) dirent64_loop_records [OF assms(2), of a "[]" "[]" post]
    by (auto simp: rps_gpu_filter_dirent64_buffer_def)
qed

text \<open>
  C37. Memory safety of the compaction, for every byte content: the buffer keeps its size,
  no byte behind the kernel's data changes, and the length returned is between 0 and the
  length given (a length that is not positive is passed through).
\<close>

theorem dirent_filter_bounds:
  assumes "len \<le> int (length buf)"
    and "rps_gpu_filter_dirent64_buffer (Some buf) len allowed = (Some buf', n)"
  shows "length buf' = length buf \<and> drop (nat len) buf' = drop (nat len) buf \<and> n \<le> len \<and>
    (0 \<le> len \<longrightarrow> 0 \<le> n)"
proof (cases "\<exists>a. allowed = Some a \<and> ga_valid a \<and> 0 < len")
  case True
  then obtain a where a: "allowed = Some a" "ga_valid a" "0 < len" by blast
  obtain b m where b: "dirent64_loop a (nat len) buf 0 0 = (b, m)" by fastforce
  with a assms(2) have "buf' = b" "n = int m" by (simp_all add: rps_gpu_filter_dirent64_buffer_def)
  with dirent64_loop_bounds [OF _ _ _ b] assms(1) a(3) show ?thesis by (auto simp: le_nat_iff)
next
  case False
  with assms(2) show ?thesis
    by (auto simp: rps_gpu_filter_dirent64_buffer_def split: option.splits if_splits)
qed

section \<open>Witnesses on concrete directories\<close>

text \<open>A record as the kernel writes it, for a short name: inode and offset 0, its length, a type.\<close>

definition dirent_of :: "string \<Rightarrow> string" where
  "dirent_of name = replicate 16 NUL @ [char_of (20 + length name), NUL, CHR 0x04] @ name @ [NUL]"

lemma dirent_of_ok: "length name < 200 \<Longrightarrow> NUL \<notin> set name \<Longrightarrow>
    dirent_ok (dirent_of name) \<and> dirent_name (dirent_of name) = name"
proof -
  assume name: "length name < 200" "NUL \<notin> set name"
  then have "cstr (name @ [NUL]) = name"
    by (subst cstr_def, subst takeWhile_append2) auto
  with name show ?thesis
    by (simp add: dirent_ok_def dirent_of_def dirent_name_def d_reclen_def byte_at_def nth_append)
qed

definition dir_of :: "string list \<Rightarrow> dir_reads" where
  "dir_of names = (let buf = concat (map dirent_of names) in Some [(int (length buf), buf)])"

lemma dir_of_lists:
  assumes "names \<noteq> []" and "\<forall>name \<in> set names. length name < 200 \<and> NUL \<notin> set name"
  shows "lists_names (dir_of names) names"
proof -
  have "map dirent_name (map dirent_of names) = names"
    using assms(2) dirent_of_ok by (simp add: map_idI)
  then show ?thesis
    using assms dirent_of_ok unfolding lists_names_def
    by (intro exI [of _ "[(int (length (concat (map dirent_of names))), concat (map dirent_of names))]"]
          exI [of _ "[map dirent_of names]"])
      (simp add: dir_of_def Let_def chunk_holds_def)
qed

definition fixture_sys :: gpu_sys where
  "fixture_sys = \<lparr>
     sys_dev = dir_of [''null'', ''nvidia0''],
     sys_gpus = dir_of [''0000:01:00.0'', ''0000:02:00.0''],
     sys_file = (\<lambda>p.
       if p = gpus_base @ ''/0000:01:00.0/information'' then Some [Some (''Device Minor: 0'' @ [LF])]
       else if p = gpus_base @ ''/0000:02:00.0/information'' then Some [Some (''Device Minor: 1'' @ [LF])]
       else None)\<rparr>"

lemma fixture_reads:
  "lists_names (sys_dev fixture_sys) [''null'', ''nvidia0'']"
  "lists_names (sys_gpus fixture_sys) [''0000:01:00.0'', ''0000:02:00.0'']"
  "List.map_filter (gpu_info_of fixture_sys) [''0000:01:00.0'', ''0000:02:00.0''] =
      [\<lparr>gi_present = True, gi_device_minor = 0, gi_bus_id = ''0000:01:00.0'', gi_uuid = []\<rparr>,
       \<lparr>gi_present = True, gi_device_minor = 1, gi_bus_id = ''0000:02:00.0'', gi_uuid = []\<rparr>]"
  "List.map_filter rps_gpu_name_is_nvidia_minor [''null'', ''nvidia0''] = [0]"
  by (simp add: fixture_sys_def dir_of_lists, simp add: fixture_sys_def dir_of_lists, code_simp, code_simp)

theorem runtime_init_allows_mounted_witness:
  "rps_gpu_proc_filter_runtime_init fixture_sys None =
     (True, \<lparr>ga_valid = True, ga_gpus = [\<lparr>gi_present = True, gi_device_minor = 0,
        gi_bus_id = ''0000:01:00.0'', gi_uuid = []\<rparr>]\<rparr>)"
  unfolding runtime_init_allows_mounted [OF fixture_reads(1,2)] fixture_reads(3,4)
  by (simp add: Let_def)

theorem dirent_filter_exact_witness:
  "\<exists>rest. rps_gpu_filter_dirent64_buffer
      (Some (dirent_of ''.'' @ dirent_of ''..'' @ dirent_of ''0000:02:00.0'' @ dirent_of ''0000:01:00.0'')) 107
      (Some one_gpu) =
    (Some (dirent_of ''.'' @ dirent_of ''..'' @ dirent_of ''0000:01:00.0'' @ rest), 75)"
proof -
  let ?rs = "[dirent_of ''.'', dirent_of ''..'', dirent_of ''0000:02:00.0'', dirent_of ''0000:01:00.0'']"
  let ?kept = "[dirent_of ''.'', dirent_of ''..'', dirent_of ''0000:01:00.0'']"
  have valid: "ga_valid one_gpu" by (simp add: one_gpu_def)
  have ok: "\<forall>r \<in> set ?rs. dirent_ok r" by (simp add: dirent_of_ok)
  have kept: "?kept =
      filter (\<lambda>r. dirent_name r \<in> {''.'', ''..''} \<union> (gi_bus_id ` set (ga_gpus one_gpu) - {[]})) ?rs"
    by (simp add: dirent_of_ok one_gpu_def)
  show ?thesis
    using dirent_filter_exact [OF valid ok kept, of "[]"] by (simp add: dirent_of_def)
qed

theorem dirent_filter_bounds_witness:
  "\<exists>buf' n. rps_gpu_filter_dirent64_buffer (Some ''not a record at all'') 10 (Some one_gpu) = (Some buf', n) \<and>
     length buf' = 19 \<and> drop 10 buf' = ''rd at all'' \<and> 0 \<le> n \<and> n \<le> 10"
proof -
  have "rps_gpu_filter_dirent64_buffer (Some ''not a record at all'') 10 (Some one_gpu) =
      (Some ''not a record at all'', 10)" by code_simp
  from dirent_filter_bounds [OF _ this] this show ?thesis by simp
qed

end
