(* ===== verification/Gpu_Fd_Tracker.thy ===== *)
theory Gpu_Fd_Tracker
  imports Gpu_Proc_Filter
begin

text \<open>
  The table of tracked GPU descriptors (\<open>gpu/fd_tracker.c\<close>): what a path is
  (\<open>rps_gpu_classify_path\<close>) and the list of the descriptors opened on such paths, newest
  first. The list is a value here; \<open>Gpu_Fd_List_Heap\<close> has the same operations on nodes in
  memory and proves them equal. Each operation holds the lock for its whole duration. Whether \<open>malloc\<close> succeeds is an argument of the
  operations that call it.
\<close>

section \<open>Data\<close>

datatype rps_gpu_fd_kind =
    RPS_GPU_FD_OTHER
  | RPS_GPU_FD_NVIDIA_CTL
  | RPS_GPU_FD_NVIDIA_DEVICE
  | RPS_GPU_FD_NVIDIA_UVM
  | RPS_GPU_FD_PROC_GPUS_DIR
  | RPS_GPU_FD_PROC_GPU_BUS_DIR
  | RPS_GPU_FD_PROC_GPU_INFO

abbreviation RPS_GPU_PATH_MAX :: nat where "RPS_GPU_PATH_MAX \<equiv> 256"
abbreviation RPS_GPU_BUS_ID_MAX :: nat where "RPS_GPU_BUS_ID_MAX \<equiv> 32"

record rps_gpu_fd_record =
  fr_kind :: rps_gpu_fd_kind
  fr_device_minor :: int
  fr_path :: string
  fr_bus_id :: string

section \<open>Classification\<close>

text \<open>The destination holds the string, cut to what fits with its NUL.\<close>

definition rps_gpu_copy_string :: "nat \<Rightarrow> string option \<Rightarrow> string" where
  "rps_gpu_copy_string dst_size src =
     (case src of
        None \<Rightarrow> []
      | Some s \<Rightarrow> if length s \<ge> dst_size then take (dst_size - 1) s else s)"

definition rps_gpu_copy_slice :: "nat \<Rightarrow> string \<Rightarrow> string" where
  "rps_gpu_copy_slice dst_size src =
     (if length src \<ge> dst_size then take (dst_size - 1) src else src)"

fun dev_minor_loop :: "int \<Rightarrow> string \<Rightarrow> int option" where
  "dev_minor_loop v [] = Some v"
| "dev_minor_loop v (c # s) =
     (if \<not> is_digit c then None
      else let digit = int (digit_val c) in
           if v > (INT_MAX - digit) div 10 then None
           else dev_minor_loop (v * 10 + digit) s)"

definition rps_gpu_parse_nvidia_minor :: "string \<Rightarrow> int option" where
  "rps_gpu_parse_nvidia_minor path =
     (let prefix = ''/dev/nvidia'' in
      if \<not> starts_with path prefix then None
      else let cursor = drop (length prefix) path in
           if cursor = [] \<or> \<not> is_digit (hd cursor) then None
           else dev_minor_loop 0 cursor)"

definition rps_gpu_classify_proc_gpu_path ::
    "string \<Rightarrow> rps_gpu_fd_record \<Rightarrow> bool \<times> rps_gpu_fd_record" where
  "rps_gpu_classify_proc_gpu_path path r =
     (case rps_gpu_proc_normalize_path (Some path) RPS_GPU_PROC_PATH_MAX of
        None \<Rightarrow> (False, r)
      | Some normalized \<Rightarrow>
          if normalized = gpus_base
          then (True, r\<lparr>fr_kind := RPS_GPU_FD_PROC_GPUS_DIR,
                        fr_path := rps_gpu_copy_string RPS_GPU_PATH_MAX (Some normalized)\<rparr>)
          else if \<not> starts_with normalized gpus_base
                  \<or> take 1 (drop (length gpus_base) normalized) \<noteq> [SLASH]
          then (False, r)
          else
            let rest = drop (length gpus_base + 1) normalized;
                slash = strchr SLASH rest;
                bus = (case slash of None \<Rightarrow> rest | Some (before, _) \<Rightarrow> before) in
            if bus = [] \<or> length bus \<ge> RPS_GPU_BUS_ID_MAX then (False, r)
            else (case slash of
                    None \<Rightarrow>
                      (True, r\<lparr>fr_kind := RPS_GPU_FD_PROC_GPU_BUS_DIR,
                               fr_bus_id := rps_gpu_copy_slice RPS_GPU_BUS_ID_MAX bus,
                               fr_path := rps_gpu_copy_string RPS_GPU_PATH_MAX (Some normalized)\<rparr>)
                  | Some (_, after) \<Rightarrow>
                      if after = info_name
                      then (True, r\<lparr>fr_kind := RPS_GPU_FD_PROC_GPU_INFO,
                                    fr_bus_id := rps_gpu_copy_slice RPS_GPU_BUS_ID_MAX bus,
                                    fr_path := rps_gpu_copy_string RPS_GPU_PATH_MAX (Some normalized)\<rparr>)
                      else (False, r)))"

definition rps_gpu_classify_path :: "string option \<Rightarrow> bool \<times> rps_gpu_fd_record" where
  "rps_gpu_classify_path path =
     (let r = \<lparr>fr_kind = RPS_GPU_FD_OTHER, fr_device_minor = -1,
               fr_path = rps_gpu_copy_string RPS_GPU_PATH_MAX path, fr_bus_id = []\<rparr> in
      case path of
        None \<Rightarrow> (False, r)
      | Some p \<Rightarrow>
          if p = ''/dev/nvidiactl'' then (True, r\<lparr>fr_kind := RPS_GPU_FD_NVIDIA_CTL\<rparr>)
          else if p = ''/dev/nvidia-uvm'' then (True, r\<lparr>fr_kind := RPS_GPU_FD_NVIDIA_UVM\<rparr>)
          else (case rps_gpu_parse_nvidia_minor p of
                  Some minor \<Rightarrow>
                    (True, r\<lparr>fr_kind := RPS_GPU_FD_NVIDIA_DEVICE, fr_device_minor := minor\<rparr>)
                | None \<Rightarrow> rps_gpu_classify_proc_gpu_path p r))"

section \<open>The list of descriptors\<close>

type_synonym gpu_fd_list = "(int \<times> rps_gpu_fd_record) list"

definition rps_gpu_fd_map_clear :: "gpu_fd_list \<Rightarrow> gpu_fd_list" where
  "rps_gpu_fd_map_clear ns = []"

definition rps_gpu_fd_map_set ::
    "bool \<Rightarrow> int \<Rightarrow> rps_gpu_fd_record option \<Rightarrow> gpu_fd_list \<Rightarrow> gpu_fd_list" where
  "rps_gpu_fd_map_set malloc_ok fd r ns =
     (case r of
        None \<Rightarrow> ns
      | Some r \<Rightarrow>
          if fd < 0 then ns
          else (case find_index (\<lambda>n. fst n = fd) ns of
                  Some i \<Rightarrow> ns[i := (fd, r)]
                | None \<Rightarrow> if malloc_ok then (fd, r) # ns else ns))"

definition rps_gpu_fd_map_get :: "int \<Rightarrow> gpu_fd_list \<Rightarrow> rps_gpu_fd_record option" where
  "rps_gpu_fd_map_get fd ns =
     (if fd < 0 then None
      else map_option (\<lambda>i. snd (ns ! i)) (find_index (\<lambda>n. fst n = fd) ns))"

fun unlink_first :: "int \<Rightarrow> gpu_fd_list \<Rightarrow> gpu_fd_list" where
  "unlink_first fd [] = []"
| "unlink_first fd (n # ns) = (if fst n = fd then ns else n # unlink_first fd ns)"

definition rps_gpu_fd_map_remove :: "int \<Rightarrow> gpu_fd_list \<Rightarrow> gpu_fd_list" where
  "rps_gpu_fd_map_remove fd ns = (if fd < 0 then ns else unlink_first fd ns)"

text \<open>The loop of \<open>rps_gpu_fd_map_copy\<close> has no break: the last match stays.\<close>

fun find_last :: "('a \<Rightarrow> bool) \<Rightarrow> nat \<Rightarrow> 'a list \<Rightarrow> nat option \<Rightarrow> nat option" where
  "find_last p i [] found = found"
| "find_last p i (x # xs) found = find_last p (Suc i) xs (if p x then Some i else found)"

definition rps_gpu_fd_map_copy :: "bool \<Rightarrow> int \<Rightarrow> int \<Rightarrow> gpu_fd_list \<Rightarrow> gpu_fd_list" where
  "rps_gpu_fd_map_copy malloc_ok oldfd newfd ns =
     (if oldfd < 0 \<or> newfd < 0 then ns
      else
        let old_node = find_last (\<lambda>n. fst n = oldfd) 0 ns None;
            new_node = find_last (\<lambda>n. fst n = newfd) 0 ns None in
        case old_node of
          Some i \<Rightarrow>
            (case new_node of
               None \<Rightarrow> if malloc_ok then (newfd, snd (ns ! i)) # ns else ns
             | Some j \<Rightarrow> ns[j := (newfd, snd (ns ! i))])
        | None \<Rightarrow>
            (case new_node of
               None \<Rightarrow> ns
             | Some j \<Rightarrow> take j ns @ drop (Suc j) ns))"

text \<open>The invariant: no descriptor twice, none negative.\<close>

definition gpu_fds_ok :: "gpu_fd_list \<Rightarrow> bool" where
  "gpu_fds_ok ns \<longleftrightarrow> distinct (map fst ns) \<and> (\<forall>n \<in> set ns. 0 \<le> fst n)"

section \<open>Lemmas\<close>

interpretation dev_minor: bounded_decimal 2147483647 "\<lambda>v s. map_option nat (dev_minor_loop (int v) s)"
proof unfold_locales
  fix v :: nat and c s
  show "map_option nat (dev_minor_loop (int v) (c # s)) =
      (if \<not> is_digit c then None else if (2147483647 - digit_val c) div 10 < v then None
       else map_option nat (dev_minor_loop (int (v * 10 + digit_val c)) s))"
    using int_digit_guard [OF digit_val_le, of c v] by (simp add: Let_def)
qed simp_all

lemma dev_minor_loop_nonneg: "dev_minor_loop v s = Some m \<Longrightarrow> 0 \<le> v \<Longrightarrow> 0 \<le> m"
  by (induction v s rule: dev_minor_loop.induct) (auto simp: Let_def split: if_splits)

lemma minor_loops_agree: "dev_minor_loop 0 s = name_minor_loop 0 s"
proof -
  have "map_option nat (dev_minor_loop (int 0) s) = map_option nat (name_minor_loop (int 0) s)"
    by (simp only: dev_minor.loop_eq name_minor.loop_eq le0)
  then show ?thesis
    using dev_minor_loop_nonneg [of 0 s] name_minor_loop_nonneg [of 0 s]
    by (cases "dev_minor_loop 0 s"; cases "name_minor_loop 0 s") auto
qed

lemma find_index_nth: "find_index p xs = Some i \<Longrightarrow> i < length xs \<and> p (xs ! i)"
  by (simp add: find_index_Some_iff)

lemma find_index_map_of:
  "map_option (\<lambda>i. snd (ns ! i)) (find_index (\<lambda>n. fst n = fd) ns) = map_of ns fd"
  by (induction ns) (auto simp: option.map_comp comp_def)

lemma find_index_update:
  assumes "find_index (\<lambda>n. fst n = fd) ns = Some i"
  shows "map fst (ns[i := (fd, r)]) = map fst ns" "map_of (ns[i := (fd, r)]) = (map_of ns)(fd \<mapsto> r)"
proof -
  from find_index_nth [OF assms] have i: "i < length ns" "fst (ns ! i) = fd" by auto
  show "map fst (ns[i := (fd, r)]) = map fst ns"
    using i by (simp add: map_update list_update_same_conv)
  show "map_of (ns[i := (fd, r)]) = (map_of ns)(fd \<mapsto> r)"
    using assms
  proof (induction ns arbitrary: i)
    case Nil
    then show ?case by simp
  next
    case (Cons n ns)
    then show ?case by (cases n) (auto split: if_splits)
  qed
qed

lemma find_last_app:
  "find_last p i xs found =
     (case find_last p 0 xs None of None \<Rightarrow> found | Some k \<Rightarrow> Some (i + k))"
proof (induction xs arbitrary: i found)
  case Nil
  then show ?case by simp
next
  case (Cons x xs)
  show ?case
    using Cons [of "Suc i"] Cons [of "Suc 0"] by (auto split: option.split)
qed

lemma find_last_distinct:
  "distinct (map fst ns) \<Longrightarrow>
     find_last (\<lambda>n. fst n = fd) 0 ns None = find_index (\<lambda>n. fst n = fd) ns"
proof (induction ns)
  case Nil
  then show ?case by simp
next
  case (Cons n ns)
  have "find_index (\<lambda>m. fst m = fst n) ns = None"
    using Cons.prems by (auto simp: find_index_None_iff) (metis fst_conv image_eqI)
  with Cons find_last_app [of "\<lambda>n. fst n = fd" "Suc 0" ns] show ?case
    by (auto split: option.split)
qed

lemma unlink_first_map_of:
  "distinct (map fst ns) \<Longrightarrow>
     map_of (unlink_first fd ns) = (map_of ns)(fd := None) \<and>
     set (unlink_first fd ns) \<subseteq> set ns \<and> distinct (map fst (unlink_first fd ns))"
proof (induction ns)
  case Nil
  then show ?case by auto
next
  case (Cons n ns)
  obtain k v where n: "n = (k, v)" by (cases n)
  show ?case
  proof (cases "k = fd")
    case True
    with Cons.prems n have "map_of ns fd = None" by (simp add: map_of_eq_None_iff)
    with True Cons.prems n show ?thesis by auto
  next
    case False
    have "fst ` set (unlink_first fd ns) \<subseteq> fst ` set ns" using Cons by (simp add: image_mono)
    with False Cons n show ?thesis by auto
  qed
qed

lemma drop_index_unlink:
  "find_index (\<lambda>n. fst n = fd) ns = Some j \<Longrightarrow> take j ns @ drop (Suc j) ns = unlink_first fd ns"
  by (induction ns arbitrary: j) (auto split: if_splits)

lemma tracker_get_eq: "gpu_fds_ok ns \<Longrightarrow> rps_gpu_fd_map_get fd ns = map_of ns fd"
proof -
  assume "gpu_fds_ok ns"
  then have "map_of ns fd = None" if "fd < 0"
    using that by (auto simp: gpu_fds_ok_def map_of_eq_None_iff)
  then show ?thesis by (simp add: rps_gpu_fd_map_get_def find_index_map_of)
qed

lemma tracker_set_ok: "gpu_fds_ok ns \<Longrightarrow> gpu_fds_ok (rps_gpu_fd_map_set m fd r ns)"
proof -
  assume ok: "gpu_fds_ok ns"
  have upd: "gpu_fds_ok (ns[i := (fd, r)])" if "find_index (\<lambda>n. fst n = fd) ns = Some i" for i r
    using ok find_index_update(1) [OF that, of r] find_index_nth [OF that]
    by (auto simp: gpu_fds_ok_def dest!: set_update_subset_insert [THEN subsetD])
  have new: "gpu_fds_ok ((fd, r) # ns)" if "find_index (\<lambda>n. fst n = fd) ns = None" "0 \<le> fd" for r
    using ok that by (auto simp: gpu_fds_ok_def find_index_None_iff)
  show ?thesis
    using ok upd new by (auto simp: rps_gpu_fd_map_set_def not_less split: option.split)
qed

lemma tracker_set_lookup:
  assumes "gpu_fds_ok ns" "0 \<le> fd"
  shows "map_of (rps_gpu_fd_map_set m fd (Some r) ns) =
    (if m \<or> map_of ns fd \<noteq> None then (map_of ns)(fd \<mapsto> r) else map_of ns)"
proof (cases "find_index (\<lambda>n. fst n = fd) ns")
  case None
  then have "map_of ns fd = None" using find_index_map_of [of ns fd] by simp
  with None assms show ?thesis by (simp add: rps_gpu_fd_map_set_def)
next
  case (Some i)
  then have "map_of ns fd \<noteq> None" by (simp add: find_index_map_of [symmetric])
  with Some assms find_index_update(2) [OF Some] show ?thesis
    by (simp add: rps_gpu_fd_map_set_def)
qed

lemma tracker_remove_lookup:
  assumes "gpu_fds_ok ns"
  shows "gpu_fds_ok (rps_gpu_fd_map_remove fd ns) \<and>
    map_of (rps_gpu_fd_map_remove fd ns) = (map_of ns)(fd := None)"
proof (cases "fd < 0")
  case True
  with assms have "map_of ns fd = None" by (auto simp: gpu_fds_ok_def map_of_eq_None_iff)
  with True assms show ?thesis by (auto simp: rps_gpu_fd_map_remove_def)
next
  case False
  with assms unlink_first_map_of [of ns fd] show ?thesis
    by (auto simp: rps_gpu_fd_map_remove_def gpu_fds_ok_def)
qed

lemma tracker_copy_eq:
  assumes ok: "gpu_fds_ok ns" and fds: "0 \<le> oldfd" "0 \<le> newfd"
  shows "rps_gpu_fd_map_copy m oldfd newfd ns =
    (case map_of ns oldfd of
       None \<Rightarrow> rps_gpu_fd_map_remove newfd ns
     | Some r \<Rightarrow> rps_gpu_fd_map_set m newfd (Some r) ns)"
proof -
  have d: "distinct (map fst ns)" using ok by (simp add: gpu_fds_ok_def)
  have unlinked: "unlink_first newfd ns = ns" if "find_index (\<lambda>n. fst n = newfd) ns = None"
    using that by (induction ns) (auto split: if_splits)
  show ?thesis
    using fds unlinked
    by (auto simp: rps_gpu_fd_map_copy_def find_last_distinct [OF d] rps_gpu_fd_map_set_def
        rps_gpu_fd_map_remove_def drop_index_unlink find_index_map_of [symmetric]
        split: option.split)
qed

text \<open>The interface of the descriptor tables.\<close>

definition gpu_fds_store :: "bool \<Rightarrow> int \<Rightarrow> rps_gpu_fd_record \<Rightarrow> gpu_fd_list \<Rightarrow> gpu_fd_list" where
  "gpu_fds_store malloc_ok fd r ns = rps_gpu_fd_map_set malloc_ok fd (Some r) ns"

interpretation gt: fd_table_store gpu_fds_ok map_of rps_gpu_fd_map_remove gpu_fds_store
proof unfold_locales
  fix ns :: gpu_fd_list and fd m r
  assume ok: "gpu_fds_ok ns"
  show "gpu_fds_ok (rps_gpu_fd_map_remove fd ns)"
    "map_of (rps_gpu_fd_map_remove fd ns) = (map_of ns)(fd := None)"
    using tracker_remove_lookup [OF ok] by simp_all
  show "fd < 0 \<Longrightarrow> map_of ns fd = None"
    using ok by (auto simp: gpu_fds_ok_def map_of_eq_None_iff)
  show "gpu_fds_ok (gpu_fds_store m fd r ns)" by (simp add: gpu_fds_store_def tracker_set_ok ok)
  show "map_of (gpu_fds_store m fd r ns) = (map_of ns)(fd \<mapsto> r) \<or> gpu_fds_store m fd r ns = ns"
  proof (cases "fd < 0")
    case True
    then show ?thesis by (simp add: gpu_fds_store_def rps_gpu_fd_map_set_def)
  next
    case False
    then have "m \<or> find_index (\<lambda>n. fst n = fd) ns \<noteq> None \<or> gpu_fds_store m fd r ns = ns"
      by (auto simp: gpu_fds_store_def rps_gpu_fd_map_set_def split: option.splits)
    moreover have "map_of ns fd \<noteq> None" if "find_index (\<lambda>n. fst n = fd) ns \<noteq> None"
      using that by (simp add: find_index_map_of [symmetric])
    ultimately show ?thesis
      using tracker_set_lookup [OF ok, of fd m r] False by (auto simp: gpu_fds_store_def)
  qed
qed

section \<open>Classification: lemmas\<close>

lemma copy_string_fits: "length s < n \<Longrightarrow> rps_gpu_copy_string n (Some s) = s"
  by (simp add: rps_gpu_copy_string_def)

lemma copy_slice_fits: "length s < n \<Longrightarrow> rps_gpu_copy_slice n s = s"
  by (simp add: rps_gpu_copy_slice_def)

text \<open>The tracker and the filter take a path apart in the same way.\<close>

lemma classify_proc_eq:
  "rps_gpu_classify_proc_gpu_path p r =
     (case rps_gpu_proc_normalize_path (Some p) RPS_GPU_PROC_PATH_MAX of
        None \<Rightarrow> (False, r)
      | Some q \<Rightarrow>
          if q = gpus_base then (True, r\<lparr>fr_kind := RPS_GPU_FD_PROC_GPUS_DIR, fr_path := q\<rparr>)
          else let (ok, bus, d, i) = rps_gpu_extract_proc_bus_kind (Some p) [] RPS_GPU_PROC_BUS_ID_MAX in
               if ok then (True, r\<lparr>fr_kind := if i then RPS_GPU_FD_PROC_GPU_INFO
                                              else RPS_GPU_FD_PROC_GPU_BUS_DIR,
                                   fr_bus_id := bus, fr_path := q\<rparr>)
               else (False, r))"
proof (cases "rps_gpu_proc_normalize_path (Some p) RPS_GPU_PROC_PATH_MAX")
  case None
  then show ?thesis by (simp add: rps_gpu_classify_proc_gpu_path_def)
next
  case (Some q)
  have len: "length q < RPS_GPU_PATH_MAX" using normalize_path_SomeD [OF Some] by blast
  show ?thesis
    unfolding rps_gpu_classify_proc_gpu_path_def rps_gpu_extract_proc_bus_kind_def Some
      option.case Let_def rps_gpu_copy_slice_exact_def copy_string_fits [OF len]
    by (cases "strchr SLASH (drop (length gpus_base + 1) q)")
      (auto simp add: copy_slice_fits simp del: strchr_None_iff)
qed

lemma normalize_dev:
  assumes "proper_segment name" "length name < 200"
  shows "rps_gpu_proc_normalize_path (Some (''/dev/'' @ name)) RPS_GPU_PROC_PATH_MAX =
    Some (''/dev/'' @ name)"
proof -
  have "join_path [''dev'', name] = ''/dev/'' @ name" by (simp add: join_path_def)
  moreover have "\<forall>s \<in> set [''dev'', name]. proper_segment s"
    using assms(1) by (simp add: proper_segment_def)
  ultimately show ?thesis
    using normalize_join [of "[''dev'', name]" RPS_GPU_PROC_PATH_MAX] assms(2) by (simp add: fits_def)
qed

text \<open>A device path is not below the driver's directory, however long its number.\<close>

lemma normalize_dev_outside:
  assumes "SLASH \<notin> set name" "rps_gpu_proc_normalize_path (Some (''/dev/'' @ name)) n = Some q"
  shows "\<not> starts_with q gpus_base"
proof -
  have "path_segments (''dev/'' @ name) = ''dev'' # path_segments (SLASH # name)"
    using path_segments_append [of "''dev''" "SLASH # name"] by simp
  moreover have "path_segments name = (if name = [] then [] else [name])"
    using path_segments_append [of name "[]"] assms(1) by simp
  ultimately have "path_segments (''/dev/'' @ name) = ''dev'' # (if name = [] then [] else [name])"
    by simp
  with normalize_path_SomeD [OF assms(2)]
  have "q \<in> join_path ` {resolve [''dev''], resolve [''dev'', name]}" by (auto split: if_splits)
  moreover have "resolve [''dev''] = [''dev'']" by (simp add: resolve_def)
  moreover have "resolve [''dev'', name] \<in> {[''dev''], [], [''dev'', name]}" by (simp add: resolve_def)
  ultimately have "q \<in> {''/dev'', ''/'', ''/dev/'' @ name}"
    by (auto simp: join_path_def)
  then show ?thesis by (auto simp: starts_with_def gpus_base_def)
qed

lemma dev_names_no_bus:
  assumes "SLASH \<notin> set name"
  shows "\<not> path_names_bus (''/dev/'' @ name) bus"
    "rps_gpu_proc_normalize_path (Some (''/dev/'' @ name)) RPS_GPU_PROC_PATH_MAX \<noteq> Some gpus_base"
proof -
  have "starts_with gpus_base gpus_base" by (simp add: starts_with_def)
  with normalize_dev_outside [OF assms, of RPS_GPU_PROC_PATH_MAX]
  show "rps_gpu_proc_normalize_path (Some (''/dev/'' @ name)) RPS_GPU_PROC_PATH_MAX \<noteq> Some gpus_base"
    by blast
  show "\<not> path_names_bus (''/dev/'' @ name) bus"
    using normalize_dev_outside [OF assms, of RPS_GPU_PROC_PATH_MAX]
    unfolding path_names_bus_def by (metis insertE emptyE option.inject starts_with_append)
qed

lemma parse_nvidia_minor_eq:
  "rps_gpu_parse_nvidia_minor (''/dev/'' @ name) = rps_gpu_name_is_nvidia_minor name"
proof -
  have "starts_with (''/dev/'' @ name) ''/dev/nvidia'' \<longleftrightarrow> starts_with name ''nvidia''"
    by (simp add: starts_with_def)
  moreover have "drop (length ''/dev/nvidia'') (''/dev/'' @ name) = drop (length ''nvidia'') name"
    by simp
  ultimately show ?thesis
    unfolding rps_gpu_parse_nvidia_minor_def rps_gpu_name_is_nvidia_minor_def Let_def
    by (simp only: minor_loops_agree)
qed

lemma parse_nvidia_minor_prefix:
  assumes "rps_gpu_parse_nvidia_minor p = Some m"
  obtains name where "p = ''/dev/'' @ name" "SLASH \<notin> set name" "rps_gpu_name_is_nvidia_minor name = Some m"
proof -
  have "starts_with p ''/dev/nvidia''"
    using assms by (auto simp: rps_gpu_parse_nvidia_minor_def Let_def split: if_splits)
  then obtain s where "p = ''/dev/'' @ (''nvidia'' @ s)" by (auto simp: starts_with_iff)
  moreover from this assms have m: "rps_gpu_name_is_nvidia_minor (''nvidia'' @ s) = Some m"
    using parse_nvidia_minor_eq [of "''nvidia'' @ s"] by simp
  moreover have "SLASH \<notin> set (''nvidia'' @ s)"
    using m all_digits_no(4) unfolding name_is_nvidia_minor_iff by auto
  ultimately show ?thesis using that by blast
qed

lemma classify_cases:
  obtains (dev) name k where "p = ''/dev/'' @ name" "SLASH \<notin> set name"
      "k \<in> {RPS_GPU_FD_NVIDIA_CTL, RPS_GPU_FD_NVIDIA_UVM, RPS_GPU_FD_NVIDIA_DEVICE}"
      "fst (rps_gpu_classify_path (Some p))" "fr_kind (snd (rps_gpu_classify_path (Some p))) = k"
  | (other) "rps_gpu_classify_path (Some p) = rps_gpu_classify_proc_gpu_path p
       \<lparr>fr_kind = RPS_GPU_FD_OTHER, fr_device_minor = -1,
        fr_path = rps_gpu_copy_string RPS_GPU_PATH_MAX (Some p), fr_bus_id = []\<rparr>"
proof -
  consider (ctl) "p = ''/dev/nvidiactl''" | (uvm) "p = ''/dev/nvidia-uvm''"
    | (minor) m where "p \<noteq> ''/dev/nvidiactl''" "p \<noteq> ''/dev/nvidia-uvm''" "rps_gpu_parse_nvidia_minor p = Some m"
    | (none) "p \<noteq> ''/dev/nvidiactl''" "p \<noteq> ''/dev/nvidia-uvm''" "rps_gpu_parse_nvidia_minor p = None"
    by blast
  then show thesis
  proof cases
    case ctl
    then show thesis by (intro dev [of "''nvidiactl''"]) (simp_all add: rps_gpu_classify_path_def)
  next
    case uvm
    then show thesis by (intro dev [of "''nvidia-uvm''"]) (simp_all add: rps_gpu_classify_path_def)
  next
    case (minor m)
    from minor(3) obtain name where "p = ''/dev/'' @ name" "SLASH \<notin> set name"
      by (rule parse_nvidia_minor_prefix)
    then show thesis
      using minor by (intro dev [of name]) (simp_all add: rps_gpu_classify_path_def Let_def)
  next
    case none
    then show thesis by (intro other) (simp add: rps_gpu_classify_path_def)
  qed
qed


text \<open>The result of a classification: the GPU directory, or the directory or file of a GPU.\<close>

definition is_gpus_dir :: "bool \<times> rps_gpu_fd_record \<Rightarrow> bool" where
  "is_gpus_dir c \<longleftrightarrow> fst c \<and> fr_kind (snd c) = RPS_GPU_FD_PROC_GPUS_DIR"

definition is_gpu_bus :: "bool \<times> rps_gpu_fd_record \<Rightarrow> string \<Rightarrow> bool" where
  "is_gpu_bus c bus \<longleftrightarrow> fst c \<and> fr_bus_id (snd c) = bus \<and>
     fr_kind (snd c) \<in> {RPS_GPU_FD_PROC_GPU_BUS_DIR, RPS_GPU_FD_PROC_GPU_INFO}"

lemma classify_proc_bus_iff:
  assumes "fr_kind r = RPS_GPU_FD_OTHER"
  shows "is_gpu_bus (rps_gpu_classify_proc_gpu_path p r) bus \<longleftrightarrow> path_names_bus p bus"
proof (cases "rps_gpu_proc_normalize_path (Some p) RPS_GPU_PROC_PATH_MAX")
  case None
  then show ?thesis by (simp add: is_gpu_bus_def classify_proc_eq path_names_bus_def)
next
  case (Some q)
  obtain ok b d i where e: "rps_gpu_extract_proc_bus_kind (Some p) [] RPS_GPU_PROC_BUS_ID_MAX = (ok, b, d, i)"
    by (cases "rps_gpu_extract_proc_bus_kind (Some p) [] RPS_GPU_PROC_BUS_ID_MAX")
  have names: "path_names_bus p bus \<longleftrightarrow> ok \<and> bus = b"
  proof -
    have "path_names_bus p bus \<longleftrightarrow>
        (\<exists>d i. rps_gpu_extract_proc_bus_kind (Some p) [] RPS_GPU_PROC_BUS_ID_MAX = (True, bus, d, i))"
      unfolding extract_kind_iff path_names_bus_def Some by auto
    then show ?thesis unfolding e by auto
  qed
  show ?thesis
  proof (cases "q = gpus_base")
    case True
    then show ?thesis
      using path_names_bus_not_base [of p bus] Some by (auto simp: is_gpu_bus_def classify_proc_eq)
  next
    case False
    then show ?thesis unfolding names by (auto simp: is_gpu_bus_def classify_proc_eq Some e)
  qed
qed

lemma classify_proc_dir_iff:
  "is_gpus_dir (rps_gpu_classify_proc_gpu_path p r) \<longleftrightarrow>
   rps_gpu_proc_normalize_path (Some p) RPS_GPU_PROC_PATH_MAX = Some gpus_base"
  by (auto simp: is_gpus_dir_def classify_proc_eq split: option.splits prod.splits if_splits)

lemma classify_proc_path:
  "rps_gpu_classify_proc_gpu_path p r = (True, r') \<Longrightarrow>
     rps_gpu_proc_normalize_path (Some p) RPS_GPU_PROC_PATH_MAX = Some (fr_path r')"
  by (auto simp: classify_proc_eq split: option.splits prod.splits if_splits)

lemma classify_bus_iff: "is_gpu_bus (rps_gpu_classify_path (Some p)) b \<longleftrightarrow> path_names_bus p b"
proof (cases p rule: classify_cases)
  case (dev name k)
  then show ?thesis using dev_names_no_bus(1) [OF dev(2), of b] by (auto simp: is_gpu_bus_def)
next
  case other
  then show ?thesis by (simp add: classify_proc_bus_iff)
qed

section \<open>Properties\<close>

text \<open>
  C32. The tracker and the filter classify alike: a path is recorded as the GPU directory
  exactly when it normalises to it, and as a GPU's directory or \<open>information\<close> file with bus
  id \<open>bus\<close> exactly when the filter, too, takes it for that GPU; a denied path is always one
  of these.
\<close>

theorem classification_agrees_with_filter:
  "(is_gpus_dir (rps_gpu_classify_path (Some p)) \<longleftrightarrow>
      rps_gpu_proc_normalize_path (Some p) RPS_GPU_PROC_PATH_MAX = Some gpus_base) \<and>
   (is_gpu_bus (rps_gpu_classify_path (Some p)) bus \<longleftrightarrow> path_names_bus p bus) \<and>
   (rps_gpu_proc_path_allowed allowed (Some p) = RPS_GPU_PROC_DENY \<longleftrightarrow>
      (\<exists>a b. allowed = Some a \<and> ga_valid a \<and> is_gpu_bus (rps_gpu_classify_path (Some p)) b \<and>
         b \<notin> gi_bus_id ` set (ga_gpus a)))"
proof -
  have dir: "is_gpus_dir (rps_gpu_classify_path (Some p)) \<longleftrightarrow>
      rps_gpu_proc_normalize_path (Some p) RPS_GPU_PROC_PATH_MAX = Some gpus_base"
  proof (cases p rule: classify_cases)
    case (dev name k)
    then show ?thesis using dev_names_no_bus(2) [OF dev(2)] by (auto simp: is_gpus_dir_def)
  next
    case other
    then show ?thesis by (simp add: classify_proc_dir_iff)
  qed
  show ?thesis unfolding path_denied_iff classify_bus_iff using dir by blast
qed

text \<open>One operation on the table, as the hooks issue it, and what it means for a map.\<close>

datatype gpu_fd_op =
    Gpu_set bool int rps_gpu_fd_record
  | Gpu_remove int
  | Gpu_copy bool int int
  | Gpu_clear

fun gpu_fd_step :: "gpu_fd_op \<Rightarrow> gpu_fd_list \<Rightarrow> gpu_fd_list" where
  "gpu_fd_step (Gpu_set malloc_ok fd r) ns = rps_gpu_fd_map_set malloc_ok fd (Some r) ns"
| "gpu_fd_step (Gpu_remove fd) ns = rps_gpu_fd_map_remove fd ns"
| "gpu_fd_step (Gpu_copy malloc_ok oldfd newfd) ns = rps_gpu_fd_map_copy malloc_ok oldfd newfd ns"
| "gpu_fd_step Gpu_clear ns = rps_gpu_fd_map_clear ns"

definition spec_store :: "bool \<Rightarrow> int \<Rightarrow> 'v \<Rightarrow> (int \<Rightarrow> 'v option) \<Rightarrow> int \<Rightarrow> 'v option" where
  "spec_store malloc_ok fd v M =
     (if 0 \<le> fd \<and> (malloc_ok \<or> M fd \<noteq> None) then M(fd \<mapsto> v) else M)"

fun gpu_fd_spec ::
    "gpu_fd_op \<Rightarrow> (int \<Rightarrow> rps_gpu_fd_record option) \<Rightarrow> int \<Rightarrow> rps_gpu_fd_record option" where
  "gpu_fd_spec (Gpu_set malloc_ok fd r) M = spec_store malloc_ok fd r M"
| "gpu_fd_spec (Gpu_remove fd) M = M(fd := None)"
| "gpu_fd_spec (Gpu_copy malloc_ok oldfd newfd) M =
     (if oldfd < 0 then M
      else case M oldfd of
             None \<Rightarrow> M(newfd := None)
           | Some r \<Rightarrow> spec_store malloc_ok newfd r M)"
| "gpu_fd_spec Gpu_clear M = Map.empty"

lemma tracker_set_spec:
  "gpu_fds_ok ns \<Longrightarrow>
     map_of (rps_gpu_fd_map_set m fd (Some r) ns) = spec_store m fd r (map_of ns)"
  using tracker_set_lookup [of ns fd m r]
  by (cases "fd < 0") (auto simp: spec_store_def rps_gpu_fd_map_set_def)

lemma gpu_fd_step_ok: "gpu_fds_ok ns \<Longrightarrow> gpu_fds_ok (gpu_fd_step op ns)"
proof (cases op)
  case (Gpu_copy m old new)
  moreover assume ok: "gpu_fds_ok ns"
  ultimately show ?thesis
  proof (cases "old < 0 \<or> new < 0")
    case False
    with ok Gpu_copy show ?thesis
      by (auto simp: tracker_copy_eq tracker_remove_lookup tracker_set_ok split: option.split)
  qed (auto simp: rps_gpu_fd_map_copy_def)
qed (simp_all add: tracker_set_ok tracker_remove_lookup rps_gpu_fd_map_clear_def, simp add: gpu_fds_ok_def)

lemma gpu_fd_step_spec:
  "gpu_fds_ok ns \<Longrightarrow> map_of (gpu_fd_step op ns) = gpu_fd_spec op (map_of ns)"
proof (cases op)
  case (Gpu_copy m old new)
  moreover assume ok: "gpu_fds_ok ns"
  have neg: "map_of ns fd = None" if "fd < 0" for fd by (rule gt.lookup_negative [OF ok that])
  show ?thesis
  proof (cases "old < 0 \<or> new < 0")
    case True
    then have "rps_gpu_fd_map_copy m old new ns = ns" by (auto simp: rps_gpu_fd_map_copy_def)
    with True Gpu_copy neg show ?thesis
      by (auto simp: spec_store_def fun_upd_idem split: option.split)
  next
    case False
    with Gpu_copy tracker_copy_eq [OF ok, of old new m] tracker_set_spec [OF ok] tracker_remove_lookup [OF ok] show ?thesis
      by (auto split: option.split)
  qed
qed (auto simp: tracker_set_spec tracker_remove_lookup rps_gpu_fd_map_clear_def)

text \<open>Whatever the hooks issue, and whichever allocations fail, the list is that map.\<close>

lemma gpu_fd_run_spec:
  "gpu_fds_ok ns \<Longrightarrow> gpu_fds_ok (fold gpu_fd_step ops ns) \<and>
     map_of (fold gpu_fd_step ops ns) = fold gpu_fd_spec ops (map_of ns)"
  by (induction ops arbitrary: ns) (simp_all add: gpu_fd_step_ok gpu_fd_step_spec)

end
