(* ===== verification/Gpu_Fd_List_Heap.thy ===== *)
theory Gpu_Fd_List_Heap imports Gpu_Fd_Tracker
begin

text \<open>
  The linked list of \<open>gpu/fd_tracker.c\<close> in memory: nodes at addresses, next pointers, the head,
  \<open>malloc\<close> and \<open>free\<close>. An operation that would follow a NULL or dangling pointer, free a node
  twice, or walk in a circle, has no result (\<open>None\<close>); the lemmas show that none does, that the
  operations are those of \<open>Gpu_Fd_Tracker\<close> on the list the nodes form, and that no node is lost.
\<close>

section \<open>Memory\<close>

record gpu_fd_node =
  nd_fd :: int
  nd_record :: rps_gpu_fd_record
  nd_next :: "nat option"

type_synonym node_heap = "nat \<Rightarrow> gpu_fd_node option"

record gpu_fd_table =
  gt_head :: "nat option"
  gt_nodes :: node_heap

text \<open>\<open>malloc\<close> gives an address and what happens to be there, or NULL.\<close>

type_synonym node_malloc = "node_heap \<Rightarrow> (nat \<times> gpu_fd_node) option"

definition load_node :: "gpu_fd_table \<Rightarrow> nat \<Rightarrow> gpu_fd_node option" where
  "load_node s a = gt_nodes s a"

definition store_node :: "nat \<Rightarrow> gpu_fd_node \<Rightarrow> gpu_fd_table \<Rightarrow> gpu_fd_table" where
  "store_node a n s = s\<lparr>gt_nodes := (gt_nodes s)(a \<mapsto> n)\<rparr>"

definition free_node :: "nat \<Rightarrow> gpu_fd_table \<Rightarrow> gpu_fd_table option" where
  "free_node a s =
     Option.bind (load_node s a) (\<lambda>_. Some (s\<lparr>gt_nodes := (gt_nodes s)(a := None)\<rparr>))"

text \<open>A \<open>struct rps_gpu_fd_node **\<close>\<close>

datatype node_link = Head_link | Next_link nat

definition load_link :: "gpu_fd_table \<Rightarrow> node_link \<Rightarrow> nat option option" where
  "load_link s l =
     (case l of
        Head_link \<Rightarrow> Some (gt_head s)
      | Next_link a \<Rightarrow> map_option nd_next (load_node s a))"

definition store_link :: "node_link \<Rightarrow> nat option \<Rightarrow> gpu_fd_table \<Rightarrow> gpu_fd_table option" where
  "store_link l p s =
     (case l of
        Head_link \<Rightarrow> Some (s\<lparr>gt_head := p\<rparr>)
      | Next_link a \<Rightarrow> map_option (\<lambda>n. store_node a (n\<lparr>nd_next := p\<rparr>) s) (load_node s a))"

section \<open>Operations\<close>

partial_function (option) free_nodes :: "nat option \<Rightarrow> gpu_fd_table \<Rightarrow> gpu_fd_table option" where
  "free_nodes node s =
     (case node of
        None \<Rightarrow> Some s
      | Some a \<Rightarrow>
          Option.bind (load_node s a) (\<lambda>n.
            Option.bind (free_node a s) (\<lambda>s. free_nodes (nd_next n) s)))"

definition node_map_clear :: "gpu_fd_table \<Rightarrow> gpu_fd_table option" where
  "node_map_clear s = Option.bind (free_nodes (gt_head s) s) (\<lambda>s. Some (s\<lparr>gt_head := None\<rparr>))"

partial_function (option) scan_fd :: "gpu_fd_table \<Rightarrow> int \<Rightarrow> nat option \<Rightarrow> nat option option" where
  "scan_fd s fd node =
     (case node of
        None \<Rightarrow> Some None
      | Some a \<Rightarrow>
          Option.bind (load_node s a) (\<lambda>n.
            if nd_fd n = fd then Some (Some a) else scan_fd s fd (nd_next n)))"

definition node_map_set ::
    "node_malloc \<Rightarrow> int \<Rightarrow> rps_gpu_fd_record option \<Rightarrow> gpu_fd_table \<Rightarrow> gpu_fd_table option" where
  "node_map_set malloc fd record s =
     (case record of
        None \<Rightarrow> Some s
      | Some r \<Rightarrow>
          if fd < 0 then Some s
          else Option.bind (scan_fd s fd (gt_head s)) (\<lambda>found.
            case found of
              Some a \<Rightarrow> Option.bind (load_node s a) (\<lambda>n. Some (store_node a (n\<lparr>nd_record := r\<rparr>) s))
            | None \<Rightarrow>
                (case malloc (gt_nodes s) of
                   None \<Rightarrow> Some s
                 | Some (a, n) \<Rightarrow>
                     Some ((store_node a (n\<lparr>nd_fd := fd, nd_record := r, nd_next := gt_head s\<rparr>) s)
                             \<lparr>gt_head := Some a\<rparr>))))"

definition node_map_get :: "int \<Rightarrow> gpu_fd_table \<Rightarrow> rps_gpu_fd_record option option" where
  "node_map_get fd s =
     (if fd < 0 then Some None
      else Option.bind (scan_fd s fd (gt_head s)) (\<lambda>found.
        case found of
          None \<Rightarrow> Some None
        | Some a \<Rightarrow> map_option (\<lambda>n. Some (nd_record n)) (load_node s a)))"

text \<open>The loop of \<open>remove\<close> and the one at the end of \<open>copy\<close>, which differ in what they look for.\<close>

partial_function (option) unlink_node ::
    "(nat \<Rightarrow> gpu_fd_node \<Rightarrow> bool) \<Rightarrow> node_link \<Rightarrow> gpu_fd_table \<Rightarrow> gpu_fd_table option" where
  "unlink_node found link s =
     Option.bind (load_link s link) (\<lambda>node.
       case node of
         None \<Rightarrow> Some s
       | Some a \<Rightarrow>
           Option.bind (load_node s a) (\<lambda>n.
             if found a n then Option.bind (store_link link (nd_next n) s) (free_node a)
             else unlink_node found (Next_link a) s))"

definition node_map_remove :: "int \<Rightarrow> gpu_fd_table \<Rightarrow> gpu_fd_table option" where
  "node_map_remove fd s =
     (if fd < 0 then Some s else unlink_node (\<lambda>a n. nd_fd n = fd) Head_link s)"

partial_function (option) scan_both ::
    "gpu_fd_table \<Rightarrow> int \<Rightarrow> int \<Rightarrow> nat option \<Rightarrow> nat option \<Rightarrow> nat option \<Rightarrow> (nat option \<times> nat option) option"
where
  "scan_both s oldfd newfd node old_node new_node =
     (case node of
        None \<Rightarrow> Some (old_node, new_node)
      | Some a \<Rightarrow>
          Option.bind (load_node s a) (\<lambda>n.
            scan_both s oldfd newfd (nd_next n)
              (if nd_fd n = oldfd then Some a else old_node)
              (if nd_fd n = newfd then Some a else new_node)))"

definition copy_record :: "nat \<Rightarrow> nat \<Rightarrow> gpu_fd_table \<Rightarrow> gpu_fd_table option" where
  "copy_record old_node new_node s =
     Option.bind (load_node s old_node) (\<lambda>old.
       Option.bind (load_node s new_node) (\<lambda>new.
         Some (store_node new_node (new\<lparr>nd_record := nd_record old\<rparr>) s)))"

definition node_map_copy :: "node_malloc \<Rightarrow> int \<Rightarrow> int \<Rightarrow> gpu_fd_table \<Rightarrow> gpu_fd_table option" where
  "node_map_copy malloc oldfd newfd s =
     (if oldfd < 0 \<or> newfd < 0 then Some s
      else Option.bind (scan_both s oldfd newfd (gt_head s) None None) (\<lambda>(old_node, new_node).
        case old_node of
          Some old \<Rightarrow>
            (case new_node of
               Some new \<Rightarrow> copy_record old new s
             | None \<Rightarrow>
                 (case malloc (gt_nodes s) of
                    None \<Rightarrow> Some s
                  | Some (new, n) \<Rightarrow>
                      copy_record old new
                        ((store_node new (n\<lparr>nd_fd := newfd, nd_next := gt_head s\<rparr>) s)
                           \<lparr>gt_head := Some new\<rparr>)))
        | None \<Rightarrow>
            (case new_node of
               None \<Rightarrow> Some s
             | Some new \<Rightarrow> unlink_node (\<lambda>a n. a = new) Head_link s)))"

section \<open>The list the nodes form: lemmas\<close>

primrec nodes_path :: "node_heap \<Rightarrow> nat option \<Rightarrow> nat list \<Rightarrow> nat option \<Rightarrow> bool" where
  "nodes_path h p [] q \<longleftrightarrow> p = q"
| "nodes_path h p (a # as) q \<longleftrightarrow> p = Some a \<and> (\<exists>n. h a = Some n \<and> nodes_path h (nd_next n) as q)"

definition node_entry :: "node_heap \<Rightarrow> nat \<Rightarrow> int \<times> rps_gpu_fd_record" where
  "node_entry h a = (nd_fd (the (h a)), nd_record (the (h a)))"

definition forms_list :: "gpu_fd_table \<Rightarrow> nat list \<Rightarrow> gpu_fd_list \<Rightarrow> bool" where
  "forms_list s as ns \<longleftrightarrow>
     nodes_path (gt_nodes s) (gt_head s) as None \<and> distinct as \<and> dom (gt_nodes s) = set as \<and>
     ns = map (node_entry (gt_nodes s)) as"

lemma nodes_path_append: "nodes_path h p (as @ bs) q \<longleftrightarrow> (\<exists>r. nodes_path h p as r \<and> nodes_path h r bs q)"
  by (induction as arbitrary: p) auto

lemma nodes_path_frame: "\<forall>a \<in> set as. h' a = h a \<Longrightarrow> nodes_path h' p as q = nodes_path h p as q"
  by (induction as arbitrary: p) auto

text \<open>Changing everything but the next pointers does not change the path.\<close>

lemma nodes_path_next:
  "\<forall>a \<in> set as. map_option nd_next (h' a) = map_option nd_next (h a) \<Longrightarrow>
     nodes_path h' p as q = nodes_path h p as q"
proof (induction as arbitrary: p)
  case (Cons a as)
  then show ?case by (cases "h a"; cases "h' a") auto
qed simp

lemma node_entry_load [simp]: "h a = Some n \<Longrightarrow> node_entry h a = (nd_fd n, nd_record n)"
  by (simp add: node_entry_def)

lemma scan_fd_path:
  "nodes_path (gt_nodes s) p as None \<Longrightarrow>
     scan_fd s fd p = Some (map_option ((!) as)
       (find_index (\<lambda>n. fst n = fd) (map (node_entry (gt_nodes s)) as)))"
proof (induction as arbitrary: p)
  case Nil
  then show ?case by (simp add: scan_fd.simps)
next
  case (Cons a as)
  then show ?case
    by (subst scan_fd.simps) (auto simp: load_node_def option.map_comp comp_def)
qed

text \<open>The last node for a descriptor, or the one there was before.\<close>

definition last_node :: "node_heap \<Rightarrow> int \<Rightarrow> nat list \<Rightarrow> nat option \<Rightarrow> nat option" where
  "last_node h fd as found =
     (case find_last (\<lambda>n. fst n = fd) 0 (map (node_entry h) as) None of None \<Rightarrow> found | Some i \<Rightarrow> Some (as ! i))"

lemma last_node_simps [simp]:
  "last_node h fd [] found = found"
  "last_node h fd (a # as) found = last_node h fd as (if fst (node_entry h a) = fd then Some a else found)"
  by (simp_all add: last_node_def find_last_app [of _ "Suc 0"] split: option.split)

lemma scan_both_path:
  "nodes_path (gt_nodes s) p as None \<Longrightarrow>
     scan_both s old new p x y = Some (last_node (gt_nodes s) old as x, last_node (gt_nodes s) new as y)"
proof (induction as arbitrary: p x y)
  case Nil
  then show ?case by (simp add: scan_both.simps)
next
  case (Cons a as)
  then show ?case by (subst scan_both.simps) (auto simp: load_node_def)
qed

text \<open>Where the link to the node behind \<open>as\<close> is.\<close>

fun link_behind :: "node_link \<Rightarrow> nat list \<Rightarrow> node_link" where
  "link_behind l [] = l"
| "link_behind l (a # as) = link_behind (Next_link a) as"

lemma link_behind_eq: "link_behind l as = (if as = [] then l else Next_link (last as))"
  by (induction l as rule: link_behind.induct) auto

lemma unlink_node_path:
  assumes "load_link s l = Some p" "nodes_path (gt_nodes s) p as None"
  shows "\<forall>a \<in> set as. \<not> P a (the (gt_nodes s a)) \<Longrightarrow> unlink_node P l s = Some s"
    "as = pre @ a # post \<Longrightarrow> \<forall>a \<in> set pre. \<not> P a (the (gt_nodes s a)) \<Longrightarrow> P a (the (gt_nodes s a)) \<Longrightarrow>
       unlink_node P l s = Option.bind (store_link (link_behind l pre) (nd_next (the (gt_nodes s a))) s) (free_node a)"
proof -
  show "unlink_node P l s = Some s" if "\<forall>a \<in> set as. \<not> P a (the (gt_nodes s a))"
    using assms that
  proof (induction as arbitrary: l p)
    case Nil
    then show ?case by (simp add: unlink_node.simps)
  next
    case (Cons b as)
    then obtain n where n: "p = Some b" "gt_nodes s b = Some n" "nodes_path (gt_nodes s) (nd_next n) as None" by auto
    then have "load_link s (Next_link b) = Some (nd_next n)" by (simp add: load_link_def load_node_def)
    with Cons n show ?case by (subst unlink_node.simps) (simp add: load_node_def)
  qed
  show "unlink_node P l s = Option.bind (store_link (link_behind l pre) (nd_next (the (gt_nodes s a))) s) (free_node a)"
    if "as = pre @ a # post" "\<forall>a \<in> set pre. \<not> P a (the (gt_nodes s a))" "P a (the (gt_nodes s a))"
    using assms that
  proof (induction pre arbitrary: as l p)
    case Nil
    then show ?case by (subst unlink_node.simps) (auto simp: load_node_def)
  next
    case (Cons b pre)
    then obtain n where n: "p = Some b" "gt_nodes s b = Some n" "nodes_path (gt_nodes s) (nd_next n) (pre @ a # post) None" by auto
    then have "load_link s (Next_link b) = Some (nd_next n)" by (simp add: load_link_def load_node_def)
    with Cons n show ?case by (subst unlink_node.simps) (simp add: load_node_def)
  qed
qed

text \<open>Taking a node out.\<close>

lemma unlinked_forms_list:
  assumes "forms_list s (pre @ a # post) ns"
  shows "\<exists>s'. Option.bind (store_link (link_behind Head_link pre) (nd_next (the (gt_nodes s a))) s) (free_node a) = Some s' \<and>
    forms_list s' (pre @ post) (take (length pre) ns @ drop (Suc (length pre)) ns)"
proof -
  let ?h = "gt_nodes s"
  from assms obtain r n where path: "nodes_path ?h (gt_head s) pre r" "r = Some a" "?h a = Some n"
      "nodes_path ?h (nd_next n) post None"
    and dist: "distinct (pre @ a # post)" and dom: "dom ?h = set (pre @ a # post)"
    and ns: "ns = map (node_entry ?h) (pre @ a # post)"
    by (auto simp: forms_list_def nodes_path_append)
  show ?thesis
  proof (cases pre rule: rev_cases)
    case Nil
    let ?s = "s\<lparr>gt_head := nd_next n, gt_nodes := ?h(a := None)\<rparr>"
    have "nodes_path (?h(a := None)) (nd_next n) post None"
      using path(4) dist by (subst nodes_path_frame [of _ _ ?h]) auto
    then have "forms_list ?s post (map (node_entry ?h) post)"
      using dist dom Nil by (auto simp: forms_list_def node_entry_def)
    with Nil path ns show ?thesis
      by (simp add: link_behind_eq store_link_def free_node_def load_node_def)
  next
    case (snoc qs b)
    with dom obtain m where m: "?h b = Some m" by (auto dest!: equalityD2)
    let ?h' = "?h(b \<mapsto> m\<lparr>nd_next := nd_next n\<rparr>, a := None)"
    have ab: "a \<noteq> b" "b \<notin> set qs" "b \<notin> set post" "a \<notin> set qs" "a \<notin> set post" using dist snoc by auto
    have "nodes_path ?h (gt_head s) qs (Some b)" using path(1,2) snoc m by (auto simp: nodes_path_append)
    then have "nodes_path ?h' (gt_head s) qs (Some b)" using ab by (subst nodes_path_frame [of _ _ ?h]) auto
    moreover have "nodes_path ?h' (nd_next n) post None" using path(4) ab by (subst nodes_path_frame [of _ _ ?h]) auto
    ultimately have "nodes_path ?h' (gt_head s) (pre @ post) None" using ab snoc by (simp add: nodes_path_append)
    then have "forms_list (s\<lparr>gt_nodes := ?h'\<rparr>) (pre @ post) (map (node_entry ?h) (pre @ post))"
      using dist dom m ab snoc by (auto simp: forms_list_def node_entry_def)
    with snoc path ns m ab show ?thesis
      by (simp add: link_behind_eq store_link_def free_node_def load_node_def store_node_def)
  qed
qed

lemma find_last_SomeD:
  "find_last p k xs found = Some i \<Longrightarrow> found = Some i \<or> (k \<le> i \<and> i < k + length xs \<and> p (xs ! (i - k)))"
proof (induction xs arbitrary: k found)
  case (Cons x xs)
  then show ?case using Cons.IH [of "Suc k" "if p x then Some k else found"]
    by (auto simp: nth_Cons' split: if_splits)
qed simp

lemma last_node_None: "last_node h fd as None = None \<longleftrightarrow> find_last (\<lambda>n. fst n = fd) 0 (map (node_entry h) as) None = None"
  by (simp add: last_node_def split: option.split)

lemma last_node_SomeD:
  assumes "last_node h fd as None = Some a"
  obtains i where "find_last (\<lambda>n. fst n = fd) 0 (map (node_entry h) as) None = Some i" "a = as ! i" "i < length as"
    "fst (node_entry h (as ! i)) = fd"
  using assms find_last_SomeD [of "\<lambda>n. fst n = fd" 0 "map (node_entry h) as" None]
  by (auto simp: last_node_def split: option.splits)

section \<open>Each operation is the one on the list: lemmas\<close>

abbreviation forms :: "gpu_fd_table \<Rightarrow> gpu_fd_list \<Rightarrow> bool" where
  "forms s ns \<equiv> \<exists>as. forms_list s as ns"

definition malloc_fresh :: "node_malloc \<Rightarrow> bool" where
  "malloc_fresh m \<longleftrightarrow> (\<forall>h a n. m h = Some (a, n) \<longrightarrow> h a = None)"

lemma forms_list_node:
  assumes "forms_list s as ns" "i < length as"
  obtains n where "gt_nodes s (as ! i) = Some n" "ns ! i = (nd_fd n, nd_record n)" "length ns = length as"
proof -
  have "as ! i \<in> dom (gt_nodes s)" using assms by (auto simp: forms_list_def)
  then obtain n where "gt_nodes s (as ! i) = Some n" by blast
  with assms that show ?thesis by (auto simp: forms_list_def)
qed

lemma record_forms_list:
  assumes "forms_list s as ns" "i < length as" "gt_nodes s (as ! i) = Some n"
  shows "forms_list (store_node (as ! i) (n\<lparr>nd_record := r\<rparr>) s) as (ns[i := (nd_fd n, r)])"
proof -
  let ?h = "gt_nodes s" and ?h' = "(gt_nodes s)(as ! i \<mapsto> n\<lparr>nd_record := r\<rparr>)"
  have "nodes_path ?h' (gt_head s) as None"
    using assms by (subst nodes_path_next [of _ _ ?h]) (auto simp: forms_list_def)
  moreover have "map (node_entry ?h') as = (map (node_entry ?h) as)[i := (nd_fd n, r)]"
    using assms by (intro nth_equalityI) (auto simp: forms_list_def node_entry_def nth_list_update nth_eq_iff_index_eq)
  ultimately show ?thesis using assms by (auto simp: forms_list_def store_node_def)
qed

lemma push_forms_list:
  assumes "forms_list s as ns" "gt_nodes s a = None" "nd_next n = gt_head s"
  shows "forms_list ((store_node a n s)\<lparr>gt_head := Some a\<rparr>) (a # as) ((nd_fd n, nd_record n) # ns)"
proof -
  let ?h = "gt_nodes s"
  have a: "a \<notin> set as" using assms(1,2) by (auto simp: forms_list_def)
  then have "nodes_path (?h(a \<mapsto> n)) (gt_head s) as None"
    using assms by (subst nodes_path_frame [of _ _ ?h]) (auto simp: forms_list_def)
  with a assms show ?thesis by (auto simp: forms_list_def store_node_def node_entry_def)
qed

lemma node_map_get_eq:
  assumes "forms_list s as ns"
  shows "node_map_get fd s = Some (rps_gpu_fd_map_get fd ns)"
proof (cases "fd < 0")
  case False
  have scan: "scan_fd s fd (gt_head s) = Some (map_option ((!) as) (find_index (\<lambda>n. fst n = fd) ns))"
    using assms scan_fd_path [of s "gt_head s" as fd] by (simp add: forms_list_def)
  show ?thesis
  proof (cases "find_index (\<lambda>n. fst n = fd) ns")
    case (Some i)
    then have "i < length as" using find_index_nth [OF Some] assms by (simp add: forms_list_def)
    then obtain n where "gt_nodes s (as ! i) = Some n" "ns ! i = (nd_fd n, nd_record n)"
      using forms_list_node [OF assms] by blast
    with Some scan False show ?thesis
      by (simp add: node_map_get_def rps_gpu_fd_map_get_def load_node_def)
  qed (use scan False in \<open>simp add: node_map_get_def rps_gpu_fd_map_get_def\<close>)
qed (simp add: node_map_get_def rps_gpu_fd_map_get_def)

lemma node_map_set_forms:
  assumes "forms_list s as ns" "malloc_fresh m"
  shows "\<exists>s'. node_map_set m fd r s = Some s' \<and> forms s' (rps_gpu_fd_map_set (m (gt_nodes s) \<noteq> None) fd r ns)"
proof (cases "r = None \<or> fd < 0")
  case True
  then show ?thesis using assms(1) by (auto simp: node_map_set_def rps_gpu_fd_map_set_def split: option.split)
next
  case False
  then obtain r' where r: "r = Some r'" and fd: "\<not> fd < 0" by auto
  have scan: "scan_fd s fd (gt_head s) = Some (map_option ((!) as) (find_index (\<lambda>n. fst n = fd) ns))"
    using assms scan_fd_path [of s "gt_head s" as fd] by (simp add: forms_list_def)
  show ?thesis
  proof (cases "find_index (\<lambda>n. fst n = fd) ns")
    case (Some i)
    then have i: "i < length as" "fst (ns ! i) = fd"
      using find_index_nth [OF Some] assms(1) unfolding forms_list_def by (auto simp del: nth_map)
    obtain n where n: "gt_nodes s (as ! i) = Some n" "nd_fd n = fd"
      using forms_list_node [OF assms(1) i(1)] i(2) by (metis fst_conv)
    from record_forms_list [OF assms(1) i(1) n(1), of r'] n(2) Some scan r fd n show ?thesis
      by (auto simp: node_map_set_def rps_gpu_fd_map_set_def load_node_def)
  next
    case None
    show ?thesis
    proof (cases "m (gt_nodes s)")
      case None': None
      with None scan r fd assms(1) show ?thesis by (auto simp: node_map_set_def rps_gpu_fd_map_set_def)
    next
      case (Some an)
      then obtain a n where an: "m (gt_nodes s) = Some (a, n)" by (cases an) auto
      with assms(2) have "gt_nodes s a = None" by (simp add: malloc_fresh_def)
      from push_forms_list [OF assms(1) this, of "n\<lparr>nd_fd := fd, nd_record := r', nd_next := gt_head s\<rparr>"]
        an None scan r fd show ?thesis by (auto simp: node_map_set_def rps_gpu_fd_map_set_def)
    qed
  qed
qed

lemma unlink_at_forms:
  assumes "forms_list s as ns" "i < length as" "\<forall>j < i. \<not> P (as ! j) (the (gt_nodes s (as ! j)))"
    and "P (as ! i) (the (gt_nodes s (as ! i)))"
  shows "\<exists>s'. unlink_node P Head_link s = Some s' \<and> forms s' (take i ns @ drop (Suc i) ns)"
proof -
  have split: "as = take i as @ as ! i # drop (Suc i) as" using assms(2) by (simp add: id_take_nth_drop)
  have "\<forall>a \<in> set (take i as). \<not> P a (the (gt_nodes s a))"
    using assms(2,3) by (auto simp: in_set_conv_nth)
  with unlink_node_path(2) [of s Head_link "gt_head s" as "take i as" "as ! i" "drop (Suc i) as" P] split assms
  have "unlink_node P Head_link s =
    Option.bind (store_link (link_behind Head_link (take i as)) (nd_next (the (gt_nodes s (as ! i)))) s) (free_node (as ! i))"
    by (simp add: load_link_def forms_list_def)
  with unlinked_forms_list [of s "take i as" "as ! i" "drop (Suc i) as" ns] assms(1,2) split show ?thesis by auto
qed

lemma node_map_remove_forms:
  assumes "forms_list s as ns"
  shows "\<exists>s'. node_map_remove fd s = Some s' \<and> forms s' (rps_gpu_fd_map_remove fd ns)"
proof (cases "fd < 0")
  case True
  then show ?thesis using assms by (auto simp: node_map_remove_def rps_gpu_fd_map_remove_def)
next
  case False
  let ?P = "\<lambda>(a :: nat) n. nd_fd n = fd"
  have fds: "fst (ns ! j) = nd_fd (the (gt_nodes s (as ! j)))" if "j < length as" for j
    using assms that by (simp add: forms_list_def node_entry_def)
  have len: "length ns = length as" using assms by (simp add: forms_list_def)
  show ?thesis
  proof (cases "find_index (\<lambda>n. fst n = fd) ns")
    case None
    then have "unlink_first fd ns = ns" by (induction ns) (auto split: if_splits)
    moreover have "unlink_node ?P Head_link s = Some s"
      using None assms by (intro unlink_node_path(1) [of s Head_link "gt_head s" as])
        (auto simp: find_index_None_iff load_link_def forms_list_def node_entry_def)
    ultimately show ?thesis using False assms by (auto simp: node_map_remove_def rps_gpu_fd_map_remove_def)
  next
    case (Some i)
    then have "i < length ns" "fst (ns ! i) = fd" "\<forall>j < i. fst (ns ! j) \<noteq> fd" using find_index_SomeD [OF Some] by auto
    with fds len have "i < length as" "nd_fd (the (gt_nodes s (as ! i))) = fd"
      "\<forall>j < i. nd_fd (the (gt_nodes s (as ! j))) \<noteq> fd" by auto
    from unlink_at_forms [of s as ns i ?P, OF assms this(1,3,2)] drop_index_unlink [OF Some] False show ?thesis
      by (simp add: node_map_remove_def rps_gpu_fd_map_remove_def)
  qed
qed

lemma node_map_copy_forms:
  assumes list: "forms_list s as ns" and m: "malloc_fresh m"
  shows "\<exists>s'. node_map_copy m old new s = Some s' \<and> forms s' (rps_gpu_fd_map_copy (m (gt_nodes s) \<noteq> None) old new ns)"
proof (cases "old < 0 \<or> new < 0")
  case True
  then show ?thesis using list by (auto simp: node_map_copy_def rps_gpu_fd_map_copy_def)
next
  case False
  let ?find = "\<lambda>fd. find_last (\<lambda>n. fst n = fd) 0 ns None"
  have "length ns = length as" using list by (simp add: forms_list_def)
  then have at: "i < length as \<and> fst (ns ! i) = fd" if "?find fd = Some i" for fd i
    using find_last_SomeD [OF that] by simp
  have scan: "scan_both s old new (gt_head s) None None = Some (map_option ((!) as) (?find old), map_option ((!) as) (?find new))"
    using list scan_both_path [of s "gt_head s" as old new None None]
    by (simp add: forms_list_def last_node_def option.case_eq_if map_option_case)
  show ?thesis
  proof (cases "?find old")
    case None
    show ?thesis
    proof (cases "?find new")
      case None': None
      with None False scan list show ?thesis by (auto simp: node_map_copy_def rps_gpu_fd_map_copy_def)
    next
      case (Some j)
      with at have j: "j < length as" by blast
      then have "\<forall>i < j. as ! i \<noteq> as ! j" using list by (auto simp: forms_list_def nth_eq_iff_index_eq)
      from unlink_at_forms [of s as ns j "\<lambda>a n. a = as ! j", OF list j] this None Some False scan show ?thesis
        by (auto simp: node_map_copy_def rps_gpu_fd_map_copy_def)
    qed
  next
    case old: (Some i)
    with at have i: "i < length as" by blast
    obtain o' where o': "gt_nodes s (as ! i) = Some o'" "ns ! i = (nd_fd o', nd_record o')"
      using forms_list_node [OF list i] by blast
    show ?thesis
    proof (cases "?find new")
      case (Some j)
      with at have j: "j < length as" "fst (ns ! j) = new" by blast+
      obtain n where n: "gt_nodes s (as ! j) = Some n" "nd_fd n = new"
        using forms_list_node [OF list j(1)] j(2) by (metis fst_conv)
      from record_forms_list [OF list j(1) n(1), of "nd_record o'"] n old Some False scan o' show ?thesis
        by (auto simp: node_map_copy_def rps_gpu_fd_map_copy_def copy_record_def load_node_def)
    next
      case new: None
      show ?thesis
      proof (cases "m (gt_nodes s)")
        case None
        with old new False scan list show ?thesis by (auto simp: node_map_copy_def rps_gpu_fd_map_copy_def)
      next
        case (Some an)
        then obtain a n where an: "m (gt_nodes s) = Some (a, n)" by (cases an) auto
        with m have free: "gt_nodes s a = None" by (simp add: malloc_fresh_def)
        with o' have "a \<noteq> as ! i" by auto
        have swap: "s\<lparr>gt_head := x, gt_nodes := y\<rparr> = s\<lparr>gt_nodes := y, gt_head := x\<rparr>" for x y by simp
        show ?thesis using \<open>a \<noteq> as ! i\<close> push_forms_list [OF list free, of "n\<lparr>nd_fd := new, nd_next := gt_head s, nd_record := nd_record o'\<rparr>"]
          an old new False scan o'
          by (auto simp: node_map_copy_def rps_gpu_fd_map_copy_def copy_record_def load_node_def store_node_def swap)
      qed
    qed
  qed
qed

lemma free_nodes_path:
  "nodes_path (gt_nodes s) p as None \<Longrightarrow> distinct as \<Longrightarrow>
     free_nodes p s = Some (s\<lparr>gt_nodes := (gt_nodes s) |` (- set as)\<rparr>)"
proof (induction as arbitrary: p s)
  case Nil
  then show ?case by (simp add: free_nodes.simps)
next
  case (Cons a as)
  then obtain n where n: "p = Some a" "gt_nodes s a = Some n" "nodes_path (gt_nodes s) (nd_next n) as None" by auto
  let ?s = "s\<lparr>gt_nodes := (gt_nodes s)(a := None)\<rparr>"
  have path: "nodes_path (gt_nodes ?s) (nd_next n) as None"
    using n(3) Cons.prems(2) by (subst nodes_path_frame [of _ _ "gt_nodes s"]) auto
  have "distinct as" using Cons.prems(2) by simp
  from Cons.IH [OF path this]
  have "free_nodes (nd_next n) ?s = Some (?s\<lparr>gt_nodes := (gt_nodes ?s) |` (- set as)\<rparr>)" .
  moreover have "free_nodes p s = free_nodes (nd_next n) ?s"
    using n by (subst free_nodes.simps) (simp add: load_node_def free_node_def)
  moreover have "(gt_nodes ?s) |` (- set as) = (gt_nodes s) |` (- set (a # as))" by (auto simp: restrict_map_def)
  moreover have "?s\<lparr>gt_nodes := h\<rparr> = s\<lparr>gt_nodes := h\<rparr>" for h by simp
  ultimately show ?case by (simp only:)
qed

lemma node_map_clear_forms:
  assumes "forms_list s as ns"
  shows "\<exists>s'. node_map_clear s = Some s' \<and> forms s' []"
proof -
  have "(gt_nodes s) |` (- set as) = Map.empty"
    using assms by (intro ext) (auto simp: forms_list_def restrict_map_def)
  with assms free_nodes_path [of s "gt_head s" as] show ?thesis
    by (auto simp: node_map_clear_def forms_list_def intro!: exI [of _ "[]"])
qed

text \<open>One operation, with the \<open>malloc\<close> it meets, and what it is on the list.\<close>

datatype node_op =
    Node_set node_malloc int rps_gpu_fd_record
  | Node_remove int
  | Node_copy node_malloc int int
  | Node_clear

fun node_step :: "node_op \<Rightarrow> gpu_fd_table \<Rightarrow> gpu_fd_table option" where
  "node_step (Node_set m fd r) s = node_map_set m fd (Some r) s"
| "node_step (Node_remove fd) s = node_map_remove fd s"
| "node_step (Node_copy m oldfd newfd) s = node_map_copy m oldfd newfd s"
| "node_step Node_clear s = node_map_clear s"

fun op_of :: "node_heap \<Rightarrow> node_op \<Rightarrow> gpu_fd_op" where
  "op_of h (Node_set m fd r) = Gpu_set (m h \<noteq> None) fd r"
| "op_of h (Node_remove fd) = Gpu_remove fd"
| "op_of h (Node_copy m oldfd newfd) = Gpu_copy (m h \<noteq> None) oldfd newfd"
| "op_of h Node_clear = Gpu_clear"

fun op_malloc_fresh :: "node_op \<Rightarrow> bool" where
  "op_malloc_fresh (Node_set m fd r) = malloc_fresh m"
| "op_malloc_fresh (Node_copy m oldfd newfd) = malloc_fresh m"
| "op_malloc_fresh _ = True"

lemma node_step_forms:
  assumes "forms_list s as ns" "op_malloc_fresh op"
  shows "\<exists>s'. node_step op s = Some s' \<and> forms s' (gpu_fd_step (op_of (gt_nodes s) op) ns)"
  using assms node_map_set_forms [OF assms(1)] node_map_remove_forms [OF assms(1)] node_map_copy_forms [OF assms(1)]
    node_map_clear_forms [OF assms(1)]
  by (cases op) (simp_all add: rps_gpu_fd_map_clear_def)

definition no_nodes :: gpu_fd_table where
  "no_nodes = \<lparr>gt_head = None, gt_nodes = Map.empty\<rparr>"

text \<open>A sequence of operations, and the operations on the map it amounts to.\<close>

fun node_run :: "node_op list \<Rightarrow> gpu_fd_table \<Rightarrow> gpu_fd_table option" where
  "node_run [] s = Some s"
| "node_run (op # ops) s = Option.bind (node_step op s) (node_run ops)"

fun ops_of :: "node_op list \<Rightarrow> gpu_fd_table \<Rightarrow> gpu_fd_op list" where
  "ops_of [] s = []"
| "ops_of (op # ops) s =
     op_of (gt_nodes s) op # (case node_step op s of None \<Rightarrow> [] | Some s \<Rightarrow> ops_of ops s)"

lemma node_run_forms:
  "forms s ns \<Longrightarrow> \<forall>op \<in> set ops. op_malloc_fresh op \<Longrightarrow>
     \<exists>s'. node_run ops s = Some s' \<and> forms s' (fold gpu_fd_step (ops_of ops s) ns)"
proof (induction ops arbitrary: s ns)
  case (Cons op ops)
  then obtain as where "forms_list s as ns" by blast
  with Cons.prems(2) node_step_forms [of s as ns op] obtain s1
    where s1: "node_step op s = Some s1" "forms s1 (gpu_fd_step (op_of (gt_nodes s) op) ns)" by auto
  from Cons.IH [OF s1(2)] Cons.prems(2) s1(1) show ?case by simp
qed auto

section \<open>Properties\<close>

text \<open>
  C31. The linked list is a finite map: whatever sequence of stores, removals, copies and
  clears the hooks issue, and whichever allocations fail, no operation follows a NULL or
  dangling pointer, frees a node twice or runs in a circle; a look-up answers as the map
  specified by \<open>gpu_fd_spec\<close> does; and there are as many allocated nodes as tracked
  descriptors, so that no node is lost. (\<open>malloc\<close> gives memory that is not in use.)
\<close>

theorem linked_list_refines_map:
  assumes "\<forall>op \<in> set ops. op_malloc_fresh op"
  shows "\<exists>s. node_run ops no_nodes = Some s \<and>
    (\<forall>fd. node_map_get fd s = Some (fold gpu_fd_spec (ops_of ops no_nodes) Map.empty fd)) \<and>
    finite (dom (gt_nodes s)) \<and>
    card (dom (gt_nodes s)) = card (dom (fold gpu_fd_spec (ops_of ops no_nodes) Map.empty))"
proof -
  let ?ns = "fold gpu_fd_step (ops_of ops no_nodes) []"
  have "forms no_nodes []" by (auto simp: forms_list_def no_nodes_def intro!: exI [of _ "[]"])
  from node_run_forms [OF this assms] obtain s as
    where s: "node_run ops no_nodes = Some s" "forms_list s as ?ns" by blast
  have ok: "gpu_fds_ok ?ns" "map_of ?ns = fold gpu_fd_spec (ops_of ops no_nodes) Map.empty"
    using gpu_fd_run_spec [of "[]" "ops_of ops no_nodes"] by (simp_all add: gpu_fds_ok_def)
  have "card (dom (map_of ?ns)) = length ?ns"
    using ok(1) by (simp add: dom_map_of_conv_image_fst card_image distinct_card gpu_fds_ok_def
        flip: set_map)
  moreover have "card (dom (gt_nodes s)) = length ?ns" "finite (dom (gt_nodes s))"
    using s(2) by (auto simp: forms_list_def distinct_card)
  moreover have "node_map_get fd s = Some (map_of ?ns fd)" for fd
    using node_map_get_eq [OF s(2)] tracker_get_eq [OF ok(1)] by simp
  ultimately show ?thesis using s(1) ok(2) by auto
qed

text \<open>A \<open>malloc\<close> of two nodes, with garbage in them.\<close>

definition two_nodes :: node_malloc where
  "two_nodes h =
     (let a = (if h 0 = None then 0 else 1) in
      if h a = None then Some (a, \<lparr>nd_fd = -7, nd_record = snd (rps_gpu_classify_path None), nd_next = Some 99\<rparr>)
      else None)"

definition dir_record :: rps_gpu_fd_record where
  "dir_record = \<lparr>fr_kind = RPS_GPU_FD_PROC_GPUS_DIR, fr_device_minor = -1, fr_path = gpus_base, fr_bus_id = []\<rparr>"

lemma two_nodes_fresh: "malloc_fresh two_nodes"
  by (auto simp: malloc_fresh_def two_nodes_def Let_def split: if_splits)

theorem linked_list_refines_map_witness:
  "\<exists>s. node_run [Node_set two_nodes 3 dir_record, Node_copy two_nodes 3 5, Node_remove 3] no_nodes = Some s \<and>
     node_map_get 5 s = Some (Some dir_record) \<and> node_map_get 3 s = Some None \<and> card (dom (gt_nodes s)) = 1"
proof -
  let ?ops = "[Node_set two_nodes 3 dir_record, Node_copy two_nodes 3 5, Node_remove 3]"
  have "ops_of ?ops no_nodes = [Gpu_set True 3 dir_record, Gpu_copy True 3 5, Gpu_remove 3]"
    by (simp add: no_nodes_def two_nodes_def node_map_set_def node_map_copy_def node_map_remove_def
        scan_fd.simps [of _ _ None] scan_both.simps [of _ _ _ None] scan_both.simps [of _ _ _ "Some 0"]
        load_node_def store_node_def copy_record_def split: option.split)
  then have spec: "fold gpu_fd_spec (ops_of ?ops no_nodes) Map.empty = [5 \<mapsto> dir_record]"
    by (auto simp: spec_store_def)
  have "\<forall>op \<in> set ?ops. op_malloc_fresh op" using two_nodes_fresh by simp
  from linked_list_refines_map [OF this, unfolded spec] obtain s where
    "node_run ?ops no_nodes = Some s" "\<forall>fd :: int. node_map_get fd s = Some ([5 \<mapsto> dir_record] fd)"
    "card (dom (gt_nodes s)) = card (dom [5 :: int \<mapsto> dir_record])" by blast
  then show ?thesis by (intro exI [of _ s] conjI) (assumption | simp)+
qed

end
