(* ===== verification/Gpu_Ioctl_Filter.thy ===== *)
theory Gpu_Ioctl_Filter
  imports Core_Config Gpu_Proc_Filter
begin

unbundle bit_operations_syntax

text \<open>
  The filter on the driver's answers (\<open>gpu/ioctl_filter.c\<close>, \<open>gpu/nvidia_rm.h\<close>): the card
  table of \<open>NV_ESC_CARD_INFO\<close> and two RM control commands that list GPU ids. The answers
  stand in the caller's memory, which the model has byte by byte with the structures at
  their ABI offsets, so pointers, overlaps and everything the filter must not touch are
  part of the statements. Trace lines are left out.
\<close>

section \<open>Memory\<close>

text \<open>Addresses are numbers, 0 is NULL; words are little endian.\<close>

type_synonym mem = "nat \<Rightarrow> u8"

definition read_u32 :: "mem \<Rightarrow> nat \<Rightarrow> u32" where
  "read_u32 m a = ucast (m a) OR push_bit 8 (ucast (m (a + 1))) OR
     push_bit 16 (ucast (m (a + 2))) OR push_bit 24 (ucast (m (a + 3)))"

definition read_u64 :: "mem \<Rightarrow> nat \<Rightarrow> u64" where
  "read_u64 m a = ucast (read_u32 m a) OR push_bit 32 (ucast (read_u32 m (a + 4)))"

definition write_u32 :: "mem \<Rightarrow> nat \<Rightarrow> u32 \<Rightarrow> mem" where
  "write_u32 m a w = m(a := ucast w, a + 1 := ucast (drop_bit 8 w),
     a + 2 := ucast (drop_bit 16 w), a + 3 := ucast (drop_bit 24 w))"

text \<open>\<open>memset (p, 0, n)\<close>\<close>

definition memset_zero :: "mem \<Rightarrow> nat \<Rightarrow> nat \<Rightarrow> mem" where
  "memset_zero m p n = (\<lambda>x. if p \<le> x \<and> x < p + n then 0 else m x)"

section \<open>The driver's interface\<close>

text \<open>\<open>_IOWR (type, nr, size)\<close> of \<open>asm-generic/ioctl.h\<close>\<close>

definition iowr :: "u64 \<Rightarrow> u64 \<Rightarrow> u64 \<Rightarrow> u64" where
  "iowr type nr sz = push_bit 30 3 OR push_bit 16 sz OR push_bit 8 type OR nr"

abbreviation RPS_NV_MAX_DEVICES :: nat where "RPS_NV_MAX_DEVICES \<equiv> 32"
abbreviation RPS_NV0000_CTRL_GPU_MAX_ATTACHED_GPUS :: nat where
  "RPS_NV0000_CTRL_GPU_MAX_ATTACHED_GPUS \<equiv> 32"
abbreviation RPS_NV0000_CTRL_GPU_MAX_ACTIVE_DEVICES :: nat where
  "RPS_NV0000_CTRL_GPU_MAX_ACTIVE_DEVICES \<equiv> 256"
abbreviation RPS_NV0000_CTRL_GPU_INVALID_ID :: u32 where
  "RPS_NV0000_CTRL_GPU_INVALID_ID \<equiv> 0xFFFFFFFF"
abbreviation RPS_NV0000_CTRL_CMD_GPU_GET_ATTACHED_IDS :: u32 where
  "RPS_NV0000_CTRL_CMD_GPU_GET_ATTACHED_IDS \<equiv> 0x201"
abbreviation RPS_NV0000_CTRL_CMD_GPU_GET_ACTIVE_DEVICE_IDS :: u32 where
  "RPS_NV0000_CTRL_CMD_GPU_GET_ACTIVE_DEVICE_IDS \<equiv> 0x288"

text \<open>Sizes of the structures: \<open>rps_nvos54_parameters\<close>, a card entry, an active device.\<close>

abbreviation sizeof_nvos54 :: nat where "sizeof_nvos54 \<equiv> 32"
abbreviation sizeof_card :: nat where "sizeof_card \<equiv> 72"
abbreviation sizeof_active_device :: nat where "sizeof_active_device \<equiv> 12"

definition RPS_IOCTL_RM_CONTROL_REQUEST :: u64 where
  "RPS_IOCTL_RM_CONTROL_REQUEST = iowr 0x46 0x2A (of_nat sizeof_nvos54)"

definition RPS_IOCTL_CARD_INFO_REQUEST :: u64 where
  "RPS_IOCTL_CARD_INFO_REQUEST = iowr 0x46 200 (of_nat (sizeof_card * RPS_NV_MAX_DEVICES))"

definition rps_request_is_rm_control :: "u64 \<Rightarrow> bool" where
  "rps_request_is_rm_control request \<longleftrightarrow> request = RPS_IOCTL_RM_CONTROL_REQUEST"

definition rps_request_is_card_info :: "u64 \<Rightarrow> bool" where
  "rps_request_is_card_info request \<longleftrightarrow> request = RPS_IOCTL_CARD_INFO_REQUEST"

text \<open>\<open>struct rps_nvos54_parameters\<close>\<close>

definition rm_cmd :: "mem \<Rightarrow> nat \<Rightarrow> u32" where "rm_cmd m rm = read_u32 m (rm + 8)"
definition rm_params :: "mem \<Rightarrow> nat \<Rightarrow> u64" where "rm_params m rm = read_u64 m (rm + 16)"
definition rm_paramsSize :: "mem \<Rightarrow> nat \<Rightarrow> u32" where "rm_paramsSize m rm = read_u32 m (rm + 24)"
definition rm_status :: "mem \<Rightarrow> nat \<Rightarrow> u32" where "rm_status m rm = read_u32 m (rm + 28)"

text \<open>\<open>cards[i]\<close>: its \<open>valid\<close> byte, its GPU id and its minor number.\<close>

definition card_at :: "nat \<Rightarrow> nat \<Rightarrow> nat" where "card_at cards i = cards + sizeof_card * i"
definition card_valid :: "mem \<Rightarrow> nat \<Rightarrow> u8" where "card_valid m c = m c"
definition card_gpu_id :: "mem \<Rightarrow> nat \<Rightarrow> u32" where "card_gpu_id m c = read_u32 m (c + 16)"
definition card_minor_number :: "mem \<Rightarrow> nat \<Rightarrow> u32" where "card_minor_number m c = read_u32 m (c + 56)"

text \<open>\<open>struct rps_nv0000_ctrl_gpu_get_active_device_ids_params\<close>\<close>

record active_device =
  ad_gpuId :: u32
  ad_gpuInstanceId :: u32
  ad_computeInstanceId :: u32

definition device_at :: "nat \<Rightarrow> nat \<Rightarrow> nat" where
  "device_at params i = params + 4 + sizeof_active_device * i"

definition read_device :: "mem \<Rightarrow> nat \<Rightarrow> active_device" where
  "read_device m a = \<lparr>ad_gpuId = read_u32 m a, ad_gpuInstanceId = read_u32 m (a + 4),
     ad_computeInstanceId = read_u32 m (a + 8)\<rparr>"

definition write_device :: "mem \<Rightarrow> nat \<Rightarrow> active_device \<Rightarrow> mem" where
  "write_device m a d = write_u32 (write_u32 (write_u32 m a (ad_gpuId d))
     (a + 4) (ad_gpuInstanceId d)) (a + 8) (ad_computeInstanceId d)"

section \<open>Operations\<close>

definition rps_gpu_allowed_contains_minor :: "rps_gpu_allowed_gpus option \<Rightarrow> u32 \<Rightarrow> bool" where
  "rps_gpu_allowed_contains_minor allowed minor =
     (case allowed of
        None \<Rightarrow> False
      | Some a \<Rightarrow> ga_valid a \<and>
          list_ex (\<lambda>g. gi_present g \<and> gi_device_minor g \<ge> 0 \<and>
                       word_of_int (gi_device_minor g) = minor) (ga_gpus a))"

text \<open>The ids are the first \<open>g_allowed_gpu_id_count\<close> elements of \<open>g_allowed_gpu_ids\<close>.\<close>

definition rps_gpu_id_is_allowed_locked :: "u32 list \<Rightarrow> u32 \<Rightarrow> bool" where
  "rps_gpu_id_is_allowed_locked ids gpu_id = list_ex (\<lambda>x. x = gpu_id) ids"

definition rps_gpu_remember_allowed_gpu_id_locked :: "u32 \<Rightarrow> u32 list \<Rightarrow> u32 list" where
  "rps_gpu_remember_allowed_gpu_id_locked gpu_id ids =
     (if gpu_id = RPS_NV0000_CTRL_GPU_INVALID_ID \<or> rps_gpu_id_is_allowed_locked ids gpu_id
         \<or> length ids \<ge> RPS_GPU_MAX_GPUS
      then ids else ids @ [gpu_id])"

definition record_card ::
    "rps_gpu_allowed_gpus option \<Rightarrow> mem \<Rightarrow> nat \<Rightarrow> nat \<Rightarrow> u32 list \<Rightarrow> u32 list" where
  "record_card allowed m cards i ids =
     (let c = card_at cards i in
      if card_valid m c \<noteq> 0 \<and> rps_gpu_allowed_contains_minor allowed (card_minor_number m c)
      then rps_gpu_remember_allowed_gpu_id_locked (card_gpu_id m c) ids else ids)"

definition rps_gpu_record_card_info_gpu_ids ::
    "rps_gpu_allowed_gpus option \<Rightarrow> mem \<Rightarrow> nat \<Rightarrow> nat \<Rightarrow> u32 list \<Rightarrow> u32 list" where
  "rps_gpu_record_card_info_gpu_ids allowed m cards count ids =
     (case allowed of
        None \<Rightarrow> ids
      | Some a \<Rightarrow>
          if \<not> ga_valid a \<or> cards = 0 then ids
          else fold (record_card allowed m cards) [0..<count] ids)"

definition filter_card :: "rps_gpu_allowed_gpus option \<Rightarrow> nat \<Rightarrow> nat \<Rightarrow> mem \<Rightarrow> mem" where
  "filter_card allowed cards i m =
     (let c = card_at cards i in
      if card_valid m c \<noteq> 0 \<and> \<not> rps_gpu_allowed_contains_minor allowed (card_minor_number m c)
      then m(c := 0) else m)"

definition rps_gpu_filter_card_info ::
    "rps_gpu_allowed_gpus option \<Rightarrow> nat \<Rightarrow> nat \<Rightarrow> mem \<Rightarrow> mem" where
  "rps_gpu_filter_card_info allowed cards count m =
     (case allowed of
        None \<Rightarrow> m
      | Some a \<Rightarrow>
          if \<not> ga_valid a \<or> cards = 0 then m
          else fold (filter_card allowed cards) [0..<count] m)"

definition rps_gpu_ioctl_filter_enabled ::
    "rps_config \<Rightarrow> rps_gpu_allowed_gpus option \<Rightarrow> int \<Rightarrow> mem \<Rightarrow> nat \<Rightarrow> bool" where
  "rps_gpu_ioctl_filter_enabled cfg allowed result m rm \<longleftrightarrow>
     cfg_gpu_video cfg \<and> cfg_gpu_ioctl cfg \<and>
     (case allowed of None \<Rightarrow> False | Some a \<Rightarrow> ga_valid a) \<and>
     result = 0 \<and> rm \<noteq> 0 \<and> rm_status m rm = 0 \<and> rm_params m rm \<noteq> 0"

text \<open>The loop over the ids, which ends at the first invalid one.\<close>

fun keep_ids :: "u32 list \<Rightarrow> u32 list \<Rightarrow> u32 list \<Rightarrow> u32 list" where
  "keep_ids ids kept [] = kept"
| "keep_ids ids kept (gpu_id # rest) =
     (if gpu_id = RPS_NV0000_CTRL_GPU_INVALID_ID then kept
      else if rps_gpu_id_is_allowed_locked ids gpu_id \<and> length kept < RPS_GPU_MAX_GPUS
      then keep_ids ids (kept @ [gpu_id]) rest
      else keep_ids ids kept rest)"

definition read_ids :: "mem \<Rightarrow> nat \<Rightarrow> nat \<Rightarrow> u32 list" where
  "read_ids m gpu_ids count = map (\<lambda>i. read_u32 m (gpu_ids + 4 * i)) [0..<count]"

text \<open>The result: the return value, the memory, \<open>*kept_out\<close>.\<close>

definition rps_gpu_filter_gpu_id_array ::
    "u32 list \<Rightarrow> mem \<Rightarrow> nat \<Rightarrow> nat \<Rightarrow> bool \<times> mem \<times> nat" where
  "rps_gpu_filter_gpu_id_array ids m gpu_ids count =
     (if gpu_ids = 0 \<or> count = 0 then (False, m, 0)
      else if ids = [] then (False, m, 0)
      else
        let kept = keep_ids ids [] (read_ids m gpu_ids count);
            m = fold (\<lambda>i m. write_u32 m (gpu_ids + 4 * i)
                  (if i < length kept then kept ! i else RPS_NV0000_CTRL_GPU_INVALID_ID))
                [0..<count] m in
        (True, m, length kept))"

definition rps_gpu_filter_active_devices :: "u32 list \<Rightarrow> mem \<Rightarrow> nat \<Rightarrow> bool \<times> mem \<times> nat" where
  "rps_gpu_filter_active_devices ids m params =
     (if params = 0 then (False, m, 0)
      else if ids = [] then (False, m, 0)
      else
        let count = unat (read_u32 m params);
            count = (if count > RPS_NV0000_CTRL_GPU_MAX_ACTIVE_DEVICES
                     then RPS_NV0000_CTRL_GPU_MAX_ACTIVE_DEVICES else count);
            kept = filter (\<lambda>d. rps_gpu_id_is_allowed_locked ids (ad_gpuId d))
                     (map (\<lambda>i. read_device m (device_at params i)) [0..<count]);
            kept_count = length kept;
            m = fold (\<lambda>i m. write_device m (device_at params i) (kept ! i)) [0..<kept_count] m;
            m = (if kept_count < RPS_NV0000_CTRL_GPU_MAX_ACTIVE_DEVICES
                 then memset_zero m (device_at params kept_count)
                        (sizeof_active_device * (RPS_NV0000_CTRL_GPU_MAX_ACTIVE_DEVICES - kept_count))
                 else m);
            m = write_u32 m params (of_nat kept_count) in
        (True, m, kept_count))"

definition rps_gpu_filter_rm_control ::
    "rps_config \<Rightarrow> rps_gpu_allowed_gpus option \<Rightarrow> u32 list \<Rightarrow> mem \<Rightarrow> nat \<Rightarrow> int \<Rightarrow> mem" where
  "rps_gpu_filter_rm_control cfg allowed ids m rm result =
     (if \<not> rps_gpu_ioctl_filter_enabled cfg allowed result m rm then m
      else if rm_cmd m rm = RPS_NV0000_CTRL_CMD_GPU_GET_ATTACHED_IDS \<and>
              unat (rm_paramsSize m rm) \<ge> 4 * RPS_NV0000_CTRL_GPU_MAX_ATTACHED_GPUS
      then fst (snd (rps_gpu_filter_gpu_id_array ids m (unat (rm_params m rm))
                  RPS_NV0000_CTRL_GPU_MAX_ATTACHED_GPUS))
      else if rm_cmd m rm = RPS_NV0000_CTRL_CMD_GPU_GET_ACTIVE_DEVICE_IDS \<and>
              unat (rm_paramsSize m rm) \<ge>
                4 + sizeof_active_device * RPS_NV0000_CTRL_GPU_MAX_ACTIVE_DEVICES
      then fst (snd (rps_gpu_filter_active_devices ids m (unat (rm_params m rm))))
      else m)"

text \<open>The caller's memory and the remembered ids after the call; \<open>cfg\<close> is \<open>*rps_config_get ()\<close>.\<close>

definition rps_gpu_ioctl_filter_after ::
    "rps_config \<Rightarrow> rps_gpu_allowed_gpus option \<Rightarrow> u64 \<Rightarrow> nat \<Rightarrow> int \<Rightarrow> mem \<times> u32 list \<Rightarrow> mem \<times> u32 list"
where
  "rps_gpu_ioctl_filter_after cfg allowed request arg result st =
     (let (m, ids) = st in
      if result \<noteq> 0 \<or> arg = 0 then (m, ids)
      else if rps_request_is_card_info request then
        let ids = rps_gpu_record_card_info_gpu_ids allowed m arg RPS_NV_MAX_DEVICES ids in
        (if cfg_gpu_video cfg \<and> cfg_gpu_ioctl cfg
         then rps_gpu_filter_card_info allowed arg RPS_NV_MAX_DEVICES m else m, ids)
      else if rps_request_is_rm_control request then
        (rps_gpu_filter_rm_control cfg allowed ids m arg result, ids)
      else (m, ids))"

section \<open>Memory: lemmas\<close>

lemma read_write_u32 [simp]: "read_u32 (write_u32 m a w) a = w"
proof (rule bit_word_eqI)
  fix n assume "n < LENGTH(32)"
  then consider "n < 8" | "8 \<le> n" "n < 16" | "16 \<le> n" "n < 24" | "24 \<le> n" "n < 32" by fastforce
  then show "bit (read_u32 (write_u32 m a w) a) n = bit w n"
    by cases (auto simp: read_u32_def write_u32_def bit_simps)
qed

lemma read_write_u32_apart:
  "a + 4 \<le> b \<or> b + 4 \<le> a \<Longrightarrow> read_u32 (write_u32 m a w) b = read_u32 m b"
  by (auto simp: read_u32_def write_u32_def)

lemma write_u32_frame: "x < a \<or> a + 4 \<le> x \<Longrightarrow> write_u32 m a w x = m x"
  by (auto simp: write_u32_def)

lemma read_u32_cong: "(\<And>x. a \<le> x \<Longrightarrow> x < a + 4 \<Longrightarrow> m x = m' x) \<Longrightarrow> read_u32 m a = read_u32 m' a"
  by (simp add: read_u32_def)

lemma request_numbers:
  "RPS_IOCTL_RM_CONTROL_REQUEST = 0xC020462A" "RPS_IOCTL_CARD_INFO_REQUEST = 0xC90046C8"
  by (simp_all add: RPS_IOCTL_RM_CONTROL_REQUEST_def RPS_IOCTL_CARD_INFO_REQUEST_def iowr_def)

lemma requests_distinct: "rps_request_is_card_info r \<Longrightarrow> \<not> rps_request_is_rm_control r"
  by (simp add: rps_request_is_card_info_def rps_request_is_rm_control_def request_numbers)

text \<open>Filling an array of words, or of devices.\<close>

lemma write_words:
  "(\<forall>i < n. read_u32 (fold (\<lambda>i m. write_u32 m (p + 4 * i) (f i)) [0..<n] m) (p + 4 * i) = f i) \<and>
   (\<forall>x. x < p \<or> p + 4 * n \<le> x \<longrightarrow>
      fold (\<lambda>i m. write_u32 m (p + 4 * i) (f i)) [0..<n] m x = m x)"
proof (induction n)
  case 0
  then show ?case by simp
next
  case (Suc n)
  let ?m = "fold (\<lambda>i m. write_u32 m (p + 4 * i) (f i)) [0..<n] m"
  have "read_u32 (write_u32 ?m (p + 4 * n) (f n)) (p + 4 * i) = f i" if "i < Suc n" for i
    using that Suc by (cases "i = n") (simp_all add: read_write_u32_apart)
  moreover have "write_u32 ?m (p + 4 * n) (f n) x = m x" if "x < p \<or> p + 4 * Suc n \<le> x" for x
    using that Suc by (auto simp: write_u32_frame)
  ultimately show ?case by simp
qed

lemma read_write_device [simp]: "read_device (write_device m a d) a = d"
  by (simp add: read_device_def write_device_def read_write_u32_apart)

lemma read_write_device_apart:
  "a + 12 \<le> b \<or> b + 12 \<le> a \<Longrightarrow> read_device (write_device m a d) b = read_device m b"
  by (auto simp: read_device_def write_device_def read_write_u32_apart)

lemma write_device_frame: "x < a \<or> a + 12 \<le> x \<Longrightarrow> write_device m a d x = m x"
  by (auto simp: write_device_def write_u32_frame)

lemma read_device_cong:
  "(\<And>x. a \<le> x \<Longrightarrow> x < a + 12 \<Longrightarrow> m x = m' x) \<Longrightarrow> read_device m a = read_device m' a"
  unfolding read_device_def by (auto intro!: read_u32_cong)

lemma write_devices:
  "(\<forall>i < n. read_device (fold (\<lambda>i m. write_device m (device_at p i) (f i)) [0..<n] m) (device_at p i) = f i) \<and>
   (\<forall>x. x < device_at p 0 \<or> device_at p n \<le> x \<longrightarrow>
      fold (\<lambda>i m. write_device m (device_at p i) (f i)) [0..<n] m x = m x)"
proof (induction n)
  case 0
  then show ?case by simp
next
  case (Suc n)
  let ?m = "fold (\<lambda>i m. write_device m (device_at p i) (f i)) [0..<n] m"
  have "read_device (write_device ?m (device_at p n) (f n)) (device_at p i) = f i" if "i < Suc n" for i
    using that Suc by (cases "i = n") (simp_all add: read_write_device_apart device_at_def)
  moreover have "write_device ?m (device_at p n) (f n) x = m x"
    if "x < device_at p 0 \<or> device_at p (Suc n) \<le> x" for x
    using that Suc by (auto simp: write_device_frame device_at_def)
  ultimately show ?case by simp
qed

lemma memset_zero_device:
  "p \<le> a \<Longrightarrow> a + 12 \<le> p + n \<Longrightarrow> read_device (memset_zero m p n) a = \<lparr>ad_gpuId = 0,
     ad_gpuInstanceId = 0, ad_computeInstanceId = 0\<rparr>"
  by (simp add: read_device_def read_u32_def memset_zero_def)

section \<open>The remembered ids: lemmas\<close>

lemma id_is_allowed_iff [simp]: "rps_gpu_id_is_allowed_locked ids x \<longleftrightarrow> x \<in> set ids"
  by (simp add: rps_gpu_id_is_allowed_locked_def list_ex_iff)

definition gpu_ids_ok :: "u32 list \<Rightarrow> bool" where
  "gpu_ids_ok ids \<longleftrightarrow> distinct ids \<and> length ids \<le> RPS_GPU_MAX_GPUS \<and>
     RPS_NV0000_CTRL_GPU_INVALID_ID \<notin> set ids"

lemma record_card_ok: "gpu_ids_ok ids \<Longrightarrow> gpu_ids_ok (record_card allowed m cards i ids)"
  by (auto simp: record_card_def gpu_ids_ok_def rps_gpu_remember_allowed_gpu_id_locked_def Let_def)

text \<open>A card the driver reported, with a minor number of the allowed set.\<close>

definition allowed_card :: "rps_gpu_allowed_gpus option \<Rightarrow> mem \<Rightarrow> nat \<Rightarrow> u32 \<Rightarrow> bool" where
  "allowed_card allowed m cards gpu_id \<longleftrightarrow>
     (\<exists>i < RPS_NV_MAX_DEVICES. card_gpu_id m (card_at cards i) = gpu_id \<and>
        card_valid m (card_at cards i) \<noteq> 0 \<and>
        rps_gpu_allowed_contains_minor allowed (card_minor_number m (card_at cards i)))"

lemma record_card_set:
  "set (record_card allowed m cards i ids) \<subseteq> set ids \<union>
     {g. card_gpu_id m (card_at cards i) = g \<and> card_valid m (card_at cards i) \<noteq> 0 \<and>
         rps_gpu_allowed_contains_minor allowed (card_minor_number m (card_at cards i))}"
  by (auto simp: record_card_def rps_gpu_remember_allowed_gpu_id_locked_def Let_def)

lemma record_cards:
  assumes "gpu_ids_ok ids" "n \<le> RPS_NV_MAX_DEVICES"
  shows "gpu_ids_ok (rps_gpu_record_card_info_gpu_ids allowed m cards n ids) \<and>
    set (rps_gpu_record_card_info_gpu_ids allowed m cards n ids)
      \<subseteq> set ids \<union> {g. allowed_card allowed m cards g}"
proof -
  have "gpu_ids_ok (fold (record_card allowed m cards) [0..<n] ids) \<and>
      set (fold (record_card allowed m cards) [0..<n] ids)
        \<subseteq> set ids \<union> {g. allowed_card allowed m cards g}"
    using assms(2)
  proof (induction n)
    case 0
    then show ?case using assms(1) by simp
  next
    case (Suc n)
    let ?ids = "fold (record_card allowed m cards) [0..<n] ids"
    have "set (record_card allowed m cards n ?ids) \<subseteq> set ?ids \<union> {g. allowed_card allowed m cards g}"
      using record_card_set [of allowed m cards n ?ids] Suc.prems
      by (auto simp: allowed_card_def Suc_le_eq)
    with Suc show ?case by (auto simp: record_card_ok)
  qed
  with assms(1) show ?thesis
    by (auto simp: rps_gpu_record_card_info_gpu_ids_def split: option.split)
qed

section \<open>The card table: lemmas\<close>

lemma filter_cards:
  "fold (filter_card allowed cards) [0..<n] m =
     (\<lambda>x. if \<exists>i < n. x = card_at cards i \<and>
              \<not> rps_gpu_allowed_contains_minor allowed (card_minor_number m (card_at cards i))
          then 0 else m x)"
proof (induction n)
  case 0
  then show ?case by simp
next
  case (Suc n)
  let ?m = "fold (filter_card allowed cards) [0..<n] m"
  have same: "?m x = m x" if "\<forall>i. x \<noteq> card_at cards i" for x
    using that by (auto simp: Suc)
  have "card_minor_number ?m (card_at cards n) = card_minor_number m (card_at cards n)"
    unfolding card_minor_number_def
  proof (rule read_u32_cong, rule same, intro allI notI)
    fix x i
    assume "card_at cards n + 56 \<le> x" "x < card_at cards n + 56 + 4" "x = card_at cards i"
    then have "72 * n + 56 \<le> 72 * i" "72 * i < 72 * n + 60" by (simp_all add: card_at_def)
    then show False by presburger
  qed
  moreover have "?m (card_at cards n) = m (card_at cards n)"
    by (auto simp: Suc card_at_def)
  ultimately have "fold (filter_card allowed cards) [0..<Suc n] m =
      (if m (card_at cards n) \<noteq> 0 \<and>
          \<not> rps_gpu_allowed_contains_minor allowed (card_minor_number m (card_at cards n))
       then ?m(card_at cards n := 0) else ?m)"
    by (simp add: filter_card_def Let_def card_valid_def)
  then show ?case by (auto simp: Suc fun_eq_iff less_Suc_eq)
qed

section \<open>The id lists: lemmas\<close>

lemma keep_ids_eq:
  "length kept \<le> RPS_GPU_MAX_GPUS \<Longrightarrow>
     keep_ids ids kept vs = take RPS_GPU_MAX_GPUS
       (kept @ filter (\<lambda>x. x \<in> set ids) (takeWhile (\<lambda>x. x \<noteq> RPS_NV0000_CTRL_GPU_INVALID_ID) vs))"
proof (induction ids kept vs rule: keep_ids.induct)
  case (1 ids kept)
  then show ?case by simp
next
  case (2 ids kept v vs)
  then show ?case by (cases "length kept < RPS_GPU_MAX_GPUS") (auto simp: take_Cons')
qed

text \<open>The GPUs a caller reads from the two answers.\<close>

definition attached_ids :: "mem \<Rightarrow> nat \<Rightarrow> u32 list" where
  "attached_ids m p = takeWhile (\<lambda>x. x \<noteq> RPS_NV0000_CTRL_GPU_INVALID_ID)
     (read_ids m p RPS_NV0000_CTRL_GPU_MAX_ATTACHED_GPUS)"

definition active_devices :: "mem \<Rightarrow> nat \<Rightarrow> active_device list" where
  "active_devices m p = map (\<lambda>i. read_device m (device_at p i))
     [0..<min RPS_NV0000_CTRL_GPU_MAX_ACTIVE_DEVICES (unat (read_u32 m p))]"

lemma filter_gpu_id_array_eq:
  assumes "p \<noteq> 0" "ids \<noteq> []" "RPS_NV0000_CTRL_GPU_INVALID_ID \<notin> set ids"
    and "rps_gpu_filter_gpu_id_array ids m p RPS_NV0000_CTRL_GPU_MAX_ATTACHED_GPUS = (ok, m', k)"
  shows "ok \<and> k = length (attached_ids m' p) \<and>
    attached_ids m' p = filter (\<lambda>x. x \<in> set ids) (attached_ids m p) \<and>
    read_ids m' p 32 = attached_ids m' p @ replicate (32 - k) RPS_NV0000_CTRL_GPU_INVALID_ID \<and>
    (\<forall>x. x < p \<or> p + 128 \<le> x \<longrightarrow> m' x = m x)"
proof -
  let ?kept = "filter (\<lambda>x. x \<in> set ids) (attached_ids m p)"
  have len: "length ?kept \<le> 32"
    by (rule order_trans [OF length_filter_le])
      (simp add: attached_ids_def read_ids_def order_trans [OF length_takeWhile_le])
  then have kept: "keep_ids ids [] (read_ids m p 32) = ?kept"
    by (simp add: keep_ids_eq attached_ids_def)
  let ?f = "\<lambda>i. if i < length ?kept then ?kept ! i else RPS_NV0000_CTRL_GPU_INVALID_ID"
  have "rps_gpu_filter_gpu_id_array ids m p 32 =
      (True, fold (\<lambda>i m. write_u32 m (p + 4 * i) (?f i)) [0..<32] m, length ?kept)"
    using assms(1,2) by (simp add: rps_gpu_filter_gpu_id_array_def kept Let_def)
  from this [unfolded assms(4)] have res: "ok" "k = length ?kept"
    and m': "m' = fold (\<lambda>i m. write_u32 m (p + 4 * i) (?f i)) [0..<32] m"
    by (simp_all only: prod.inject)
  have reads: "read_ids m' p 32 = map ?f [0..<32]"
    unfolding m' read_ids_def using write_words [of 32 p ?f m] by simp
  have pad: "map ?f [0..<32] = ?kept @ replicate (32 - length ?kept) RPS_NV0000_CTRL_GPU_INVALID_ID"
    using len by (intro nth_equalityI) (simp_all add: nth_append)
  have "attached_ids m' p = ?kept"
  proof -
    have "\<forall>x \<in> set ?kept. x \<noteq> RPS_NV0000_CTRL_GPU_INVALID_ID" using assms(3) by auto
    then have "takeWhile (\<lambda>x. x \<noteq> RPS_NV0000_CTRL_GPU_INVALID_ID) (?kept @ r) =
        ?kept @ takeWhile (\<lambda>x. x \<noteq> RPS_NV0000_CTRL_GPU_INVALID_ID) r" for r
      by (intro takeWhile_append2) blast
    then show ?thesis unfolding attached_ids_def [of m'] reads pad by simp
  qed
  moreover have "\<forall>x. x < p \<or> p + 128 \<le> x \<longrightarrow> m' x = m x"
    using write_words [of 32 p ?f m] unfolding m' by simp
  ultimately show ?thesis using res reads pad by simp
qed

lemma filter_active_devices_eq:
  assumes "p \<noteq> 0" "ids \<noteq> []" and "rps_gpu_filter_active_devices ids m p = (ok, m', k)"
  shows "ok \<and> k = length (active_devices m' p) \<and>
    active_devices m' p = filter (\<lambda>d. ad_gpuId d \<in> set ids) (active_devices m p) \<and>
    (\<forall>i. k \<le> i \<and> i < 256 \<longrightarrow> read_device m' (device_at p i) =
       \<lparr>ad_gpuId = 0, ad_gpuInstanceId = 0, ad_computeInstanceId = 0\<rparr>) \<and>
    (\<forall>x. x < p \<or> p + 3076 \<le> x \<longrightarrow> m' x = m x)"
proof -
  let ?kept = "filter (\<lambda>d. ad_gpuId d \<in> set ids) (active_devices m p)"
  have len: "length ?kept \<le> 256"
    by (rule order_trans [OF length_filter_le]) (simp add: active_devices_def)
  have clamp: "(if n > 256 then 256 else n) = min 256 n" for n :: nat by simp
  let ?k = "length ?kept"
  let ?m1 = "fold (\<lambda>i m. write_device m (device_at p i) (?kept ! i)) [0..<?k] m"
  let ?m2 = "if ?k < 256 then memset_zero ?m1 (device_at p ?k) (12 * (256 - ?k)) else ?m1"
  have "rps_gpu_filter_active_devices ids m p = (True, write_u32 ?m2 p (of_nat ?k), ?k)"
    using assms(1,2) unfolding rps_gpu_filter_active_devices_def Let_def clamp
      active_devices_def [symmetric] by simp
  from this [unfolded assms(3)] have res: "ok" "k = ?k" and m': "m' = write_u32 ?m2 p (of_nat ?k)"
    by (simp_all only: prod.inject)
  note w = write_devices [of ?k p "(!) ?kept" m]
  have m2: "?m2 x = (if device_at p ?k \<le> x \<and> x < p + 3076 then 0 else ?m1 x)" for x
    using len by (auto simp: memset_zero_def device_at_def)
  have dev: "read_device m' (device_at p i) = read_device ?m2 (device_at p i)" for i
    unfolding m' by (rule read_device_cong) (simp add: write_u32_frame device_at_def)
  have "read_device ?m2 (device_at p i) = read_device ?m1 (device_at p i)" if "i < ?k" for i
    using that by (intro read_device_cong) (simp only: m2, simp add: device_at_def)
  then have kept: "read_device m' (device_at p i) = ?kept ! i" if "i < ?k" for i
    using that w dev by simp
  have num: "read_u32 m' p = of_nat ?k" unfolding m' by simp
  have "unat (of_nat ?k :: u32) = ?k" using len by (simp add: unat_of_nat)
  then have "active_devices m' p = map (\<lambda>i. ?kept ! i) [0..<?k]"
    using len kept unfolding active_devices_def [of m'] num by simp
  then have act: "active_devices m' p = ?kept" by (simp add: map_nth)
  have zero: "read_device m' (device_at p i) = \<lparr>ad_gpuId = 0, ad_gpuInstanceId = 0, ad_computeInstanceId = 0\<rparr>"
    if "?k \<le> i" "i < 256" for i
    using that dev [of i] memset_zero_device [of "device_at p ?k" "device_at p i" "12 * (256 - ?k)" ?m1]
    by (simp add: device_at_def)
  have "m' x = m x" if "x < p \<or> p + 3076 \<le> x" for x
  proof -
    have "m' x = ?m2 x" unfolding m' using that by (intro write_u32_frame) auto
    also have "\<dots> = ?m1 x" unfolding m2 using that by (auto simp: device_at_def)
    also have "\<dots> = m x" using w that len by (auto simp: device_at_def)
    finally show ?thesis .
  qed
  with res act zero show ?thesis by simp
qed

section \<open>Properties\<close>

lemma contains_minor_iff:
  "rps_gpu_allowed_contains_minor allowed minor \<longleftrightarrow>
     (\<exists>a g. allowed = Some a \<and> ga_valid a \<and> g \<in> set (ga_gpus a) \<and> gi_present g \<and> 0 \<le> gi_device_minor g \<and>
        word_of_int (gi_device_minor g) = minor)"
  by (auto simp: rps_gpu_allowed_contains_minor_def list_ex_iff split: option.split)

text \<open>
  C27. The card table after \<open>NV_ESC_CARD_INFO\<close>: with the module on and a valid allowed set,
  the entries whose minor number is not the minor number of an allowed GPU are marked invalid,
  and no other byte of the caller's memory changes.
\<close>

theorem card_info_hides_unmounted:
  assumes "cfg_gpu_video cfg" "cfg_gpu_ioctl cfg" and "ga_valid a" and "arg \<noteq> 0"
  shows "fst (rps_gpu_ioctl_filter_after cfg (Some a) RPS_IOCTL_CARD_INFO_REQUEST arg 0 (m, ids)) =
    (\<lambda>x. if \<exists>i < RPS_NV_MAX_DEVICES. x = card_at arg i \<and>
             card_minor_number m (card_at arg i) \<notin> {word_of_int (gi_device_minor g) | g.
               g \<in> set (ga_gpus a) \<and> gi_present g \<and> 0 \<le> gi_device_minor g}
         then 0 else m x)"
proof -
  have "rps_gpu_allowed_contains_minor (Some a) mn \<longleftrightarrow>
      mn \<in> {word_of_int (gi_device_minor g) | g. g \<in> set (ga_gpus a) \<and> gi_present g \<and> 0 \<le> gi_device_minor g}" for mn
    using assms(3) by (auto simp: contains_minor_iff)
  with assms show ?thesis
    by (simp add: rps_gpu_ioctl_filter_after_def rps_request_is_card_info_def Let_def
        rps_gpu_filter_card_info_def filter_cards)
qed

text \<open>
  C25. The attached-ids answer: when the filter applies (an RM control call that succeeded,
  with a buffer of the right size, and some id remembered), the ids the caller reads up to
  the terminator are those of before that are remembered, in the same order; the rest of the
  array is terminators, and no byte outside the array changes.
\<close>

theorem attached_ids_filtered:
  assumes "rps_gpu_ioctl_filter_enabled cfg allowed 0 m rm"
    and "rm_cmd m rm = RPS_NV0000_CTRL_CMD_GPU_GET_ATTACHED_IDS" "128 \<le> unat (rm_paramsSize m rm)"
    and "ids \<noteq> []" "RPS_NV0000_CTRL_GPU_INVALID_ID \<notin> set ids"
    and "p = unat (rm_params m rm)"
    and "rps_gpu_ioctl_filter_after cfg allowed RPS_IOCTL_RM_CONTROL_REQUEST rm 0 (m, ids) = (m', ids')"
  shows "ids' = ids \<and>
    attached_ids m' p = filter (\<lambda>x. x \<in> set ids) (attached_ids m p) \<and>
    read_ids m' p 32 = attached_ids m' p @
      replicate (32 - length (attached_ids m' p)) RPS_NV0000_CTRL_GPU_INVALID_ID \<and>
    (\<forall>x. x < p \<or> p + 128 \<le> x \<longrightarrow> m' x = m x)"
proof -
  have rm: "rm \<noteq> 0" "p \<noteq> 0"
    using assms(1,6) by (auto simp: rps_gpu_ioctl_filter_enabled_def unat_eq_0)
  have "\<not> rps_request_is_card_info RPS_IOCTL_RM_CONTROL_REQUEST"
    "rps_request_is_rm_control RPS_IOCTL_RM_CONTROL_REQUEST"
    by (simp_all add: rps_request_is_card_info_def rps_request_is_rm_control_def request_numbers)
  with assms rm have m': "m' = fst (snd (rps_gpu_filter_gpu_id_array ids m p 32))" "ids' = ids"
    by (auto simp: rps_gpu_ioctl_filter_after_def rps_gpu_filter_rm_control_def)
  obtain ok m1 k where f: "rps_gpu_filter_gpu_id_array ids m p 32 = (ok, m1, k)"
    by (cases "rps_gpu_filter_gpu_id_array ids m p 32")
  from filter_gpu_id_array_eq [OF rm(2) assms(4,5) f] m' f show ?thesis by simp
qed

text \<open>
  C26. The active-devices answer: when the filter applies, the device list the caller reads
  is the list of before restricted to remembered GPUs (with all fields, in order), the
  unused entries of the array are zero, and no byte outside the structure changes, whatever
  count the driver reported.
\<close>

theorem active_devices_filtered:
  assumes "rps_gpu_ioctl_filter_enabled cfg allowed 0 m rm"
    and "rm_cmd m rm = RPS_NV0000_CTRL_CMD_GPU_GET_ACTIVE_DEVICE_IDS"
    and "3076 \<le> unat (rm_paramsSize m rm)"
    and "ids \<noteq> []" and "p = unat (rm_params m rm)"
    and "rps_gpu_ioctl_filter_after cfg allowed RPS_IOCTL_RM_CONTROL_REQUEST rm 0 (m, ids) = (m', ids')"
  shows "ids' = ids \<and>
    active_devices m' p = filter (\<lambda>d. ad_gpuId d \<in> set ids) (active_devices m p) \<and>
    (\<forall>i. length (active_devices m' p) \<le> i \<and> i < 256 \<longrightarrow> read_device m' (device_at p i) =
       \<lparr>ad_gpuId = 0, ad_gpuInstanceId = 0, ad_computeInstanceId = 0\<rparr>) \<and>
    (\<forall>x. x < p \<or> p + 3076 \<le> x \<longrightarrow> m' x = m x)"
proof -
  have rm: "rm \<noteq> 0" "p \<noteq> 0"
    using assms(1,5) by (auto simp: rps_gpu_ioctl_filter_enabled_def unat_eq_0)
  have "\<not> rps_request_is_card_info RPS_IOCTL_RM_CONTROL_REQUEST"
    "rps_request_is_rm_control RPS_IOCTL_RM_CONTROL_REQUEST"
    by (simp_all add: rps_request_is_card_info_def rps_request_is_rm_control_def request_numbers)
  with assms rm have m': "m' = fst (snd (rps_gpu_filter_active_devices ids m p))" "ids' = ids"
    by (auto simp: rps_gpu_ioctl_filter_after_def rps_gpu_filter_rm_control_def)
  obtain ok m1 k where f: "rps_gpu_filter_active_devices ids m p = (ok, m1, k)"
    by (cases "rps_gpu_filter_active_devices ids m p")
  from filter_active_devices_eq [OF rm(2) assms(4) f] m' f show ?thesis by simp
qed

text \<open>A sequence of ioctls on the control device: request, argument, result, memory after.\<close>

fun ioctl_run ::
    "rps_config \<Rightarrow> rps_gpu_allowed_gpus option \<Rightarrow> (u64 \<times> nat \<times> int \<times> mem) list \<Rightarrow> u32 list \<Rightarrow> u32 list"
where
  "ioctl_run cfg allowed [] ids = ids"
| "ioctl_run cfg allowed ((request, arg, result, m) # evs) ids =
     ioctl_run cfg allowed evs
       (snd (rps_gpu_ioctl_filter_after cfg allowed request arg result (m, ids)))"

lemma ioctl_ids_step:
  assumes "gpu_ids_ok ids"
  shows "gpu_ids_ok (snd (rps_gpu_ioctl_filter_after cfg allowed request arg result (m, ids))) \<and>
    set (snd (rps_gpu_ioctl_filter_after cfg allowed request arg result (m, ids))) \<subseteq> set ids \<union>
      {g. result = 0 \<and> rps_request_is_card_info request \<and> allowed_card allowed m arg g}"
  using record_cards [OF assms order_refl, of allowed m arg] assms
  by (auto simp: rps_gpu_ioctl_filter_after_def Let_def)

lemma ioctl_run_ids:
  "gpu_ids_ok ids \<Longrightarrow> gpu_ids_ok (ioctl_run cfg allowed evs ids) \<and>
     set (ioctl_run cfg allowed evs ids) \<subseteq> set ids \<union>
       {g. \<exists>request arg m. (request, arg, 0, m) \<in> set evs \<and>
             rps_request_is_card_info request \<and> allowed_card allowed m arg g}"
proof (induction cfg allowed evs ids rule: ioctl_run.induct)
  case (1 cfg allowed ids)
  then show ?case by simp
next
  case (2 cfg allowed request arg result m evs ids)
  from ioctl_ids_step [OF "2.prems", of cfg allowed request arg result m] "2.IH"
  show ?case by fastforce
qed

text \<open>
  C28. The remembered ids are sound: after any sequence of ioctls they are at most 32,
  distinct and never the invalid id, and each of them was reported by a successful
  \<open>NV_ESC_CARD_INFO\<close> call for a card whose minor number is allowed.
\<close>

theorem remembered_ids_sound:
  "distinct (ioctl_run cfg allowed evs []) \<and> length (ioctl_run cfg allowed evs []) \<le> 32 \<and>
   RPS_NV0000_CTRL_GPU_INVALID_ID \<notin> set (ioctl_run cfg allowed evs []) \<and>
   set (ioctl_run cfg allowed evs []) \<subseteq>
     {g. \<exists>arg m i. (RPS_IOCTL_CARD_INFO_REQUEST, arg, 0, m) \<in> set evs \<and> i < RPS_NV_MAX_DEVICES \<and>
           card_gpu_id m (card_at arg i) = g \<and> card_valid m (card_at arg i) \<noteq> 0 \<and>
           (\<exists>a info. allowed = Some a \<and> ga_valid a \<and> info \<in> set (ga_gpus a) \<and> gi_present info \<and>
              0 \<le> gi_device_minor info \<and>
              word_of_int (gi_device_minor info) = card_minor_number m (card_at arg i))}"
proof -
  have "gpu_ids_ok []" by (simp add: gpu_ids_ok_def)
  from ioctl_run_ids [OF this, of cfg allowed evs] show ?thesis
    unfolding gpu_ids_ok_def allowed_card_def rps_request_is_card_info_def contains_minor_iff by fastforce
qed

text \<open>
  C29. Fail-open: the filter changes the caller's memory only after a call that succeeded,
  with both GPU modules on and a valid allowed set, and only for the card table or, once ids
  are remembered, one of the two listing commands with parameters; in every other case the
  driver's answer reaches the caller as it is.
\<close>

theorem ioctl_filter_fails_open:
  assumes "fst (rps_gpu_ioctl_filter_after cfg allowed request arg result (m, ids)) \<noteq> m"
  shows "result = 0 \<and> arg \<noteq> 0 \<and> rps_gpu_ioctl_enabled cfg \<and> (\<exists>a. allowed = Some a \<and> ga_valid a) \<and>
    (request = RPS_IOCTL_CARD_INFO_REQUEST \<or>
     request = RPS_IOCTL_RM_CONTROL_REQUEST \<and> ids \<noteq> [] \<and> rm_status m arg = 0 \<and>
       rm_params m arg \<noteq> 0 \<and>
       rm_cmd m arg \<in> {RPS_NV0000_CTRL_CMD_GPU_GET_ATTACHED_IDS,
                       RPS_NV0000_CTRL_CMD_GPU_GET_ACTIVE_DEVICE_IDS})"
proof -
  have top: "result = 0" "arg \<noteq> 0"
    using assms by (auto simp: rps_gpu_ioctl_filter_after_def)
  show ?thesis
  proof (cases "rps_request_is_card_info request")
    case True
    with assms top show ?thesis
      by (auto simp: rps_gpu_ioctl_filter_after_def Let_def rps_gpu_filter_card_info_def
          rps_gpu_ioctl_enabled_def rps_request_is_card_info_def split: if_splits option.splits)
  next
    case False
    with assms top have rm: "rps_request_is_rm_control request"
      "rps_gpu_filter_rm_control cfg allowed ids m arg result \<noteq> m"
      by (auto simp: rps_gpu_ioctl_filter_after_def split: if_splits)
    then have en: "rps_gpu_ioctl_filter_enabled cfg allowed result m arg"
      and cmd: "rm_cmd m arg = RPS_NV0000_CTRL_CMD_GPU_GET_ATTACHED_IDS \<or>
         rm_cmd m arg = RPS_NV0000_CTRL_CMD_GPU_GET_ACTIVE_DEVICE_IDS"
      by (auto simp: rps_gpu_filter_rm_control_def split: if_splits)
    have "ids \<noteq> []"
    proof
      assume "ids = []"
      with rm(2) show False
        by (simp add: rps_gpu_filter_rm_control_def rps_gpu_filter_gpu_id_array_def
            rps_gpu_filter_active_devices_def split: if_splits)
    qed
    with top rm(1) en cmd show ?thesis
      by (auto simp: rps_gpu_ioctl_filter_enabled_def rps_request_is_rm_control_def
          rps_gpu_ioctl_enabled_def split: option.splits)
  qed
qed

section \<open>Witnesses on concrete memory\<close>

definition all_on :: rps_config where
  "all_on = \<lparr>cfg_gpu_video = True, cfg_gpu_ioctl = True, cfg_cgroup_memory = True, cfg_trace = False\<rparr>"

text \<open>One card table entry of minor 1 at 1000; an RM call at 100 with its parameters at 5000.\<close>

definition card_fixture :: mem where
  "card_fixture = write_u32 ((\<lambda>_. 0)(1000 := 1)) 1056 1"

definition rm_fixture :: "u32 \<Rightarrow> u32 \<Rightarrow> mem \<Rightarrow> mem" where
  "rm_fixture cmd sz m = write_u32 (write_u32 (write_u32 m 108 cmd) 116 5000) 124 sz"

definition words_at :: "nat \<Rightarrow> u32 list \<Rightarrow> mem" where
  "words_at p ws = fold (\<lambda>i m. write_u32 m (p + 4 * i) (ws ! i)) [0..<length ws] (\<lambda>_. 0)"

lemma rm_fixture_reads:
  assumes "\<forall>x < 200. m x = 0"
  shows "rm_cmd (rm_fixture cmd sz m) 100 = cmd" "rm_params (rm_fixture cmd sz m) 100 = 5000"
    "rm_paramsSize (rm_fixture cmd sz m) 100 = sz" "rm_status (rm_fixture cmd sz m) 100 = 0"
    "5000 \<le> a \<Longrightarrow> read_u32 (rm_fixture cmd sz m) a = read_u32 m a"
proof -
  have zero: "read_u32 m 120 = 0" "read_u32 m 128 = 0"
    using assms by (simp_all add: read_u32_def)
  show "rm_cmd (rm_fixture cmd sz m) 100 = cmd" "rm_params (rm_fixture cmd sz m) 100 = 5000"
    "rm_paramsSize (rm_fixture cmd sz m) 100 = sz" "rm_status (rm_fixture cmd sz m) 100 = 0"
    "5000 \<le> a \<Longrightarrow> read_u32 (rm_fixture cmd sz m) a = read_u32 m a"
    by (simp_all add: rm_fixture_def rm_cmd_def rm_params_def rm_paramsSize_def rm_status_def
        read_u64_def read_write_u32_apart zero)
qed

lemma words_at_read: "i < length ws \<Longrightarrow> read_u32 (words_at p ws) (p + 4 * i) = ws ! i"
  using write_words [of "length ws" p "(!) ws"] by (simp add: words_at_def)

lemma words_at_below: "x < p \<Longrightarrow> words_at p ws x = 0"
  using write_words [of "length ws" p "(!) ws"] by (simp add: words_at_def)

lemma fixture_enabled:
  assumes "\<forall>x < 200. m x = 0"
  shows "rps_gpu_ioctl_filter_enabled all_on (Some one_gpu) 0 (rm_fixture cmd sz m) 100"
  using rm_fixture_reads [OF assms]
  by (simp add: rps_gpu_ioctl_filter_enabled_def all_on_def one_gpu_def)

theorem card_info_hides_unmounted_witness:
  "card_fixture 1000 = 1 \<and>
   fst (rps_gpu_ioctl_filter_after all_on (Some one_gpu) RPS_IOCTL_CARD_INFO_REQUEST 1000 0
     (card_fixture, [])) 1000 = 0"
proof -
  let ?minors = "{word_of_int (gi_device_minor g) | g.
    g \<in> set (ga_gpus one_gpu) \<and> gi_present g \<and> 0 \<le> gi_device_minor g} :: u32 set"
  have "card_minor_number card_fixture (card_at 1000 0) = 1"
    by (simp add: card_minor_number_def card_fixture_def card_at_def)
  moreover have "?minors = {0}" by (auto simp: one_gpu_def)
  ultimately have hidden: "\<exists>i < RPS_NV_MAX_DEVICES. 1000 = card_at 1000 i \<and>
      card_minor_number card_fixture (card_at 1000 i) \<notin> ?minors"
    by (intro exI [of _ 0]) (simp add: card_at_def)
  have "fst (rps_gpu_ioctl_filter_after all_on (Some one_gpu) RPS_IOCTL_CARD_INFO_REQUEST 1000 0
      (card_fixture, [])) 1000 = 0"
    by (subst card_info_hides_unmounted) (simp add: all_on_def, simp add: all_on_def, simp add: one_gpu_def, simp, rule if_P, rule hidden)
  then show ?thesis by (simp add: card_fixture_def write_u32_def)
qed

theorem attached_ids_filtered_witness:
  "attached_ids (fst (rps_gpu_ioctl_filter_after all_on (Some one_gpu) RPS_IOCTL_RM_CONTROL_REQUEST
     100 0 (rm_fixture 0x201 128 (words_at 5000 [7, 9, 0xFFFFFFFF]), [9]))) 5000 = [9]"
proof -
  let ?ws = "[7, 9, 0xFFFFFFFF] :: u32 list"
  let ?m = "rm_fixture 0x201 128 (words_at 5000 ?ws)"
  have low: "\<forall>x < 200. words_at 5000 ?ws x = 0" by (simp add: words_at_below)
  note reads = rm_fixture_reads [OF low, where cmd = "0x201" and sz = 128]
  obtain m' ids' where res: "rps_gpu_ioctl_filter_after all_on (Some one_gpu)
      RPS_IOCTL_RM_CONTROL_REQUEST 100 0 (?m, [9]) = (m', ids')" by fastforce
  have w: "read_u32 ?m (5000 + 4 * i) = ?ws ! i" if "i < 3" for i
    using that words_at_read [of i ?ws 5000] reads(5) [where a = "5000 + 4 * i"] by simp
  have "map (\<lambda>i. read_u32 ?m (5000 + 4 * i)) [0..<3] = ?ws"
    using w [of 0] w [of 1] w [of 2] by (simp add: upt_rec)
  moreover have "[0..<32::nat] = [0..<3] @ [3..<32]" using upt_add_eq_append [of 0 3 29] by simp
  ultimately have "attached_ids ?m 5000 = [7, 9]" by (simp add: attached_ids_def read_ids_def)
  with attached_ids_filtered [OF fixture_enabled [OF low] reads(1) _ _ _ _ res, of 5000]
  show ?thesis unfolding res by (simp add: reads)
qed

theorem active_devices_filtered_witness:
  "active_devices (fst (rps_gpu_ioctl_filter_after all_on (Some one_gpu) RPS_IOCTL_RM_CONTROL_REQUEST
     100 0 (rm_fixture 0x288 3076 (words_at 5000 [2, 7, 0, 0, 9, 1, 0]), [9]))) 5000 =
   [\<lparr>ad_gpuId = 9, ad_gpuInstanceId = 1, ad_computeInstanceId = 0\<rparr>]"
proof -
  let ?ws = "[2, 7, 0, 0, 9, 1, 0] :: u32 list"
  let ?m = "rm_fixture 0x288 3076 (words_at 5000 ?ws)"
  have low: "\<forall>x < 200. words_at 5000 ?ws x = 0" by (simp add: words_at_below)
  note reads = rm_fixture_reads [OF low, where cmd = "0x288" and sz = 3076]
  obtain m' ids' where res: "rps_gpu_ioctl_filter_after all_on (Some one_gpu)
      RPS_IOCTL_RM_CONTROL_REQUEST 100 0 (?m, [9]) = (m', ids')" by fastforce
  have w: "read_u32 ?m (5000 + 4 * i) = ?ws ! i" if "i < 7" for i
    using that words_at_read [of i ?ws 5000] reads(5) [where a = "5000 + 4 * i"] by simp
  have "active_devices ?m 5000 = [\<lparr>ad_gpuId = 7, ad_gpuInstanceId = 0, ad_computeInstanceId = 0\<rparr>,
      \<lparr>ad_gpuId = 9, ad_gpuInstanceId = 1, ad_computeInstanceId = 0\<rparr>]"
    using w [of 0] w [of 1] w [of 2] w [of 3] w [of 4] w [of 5] w [of 6]
    by (simp add: active_devices_def read_device_def device_at_def upt_rec)
  with active_devices_filtered [OF fixture_enabled [OF low] reads(1) _ _ _ res, of 5000]
  show ?thesis unfolding res by (simp add: reads)
qed

theorem ioctl_filter_fails_open_witness:
  "fst (rps_gpu_ioctl_filter_after all_on (Some one_gpu) RPS_IOCTL_CARD_INFO_REQUEST 1000 0
     (card_fixture, [])) \<noteq> card_fixture \<and> rps_gpu_ioctl_enabled all_on \<and>
   fst (rps_gpu_ioctl_filter_after all_on None RPS_IOCTL_CARD_INFO_REQUEST 1000 0
     (card_fixture, [])) = card_fixture"
proof -
  let ?r = "rps_gpu_ioctl_filter_after all_on (Some one_gpu) RPS_IOCTL_CARD_INFO_REQUEST 1000 0
    (card_fixture, [])"
  have "card_minor_number card_fixture 1000 = 1"
    by (simp add: card_minor_number_def card_fixture_def)
  then have "fold (filter_card (Some one_gpu) 1000) [0..<32] card_fixture 1000 = 0"
    unfolding filter_cards
    by (auto simp: rps_gpu_allowed_contains_minor_def one_gpu_def card_at_def intro: exI [of _ 0])
  then have "fst ?r 1000 = 0"
    by (simp add: rps_gpu_ioctl_filter_after_def rps_request_is_card_info_def Let_def
        rps_gpu_filter_card_info_def all_on_def one_gpu_def)
  moreover have "card_fixture 1000 = 1" by (simp add: card_fixture_def write_u32_def)
  ultimately have "fst ?r \<noteq> card_fixture" by (metis zero_neq_one)
  with ioctl_filter_fails_open [OF this]
    ioctl_filter_fails_open [of all_on None RPS_IOCTL_CARD_INFO_REQUEST 1000 0 card_fixture "[]"]
  show ?thesis by auto
qed

end
