(* ===== verification/Preload_Hooks.thy ===== *)
theory Preload_Hooks
  imports Core_Config Core_Fd_Map Memory_View Gpu_Fd_Tracker Gpu_Ioctl_Filter
begin

text \<open>
  The interposed functions (\<open>preload.c\<close>). Each hook is a function of the shim's state, which
  it returns updated; libc, the kernel and the driver below it are the parameter \<open>real\<close>, a
  record of functions on the state of the process \<open>'w os\<close>: \<open>errno\<close>, the caller's memory
  and whatever else they need. Trace lines are left out, and so is what the shim's own
  reading of the cgroup and \<open>/proc\<close> files does to the process. Nothing is assumed of the
  functions in \<open>real\<close>.
\<close>

section \<open>The layer below\<close>

record 'w os =
  os_errno :: int
  os_mem :: mem
  os_world :: 'w

datatype shim_lock = Memory_lock | Fd_map_lock

datatype shim_malloc = Fd_map_copy | Tracker_node

record dirent =
  de_ino :: nat
  de_name :: string

text \<open>\<open>struct sysinfo\<close>: the fields the shim writes, and the others.\<close>

record sysinfo =
  si_totalram :: u64
  si_freeram :: u64
  si_mem_unit :: u32
  si_other :: "u64 list"

text \<open>What \<open>fcntl\<close> gets behind the command.\<close>

datatype fcntl_arg = Fcntl_none | Fcntl_int u32 | Fcntl_ptr u64

text \<open>
  A path or mode is \<open>None\<close> for NULL, so is a \<open>FILE *\<close> or \<open>DIR *\<close>. \<open>read\<close> and
  \<open>getdents64\<close> return what they stored with their result. The functions that libc may lack
  (\<open>dlsym\<close> returns NULL) are options.
\<close>

record 'w real =
  re_env :: "'w \<Rightarrow> env"
  re_fs :: "'w \<Rightarrow> fs"
  re_lock_ok :: "shim_lock \<Rightarrow> 'w \<Rightarrow> bool"
  re_malloc_ok :: "shim_malloc \<Rightarrow> 'w \<Rightarrow> bool"
  re_gpu_sys :: "'w \<Rightarrow> gpu_sys"
  re_open :: "string option \<Rightarrow> u32 \<Rightarrow> u32 option \<Rightarrow> 'w os \<Rightarrow> int \<times> 'w os"
  re_open64 :: "string option \<Rightarrow> u32 \<Rightarrow> u32 option \<Rightarrow> 'w os \<Rightarrow> int \<times> 'w os"
  re_openat :: "int \<Rightarrow> string option \<Rightarrow> u32 \<Rightarrow> u32 option \<Rightarrow> 'w os \<Rightarrow> int \<times> 'w os"
  re_openat64 :: "(int \<Rightarrow> string option \<Rightarrow> u32 \<Rightarrow> u32 option \<Rightarrow> 'w os \<Rightarrow> int \<times> 'w os) option"
  re_fopen :: "string option \<Rightarrow> string option \<Rightarrow> 'w os \<Rightarrow> nat option \<times> 'w os"
  re_fopen64 :: "string option \<Rightarrow> string option \<Rightarrow> 'w os \<Rightarrow> nat option \<times> 'w os"
  re_fdopen :: "int \<Rightarrow> string \<Rightarrow> 'w os \<Rightarrow> nat option \<times> 'w os"
  re_memfd_create :: "'w os \<Rightarrow> int \<times> 'w os"
  re_write :: "int \<Rightarrow> string \<Rightarrow> 'w os \<Rightarrow> int \<times> 'w os"
  re_lseek_start :: "int \<Rightarrow> 'w os \<Rightarrow> int \<times> 'w os"
  re_read :: "int \<Rightarrow> bool \<Rightarrow> nat \<Rightarrow> 'w os \<Rightarrow> (int \<times> string) \<times> 'w os"
  re_close :: "int \<Rightarrow> 'w os \<Rightarrow> int \<times> 'w os"
  re_dup :: "int \<Rightarrow> 'w os \<Rightarrow> int \<times> 'w os"
  re_dup2 :: "int \<Rightarrow> int \<Rightarrow> 'w os \<Rightarrow> int \<times> 'w os"
  re_dup3 :: "int \<Rightarrow> int \<Rightarrow> u32 \<Rightarrow> 'w os \<Rightarrow> int \<times> 'w os"
  re_fcntl :: "int \<Rightarrow> int \<Rightarrow> fcntl_arg \<Rightarrow> 'w os \<Rightarrow> int \<times> 'w os"
  re_stat :: "string option \<Rightarrow> 'w os \<Rightarrow> int \<times> 'w os"
  re_fstat :: "int \<Rightarrow> 'w os \<Rightarrow> int \<times> 'w os"
  re_newfstatat :: "int \<Rightarrow> string option \<Rightarrow> u32 \<Rightarrow> 'w os \<Rightarrow> int \<times> 'w os"
  re_opendir :: "string option \<Rightarrow> 'w os \<Rightarrow> nat option \<times> 'w os"
  re_opendir64 :: "(string option \<Rightarrow> 'w os \<Rightarrow> nat option \<times> 'w os) option"
  re_fdopendir :: "(int \<Rightarrow> 'w os \<Rightarrow> nat option \<times> 'w os) option"
  re_closedir :: "nat \<Rightarrow> 'w os \<Rightarrow> int \<times> 'w os"
  re_dirfd :: "nat \<Rightarrow> 'w os \<Rightarrow> int"
  re_readdir :: "nat \<Rightarrow> 'w os \<Rightarrow> dirent option \<times> 'w os"
  re_readdir64 :: "(nat \<Rightarrow> 'w os \<Rightarrow> dirent option \<times> 'w os) option"
  re_getdents64 :: "int \<Rightarrow> nat \<Rightarrow> 'w os \<Rightarrow> (int \<times> string option) \<times> 'w os"
  re_ioctl :: "int \<Rightarrow> u64 \<Rightarrow> nat option \<Rightarrow> 'w os \<Rightarrow> int \<times> 'w os"
  re_sysinfo :: "bool \<Rightarrow> 'w os \<Rightarrow> (int \<times> sysinfo) \<times> 'w os"
  re_sysconf :: "int \<Rightarrow> 'w os \<Rightarrow> int \<times> 'w os"

section \<open>The shim's state\<close>

text \<open>
  The static variables of all modules, the thread's guard depth, and the layer below.
\<close>

record 'w shim =
  sh_config :: config_state
  sh_depth :: int
  sh_fd_map :: fd_map
  sh_gpu_fds :: gpu_fd_list
  sh_gpu_ids :: "u32 list"
  sh_memory :: "rps_cgroup_memory mem_state"
  sh_allowed :: rps_gpu_allowed_gpus
  sh_ready :: bool
  sh_os :: "'w os"

definition ENOENT :: int where "ENOENT = 2"
definition EINTR :: int where "EINTR = 4"
definition ENOSYS :: int where "ENOSYS = 38"
definition EOVERFLOW :: int where "EOVERFLOW = 75"
definition AT_FDCWD :: int where "AT_FDCWD = -100"

definition set_errno :: "int \<Rightarrow> 'w shim \<Rightarrow> 'w shim" where
  "set_errno e st = st\<lparr>sh_os := (sh_os st)\<lparr>os_errno := e\<rparr>\<rparr>"

text \<open>A call of the layer below.\<close>

definition call_real :: "('w os \<Rightarrow> 'r \<times> 'w os) \<Rightarrow> 'w shim \<Rightarrow> 'r \<times> 'w shim" where
  "call_real f st = (let (r, os) = f (sh_os st) in (r, st\<lparr>sh_os := os\<rparr>))"

definition the_world :: "'w shim \<Rightarrow> 'w" where
  "the_world st = os_world (sh_os st)"

text \<open>\<open>rps_config_get ()\<close>\<close>

definition get_config :: "'w real \<Rightarrow> 'w shim \<Rightarrow> rps_config \<times> 'w shim" where
  "get_config real st =
     (let (cfg, cs) = rps_config_get (re_env real (the_world st)) (sh_config st) in
      (cfg, st\<lparr>sh_config := cs\<rparr>))"

definition enter_guard :: "'w shim \<Rightarrow> bool \<times> 'w shim" where
  "enter_guard st = (let (ok, d) = rps_guard_enter (sh_depth st) in (ok, st\<lparr>sh_depth := d\<rparr>))"

definition leave_guard :: "'w shim \<Rightarrow> 'w shim" where
  "leave_guard st = st\<lparr>sh_depth := rps_guard_leave (sh_depth st)\<rparr>"

definition shim_zero :: "'w os \<Rightarrow> 'w shim" where
  "shim_zero os = \<lparr>sh_config = config_state_init, sh_depth = 0, sh_fd_map = fd_entries_init,
     sh_gpu_fds = [], sh_gpu_ids = [], sh_memory = mem_state_init,
     sh_allowed = \<lparr>ga_valid = False, ga_gpus = []\<rparr>, sh_ready = False, sh_os = os\<rparr>"

text \<open>The constructor; the table of libc's functions it loads is the parameter \<open>real\<close>.\<close>

definition runpod_shim_init :: "'w real \<Rightarrow> 'w shim \<Rightarrow> 'w shim" where
  "runpod_shim_init real st =
     (let (cfg, st) = get_config real st in
      if cfg_gpu_video cfg
      then let (ready, allowed) =
             rps_gpu_proc_filter_runtime_init (re_gpu_sys real (the_world st)) None in
           st\<lparr>sh_ready := ready, sh_allowed := allowed\<rparr>
      else st)"

section \<open>Numbers and flags\<close>

text \<open>The scale of \<open>encode_sysinfo_memory\<close>; \<open>ULONG_MAX\<close> depends on the build.\<close>

function sysinfo_scale :: "u64 \<Rightarrow> rps_memory_snapshot_t \<Rightarrow> u64 \<Rightarrow> u64 option" where
  "sysinfo_scale ulong_max s scale =
     (if snap_total s div scale > ulong_max \<or> snap_available s div scale > ulong_max
      then if scale > 0xFFFFFFFF div 2 then None else sysinfo_scale ulong_max s (push_bit 1 scale)
      else Some scale)"
  by pat_completeness auto

lemma sysinfo_scale_grows:
  fixes scale :: u64
  assumes "scale \<noteq> 0" "\<not> scale > 0xFFFFFFFF div 2"
  shows "unat (push_bit 1 scale) = 2 * unat scale" "unat scale < 2 ^ 32"
proof -
  have le: "unat scale \<le> 0x7FFFFFFF" using assms(2) by (simp add: word_le_nat_alt not_less)
  then show "unat scale < 2 ^ 32" by simp
  have "push_bit 1 scale = 2 * scale" by (simp add: push_bit_eq_mult)
  moreover have "unat (2 * scale) = 2 * unat scale" using le by (simp add: unat_word_ariths)
  ultimately show "unat (push_bit 1 scale) = 2 * unat scale" by (simp only:)
qed

termination sysinfo_scale
proof (relation "measure (\<lambda>(ulong_max, s, scale). 2 ^ 33 - unat scale)", goal_cases)
  case (2 ulong_max s scale)
  then have "scale \<noteq> 0" by auto
  from sysinfo_scale_grows [OF this 2(2)] \<open>scale \<noteq> 0\<close> show ?case
    by (simp add: unat_gt_0 [symmetric] del: unat_gt_0)
qed simp

declare sysinfo_scale.simps [simp del]

definition encode_sysinfo_memory ::
    "u64 \<Rightarrow> rps_memory_snapshot_t \<Rightarrow> (u64 \<times> u64 \<times> u32) option" where
  "encode_sysinfo_memory ulong_max s =
     (case sysinfo_scale ulong_max s 1 of
        None \<Rightarrow> None
      | Some scale \<Rightarrow>
          if scale > 0xFFFFFFFF then None
          else Some (snap_total s div scale, snap_available s div scale, ucast scale))"

definition O_ACCMODE :: u32 where "O_ACCMODE = 3"
definition O_WRONLY :: u32 where "O_WRONLY = 1"
definition O_RDONLY :: u32 where "O_RDONLY = 0"
definition O_CREAT :: u32 where "O_CREAT = 0x40"
definition O_TMPFILE :: u32 where "O_TMPFILE = 0x410000"
definition O_PATH :: u32 where "O_PATH = 0x200000"

definition open_needs_mode :: "u32 \<Rightarrow> bool" where
  "open_needs_mode flags \<longleftrightarrow>
     (if flags AND O_CREAT \<noteq> 0 then True
      else if flags AND O_TMPFILE = O_TMPFILE then True else False)"

section \<open>/proc/meminfo\<close>

abbreviation RPS_MEMINFO_BUFFER_SIZE :: nat where "RPS_MEMINFO_BUFFER_SIZE \<equiv> 65536"

definition should_virtualize_meminfo ::
    "'w real \<Rightarrow> string option \<Rightarrow> u32 \<Rightarrow> 'w shim \<Rightarrow> bool \<times> 'w shim" where
  "should_virtualize_meminfo real path flags st =
     (if path \<noteq> Some ''/proc/meminfo'' then (False, st)
      else let (cfg, st) = get_config real st in
           if \<not> cfg_cgroup_memory cfg then (False, st)
           else if flags AND O_ACCMODE = O_WRONLY then (False, st)
           else if flags AND O_PATH = O_PATH then (False, st)
           else (True, st))"

definition build_meminfo :: "'w real \<Rightarrow> 'w shim \<Rightarrow> string option \<times> 'w shim" where
  "build_meminfo real st =
     (let w = the_world st;
          (out, ms) = rps_proc_meminfo_build (re_env real w) (re_fs real w)
                        (re_lock_ok real Memory_lock w) RPS_MEMINFO_BUFFER_SIZE (sh_memory st) in
      (out, st\<lparr>sh_memory := ms\<rparr>))"

definition maybe_attach_meminfo ::
    "'w real \<Rightarrow> int \<Rightarrow> string option \<Rightarrow> u32 \<Rightarrow> 'w shim \<Rightarrow> 'w shim" where
  "maybe_attach_meminfo real fd path flags st =
     (if fd < 0 then st
      else let (yes, st) = should_virtualize_meminfo real path flags st in
           if \<not> yes then st
           else let (entered, st) = enter_guard st in
                if \<not> entered then st
                else let (out, st) = build_meminfo real st in
                     leave_guard
                       (case out of
                          None \<Rightarrow> st
                        | Some meminfo \<Rightarrow>
                            st\<lparr>sh_fd_map := snd (rps_fd_map_put
                                 (re_malloc_ok real Fd_map_copy (the_world st))
                                 (re_lock_ok real Fd_map_lock (the_world st))
                                 fd (Some meminfo) (length meminfo) (sh_fd_map st))\<rparr>))"

definition meminfo_mode_is_read_only :: "string option \<Rightarrow> bool" where
  "meminfo_mode_is_read_only mode =
     (case mode of
        None \<Rightarrow> False
      | Some m \<Rightarrow> m \<noteq> [] \<and> hd m = CHR ''r'' \<and> strchr (CHR ''+'') m = None)"

text \<open>\<open>buf\<close> is what is still to be written; \<open>EINTR\<close> may come any number of times.\<close>

partial_function (option) write_all_fd ::
    "'w real \<Rightarrow> int \<Rightarrow> string \<Rightarrow> 'w shim \<Rightarrow> (bool \<times> 'w shim) option" where
  "write_all_fd real fd buf st =
     (if buf = [] then Some (True, st)
      else let (out, st) = call_real (re_write real fd buf) st in
           if out < 0
           then if os_errno (sh_os st) = EINTR then write_all_fd real fd buf st
                else Some (False, st)
           else if out = 0 then Some (False, st)
           else write_all_fd real fd (drop (nat out) buf) st)"

definition real_fopen_common ::
    "'w real \<Rightarrow> string option \<Rightarrow> string option \<Rightarrow> bool \<Rightarrow> 'w shim \<Rightarrow> nat option \<times> 'w shim" where
  "real_fopen_common real path mode use_fopen64 st =
     (if use_fopen64 then call_real (re_fopen64 real path mode) st
      else call_real (re_fopen real path mode) st)"

text \<open>The stream over a private file with the text, or NULL.\<close>

definition fopen_memfd :: "'w real \<Rightarrow> string \<Rightarrow> 'w shim \<Rightarrow> (nat option \<times> 'w shim) option" where
  "fopen_memfd real meminfo st =
     (let (fd, st) = call_real (re_memfd_create real) st in
      if fd < 0 then Some (None, st)
      else Option.bind (write_all_fd real fd meminfo st) (\<lambda>(written, st).
        let (fp, st) =
          (if \<not> written then (None, st)
           else let (pos, st) = call_real (re_lseek_start real fd) st in
                if pos \<noteq> 0 then (None, st) else call_real (re_fdopen real fd ''r'') st) in
        Some (fp, if fp = None then snd (call_real (re_close real fd) st) else st)))"

definition fopen_common ::
    "'w real \<Rightarrow> string option \<Rightarrow> string option \<Rightarrow> bool \<Rightarrow> 'w shim \<Rightarrow> (nat option \<times> 'w shim) option"
where
  "fopen_common real path mode use_fopen64 st =
     (if \<not> meminfo_mode_is_read_only mode then Some (real_fopen_common real path mode use_fopen64 st)
      else let (yes, st) = should_virtualize_meminfo real path O_RDONLY st in
      if \<not> yes then Some (real_fopen_common real path mode use_fopen64 st)
      else let (entered, st) = enter_guard st in
      if \<not> entered then Some (real_fopen_common real path mode use_fopen64 st)
      else let (out, st) = build_meminfo real st in
        Option.bind (case out of None \<Rightarrow> Some (None, st) | Some meminfo \<Rightarrow> fopen_memfd real meminfo st)
          (\<lambda>(fp, st).
             let st = leave_guard st in
             if fp \<noteq> None then Some (fp, st)
             else Some (real_fopen_common real path mode use_fopen64 st)))"

section \<open>GPU paths\<close>

definition path_is_absolute :: "string option \<Rightarrow> bool" where
  "path_is_absolute path = (case path of None \<Rightarrow> False | Some p \<Rightarrow> take 1 p = [SLASH])"

definition path_is_relative :: "string option \<Rightarrow> bool" where
  "path_is_relative path = (case path of None \<Rightarrow> False | Some p \<Rightarrow> take 1 p \<noteq> [SLASH])"

definition gpu_proc_denied :: "'w real \<Rightarrow> string option \<Rightarrow> 'w shim \<Rightarrow> bool \<times> 'w shim" where
  "gpu_proc_denied real path st =
     (let (cfg, st) = get_config real st in
      (rps_gpu_video_enabled cfg \<and> sh_ready st \<and> path_is_absolute path \<and>
       rps_gpu_proc_path_allowed (Some (sh_allowed st)) path = RPS_GPU_PROC_DENY, st))"

definition gpu_open_denied_path :: "'w shim \<Rightarrow> int \<times> 'w shim" where
  "gpu_open_denied_path st = (-1, set_errno ENOENT st)"

definition gpu_trace_and_track_open ::
    "'w real \<Rightarrow> string option \<Rightarrow> int \<Rightarrow> 'w shim \<Rightarrow> 'w shim" where
  "gpu_trace_and_track_open real path fd st =
     (let (cfg, st) = get_config real st in
      if \<not> rps_gpu_video_enabled cfg then st
      else let (classified, r) = rps_gpu_classify_path path in
           if \<not> classified
           then if fd \<ge> 0 then st\<lparr>sh_gpu_fds := rps_gpu_fd_map_remove fd (sh_gpu_fds st)\<rparr> else st
           else if fd \<ge> 0
           then st\<lparr>sh_gpu_fds := rps_gpu_fd_map_set (re_malloc_ok real Tracker_node (the_world st))
                    fd (Some r) (sh_gpu_fds st)\<rparr>
           else st)"

text \<open>The scan over a relative path: never below the four segments of the GPU directory.\<close>

function relative_loop :: "string list \<Rightarrow> string \<Rightarrow> string list option" where
  "relative_loop segments p =
     (let p = dropWhile (\<lambda>c. c = SLASH) p in
      if p = [] then Some segments
      else let segment = takeWhile (\<lambda>c. c \<noteq> SLASH) p;
               rest = dropWhile (\<lambda>c. c \<noteq> SLASH) p in
           if segment = ''.'' then relative_loop segments rest
           else if segment = ''..'' then
             if length segments \<le> 4 then None else relative_loop (butlast segments) rest
           else if length segments \<ge> 64 then None
           else relative_loop (segments @ [segment]) rest)"
  by pat_completeness auto
termination
  by (relation "measure (\<lambda>(segments, p). length p)") (auto simp: normalize_loop_shrinks)

declare relative_loop.simps [simp del]

definition gpu_resolve_relative_proc_path ::
    "rps_gpu_fd_record option \<Rightarrow> string option \<Rightarrow> nat \<Rightarrow> string option" where
  "gpu_resolve_relative_proc_path r path buffer_len =
     (case (r, path) of
        (Some r, Some path) \<Rightarrow>
          if buffer_len < 2 then None
          else
            let segments = [''proc'', ''driver'', ''nvidia'', ''gpus''] in
            if fr_kind r = RPS_GPU_FD_PROC_GPU_BUS_DIR \<and> fr_bus_id r = [] then None
            else if fr_kind r \<noteq> RPS_GPU_FD_PROC_GPU_BUS_DIR \<and> fr_kind r \<noteq> RPS_GPU_FD_PROC_GPUS_DIR
            then None
            else
              let segments = (if fr_kind r = RPS_GPU_FD_PROC_GPU_BUS_DIR
                              then segments @ [fr_bus_id r] else segments) in
              (case relative_loop segments path of
                 None \<Rightarrow> None
               | Some segments \<Rightarrow>
                   if length segments < 4 then None else normalize_out buffer_len [] segments)
      | _ \<Rightarrow> None)"

datatype effective_path =
    RPS_GPU_EFFECTIVE_PASSTHROUGH "string option"
  | RPS_GPU_EFFECTIVE_RESOLVED string
  | RPS_GPU_EFFECTIVE_DENY

definition gpu_effective_openat_path ::
    "gpu_fd_list \<Rightarrow> int \<Rightarrow> string option \<Rightarrow> effective_path" where
  "gpu_effective_openat_path fds dirfd path =
     (if \<not> path_is_relative path then RPS_GPU_EFFECTIVE_PASSTHROUGH path
      else case rps_gpu_fd_map_get dirfd fds of
             None \<Rightarrow> RPS_GPU_EFFECTIVE_PASSTHROUGH path
           | Some r \<Rightarrow>
               if fr_kind r \<noteq> RPS_GPU_FD_PROC_GPUS_DIR \<and> fr_kind r \<noteq> RPS_GPU_FD_PROC_GPU_BUS_DIR
               then RPS_GPU_EFFECTIVE_PASSTHROUGH path
               else (case gpu_resolve_relative_proc_path (Some r) path RPS_GPU_PATH_MAX of
                       None \<Rightarrow> RPS_GPU_EFFECTIVE_DENY
                     | Some q \<Rightarrow> RPS_GPU_EFFECTIVE_RESOLVED q))"

definition gpu_readdir_entry_allowed ::
    "'w real \<Rightarrow> int \<Rightarrow> string option \<Rightarrow> 'w shim \<Rightarrow> bool \<times> 'w shim" where
  "gpu_readdir_entry_allowed real dirfd name st =
     (let (cfg, st) = get_config real st in
      if \<not> rps_gpu_video_enabled cfg \<or> \<not> sh_ready st \<or> name = None
         \<or> (case rps_gpu_fd_map_get dirfd (sh_gpu_fds st) of
              None \<Rightarrow> True | Some r \<Rightarrow> fr_kind r \<noteq> RPS_GPU_FD_PROC_GPUS_DIR)
         \<or> name = Some ''.'' \<or> name = Some ''..''
      then (True, st)
      else (rps_gpu_allowed_contains_bus (Some (sh_allowed st)) name, st))"

section \<open>open and openat\<close>

definition open_common ::
    "'w real \<Rightarrow> string option \<Rightarrow> u32 \<Rightarrow> u32 \<Rightarrow> bool \<Rightarrow> bool \<Rightarrow> 'w shim \<Rightarrow> int \<times> 'w shim" where
  "open_common real path flags mode has_mode use_open64 st =
     (let (denied, st) = gpu_proc_denied real path st in
      if denied then gpu_open_denied_path st
      else
        let m = (if has_mode then Some mode else None);
            (fd, st) = call_real (if use_open64 then re_open64 real path flags m
                                  else re_open real path flags m) st;
            st = maybe_attach_meminfo real fd path flags st;
            st = gpu_trace_and_track_open real path fd st in
        (fd, st))"

text \<open>Libc's \<open>openat64\<close>, if it has one, and whether it had; \<open>dlsym\<close> always answers the same.\<close>

definition openat64_via_next ::
    "'w real \<Rightarrow> int \<Rightarrow> string option \<Rightarrow> u32 \<Rightarrow> u32 option \<Rightarrow> 'w shim \<Rightarrow> (int \<times> bool) \<times> 'w shim"
where
  "openat64_via_next real dirfd path flags m st =
     (case re_openat64 real of
        None \<Rightarrow> ((-1, False), st)
      | Some openat64 \<Rightarrow>
          let (fd, st) = call_real (openat64 dirfd path flags m) st in ((fd, True), st))"

definition openat_common ::
    "'w real \<Rightarrow> int \<Rightarrow> string option \<Rightarrow> u32 \<Rightarrow> u32 \<Rightarrow> bool \<Rightarrow> bool \<Rightarrow> 'w shim \<Rightarrow> int \<times> 'w shim" where
  "openat_common real dirfd path flags mode has_mode use_open64 st =
     (let m = (if has_mode then Some mode else None);
          forward = (\<lambda>effective st.
            let (denied, st) = gpu_proc_denied real effective st in
            if denied then gpu_open_denied_path st
            else
              let (fd, st) =
                (if use_open64
                 then let ((fd, used_openat64), st) = openat64_via_next real dirfd path flags m st in
                      if \<not> used_openat64 then call_real (re_openat real dirfd path flags m) st
                      else (fd, st)
                 else call_real (re_openat real dirfd path flags m) st);
                  st = (if dirfd = AT_FDCWD then maybe_attach_meminfo real fd path flags st else st);
                  st = (if path_is_absolute effective \<or> dirfd = AT_FDCWD
                        then gpu_trace_and_track_open real effective fd st else st) in
              (fd, st)) in
      case gpu_effective_openat_path (sh_gpu_fds st) dirfd path of
        RPS_GPU_EFFECTIVE_DENY \<Rightarrow> (-1, set_errno ENOENT st)
      | RPS_GPU_EFFECTIVE_PASSTHROUGH p \<Rightarrow> forward p st
      | RPS_GPU_EFFECTIVE_RESOLVED q \<Rightarrow> forward (Some q) st)"

text \<open>Either way libc is called once.\<close>

definition libc_openat ::
    "'w real \<Rightarrow> bool \<Rightarrow> int \<Rightarrow> string option \<Rightarrow> u32 \<Rightarrow> u32 option \<Rightarrow> 'w os \<Rightarrow> int \<times> 'w os" where
  "libc_openat real use_open64 =
     (case re_openat64 real of
        Some openat64 \<Rightarrow> if use_open64 then openat64 else re_openat real
      | None \<Rightarrow> re_openat real)"

lemma libc_openat_plain [simp]: "libc_openat real False = re_openat real"
  by (simp add: libc_openat_def split: option.split)

lemma openat_calls_libc:
  "(if use_open64
    then let ((fd, used_openat64), st) = openat64_via_next real dirfd path flags m st in
         if \<not> used_openat64 then call_real (re_openat real dirfd path flags m) st else (fd, st)
    else call_real (re_openat real dirfd path flags m) st) =
   call_real (libc_openat real use_open64 dirfd path flags m) st"
  by (simp add: openat64_via_next_def libc_openat_def call_real_def Let_def case_prod_beta split: option.split)

lemmas openat_common_eq = openat_common_def [unfolded openat_calls_libc]

definition hook_open :: "'w real \<Rightarrow> bool \<Rightarrow> string option \<Rightarrow> u32 \<Rightarrow> u32 \<Rightarrow> 'w shim \<Rightarrow> int \<times> 'w shim" where
  "hook_open real use_open64 path flags va_mode st =
     (let has_mode = open_needs_mode flags; mode = (if has_mode then va_mode else 0) in
      open_common real path flags mode has_mode use_open64 st)"

definition hook_openat ::
    "'w real \<Rightarrow> bool \<Rightarrow> int \<Rightarrow> string option \<Rightarrow> u32 \<Rightarrow> u32 \<Rightarrow> 'w shim \<Rightarrow> int \<times> 'w shim" where
  "hook_openat real use_open64 dirfd path flags va_mode st =
     (let has_mode = open_needs_mode flags; mode = (if has_mode then va_mode else 0) in
      openat_common real dirfd path flags mode has_mode use_open64 st)"

section \<open>read, close and duplication\<close>

definition hook_read :: "'w real \<Rightarrow> int \<Rightarrow> bool \<Rightarrow> nat \<Rightarrow> 'w shim \<Rightarrow> (int \<times> string) \<times> 'w shim" where
  "hook_read real fd buf_null count st =
     (let (entered, st) = enter_guard st in
      if \<not> entered then call_real (re_read real fd buf_null count) st
      else
        let (out, m) = rps_fd_map_take_read (re_lock_ok real Fd_map_lock (the_world st))
                         fd buf_null count (sh_fd_map st);
            st = leave_guard (st\<lparr>sh_fd_map := m\<rparr>) in
        case out of
          Some bytes \<Rightarrow> ((int (length bytes), bytes), st)
        | None \<Rightarrow> call_real (re_read real fd buf_null count) st)"

definition forget_virtual :: "'w real \<Rightarrow> int \<Rightarrow> 'w shim \<Rightarrow> 'w shim" where
  "forget_virtual real fd st =
     st\<lparr>sh_fd_map := rps_fd_map_remove (re_lock_ok real Fd_map_lock (the_world st)) fd (sh_fd_map st)\<rparr>"

definition copy_tracked :: "'w real \<Rightarrow> int \<Rightarrow> int \<Rightarrow> 'w shim \<Rightarrow> 'w shim" where
  "copy_tracked real oldfd newfd st =
     st\<lparr>sh_gpu_fds := rps_gpu_fd_map_copy (re_malloc_ok real Tracker_node (the_world st))
          oldfd newfd (sh_gpu_fds st)\<rparr>"

definition hook_close :: "'w real \<Rightarrow> int \<Rightarrow> 'w shim \<Rightarrow> int \<times> 'w shim" where
  "hook_close real fd st =
     (let st = forget_virtual real fd st;
          st = st\<lparr>sh_gpu_fds := rps_gpu_fd_map_remove fd (sh_gpu_fds st)\<rparr> in
      call_real (re_close real fd) st)"

definition hook_dup :: "'w real \<Rightarrow> int \<Rightarrow> 'w shim \<Rightarrow> int \<times> 'w shim" where
  "hook_dup real oldfd st =
     (let (rc, st) = call_real (re_dup real oldfd) st in
      (rc, if rc \<ge> 0 then copy_tracked real oldfd rc st else st))"

definition hook_dup2 :: "'w real \<Rightarrow> int \<Rightarrow> int \<Rightarrow> 'w shim \<Rightarrow> int \<times> 'w shim" where
  "hook_dup2 real oldfd newfd st =
     (let (rc, st) = call_real (re_dup2 real oldfd newfd) st in
      (rc, if rc \<ge> 0 \<and> oldfd \<noteq> newfd
           then copy_tracked real oldfd newfd (forget_virtual real newfd st) else st))"

definition hook_dup3 :: "'w real \<Rightarrow> int \<Rightarrow> int \<Rightarrow> u32 \<Rightarrow> 'w shim \<Rightarrow> int \<times> 'w shim" where
  "hook_dup3 real oldfd newfd flags st =
     (let (rc, st) = call_real (re_dup3 real oldfd newfd flags) st in
      (rc, if rc \<ge> 0 then copy_tracked real oldfd newfd (forget_virtual real newfd st) else st))"

datatype fcntl_arg_kind = RPS_FCNTL_ARG_NONE | RPS_FCNTL_ARG_INT | RPS_FCNTL_ARG_PTR

definition F_DUPFD :: int where "F_DUPFD = 0"
definition F_DUPFD_CLOEXEC :: int where "F_DUPFD_CLOEXEC = 1030"

text \<open>
  The commands by their numbers on Linux: DUPFD, SETFD, SETFL, SETOWN, SETSIG, SETLEASE,
  NOTIFY, DUPFD_CLOEXEC, SETPIPE_SZ, ADD_SEALS take an \<open>int\<close>; GETLK, SETLK, SETLKW, SETOWN_EX,
  GETOWN_EX, the three OFD locks and the four RW hints a pointer.
\<close>

definition fcntl_int_commands :: "int list" where
  "fcntl_int_commands = [F_DUPFD, F_DUPFD_CLOEXEC, 2, 4, 8, 10, 1024, 1026, 1031, 1033]"

definition fcntl_ptr_commands :: "int list" where
  "fcntl_ptr_commands = [5, 6, 7, 36, 37, 38, 16, 15, 1035, 1036, 1037, 1038]"

definition fcntl_arg_kind_of :: "int \<Rightarrow> fcntl_arg_kind" where
  "fcntl_arg_kind_of cmd =
     (if List.member fcntl_int_commands cmd then RPS_FCNTL_ARG_INT
      else if List.member fcntl_ptr_commands cmd then RPS_FCNTL_ARG_PTR
      else RPS_FCNTL_ARG_NONE)"

definition fcntl_duplicates_fd :: "int \<Rightarrow> bool" where
  "fcntl_duplicates_fd cmd \<longleftrightarrow> cmd = F_DUPFD \<or> cmd = F_DUPFD_CLOEXEC"

definition hook_fcntl :: "'w real \<Rightarrow> int \<Rightarrow> int \<Rightarrow> u64 \<Rightarrow> 'w shim \<Rightarrow> int \<times> 'w shim" where
  "hook_fcntl real fd cmd va st =
     (let arg = (case fcntl_arg_kind_of cmd of
                   RPS_FCNTL_ARG_INT \<Rightarrow> Fcntl_int (ucast va)
                 | RPS_FCNTL_ARG_PTR \<Rightarrow> Fcntl_ptr va
                 | RPS_FCNTL_ARG_NONE \<Rightarrow> Fcntl_none);
          (rc, st) = call_real (re_fcntl real fd cmd arg) st in
      (rc, if rc \<ge> 0 \<and> fcntl_duplicates_fd cmd then copy_tracked real fd rc st else st))"

section \<open>stat and directories\<close>

definition hook_stat :: "'w real \<Rightarrow> string option \<Rightarrow> 'w shim \<Rightarrow> int \<times> 'w shim" where
  "hook_stat real path st =
     (let (denied, st) = gpu_proc_denied real path st in
      if denied then (-1, set_errno ENOENT st) else call_real (re_stat real path) st)"

definition hook_fstat :: "'w real \<Rightarrow> int \<Rightarrow> 'w shim \<Rightarrow> int \<times> 'w shim" where
  "hook_fstat real fd st = call_real (re_fstat real fd) st"

definition fstatat_common :: "'w real \<Rightarrow> int \<Rightarrow> string option \<Rightarrow> u32 \<Rightarrow> 'w shim \<Rightarrow> int \<times> 'w shim" where
  "fstatat_common real dirfd path flags st =
     (let forward = (\<lambda>effective st.
            let (denied, st) = gpu_proc_denied real effective st in
            if denied then (-1, set_errno ENOENT st)
            else call_real (re_newfstatat real dirfd path flags) st) in
      case gpu_effective_openat_path (sh_gpu_fds st) dirfd path of
        RPS_GPU_EFFECTIVE_DENY \<Rightarrow> (-1, set_errno ENOENT st)
      | RPS_GPU_EFFECTIVE_PASSTHROUGH p \<Rightarrow> forward p st
      | RPS_GPU_EFFECTIVE_RESOLVED q \<Rightarrow> forward (Some q) st)"

definition opendir64_via_next ::
    "'w real \<Rightarrow> string option \<Rightarrow> 'w shim \<Rightarrow> (nat option \<times> bool) \<times> 'w shim" where
  "opendir64_via_next real path st =
     (case re_opendir64 real of
        None \<Rightarrow> ((None, False), st)
      | Some opendir64 \<Rightarrow> let (dir, st) = call_real (opendir64 path) st in ((dir, True), st))"

definition opendir_common :: "'w real \<Rightarrow> string option \<Rightarrow> bool \<Rightarrow> 'w shim \<Rightarrow> nat option \<times> 'w shim" where
  "opendir_common real path use_opendir64 st =
     (let (denied, st) = gpu_proc_denied real path st in
      if denied then (None, set_errno ENOENT st)
      else
        let (dir, st) =
          (if use_opendir64
           then let ((dir, used_opendir64), st) = opendir64_via_next real path st in
                if \<not> used_opendir64 then call_real (re_opendir real path) st else (dir, st)
           else call_real (re_opendir real path) st) in
        (dir, case dir of
                None \<Rightarrow> st
              | Some d \<Rightarrow> gpu_trace_and_track_open real path (re_dirfd real d (sh_os st)) st))"

definition libc_opendir :: "'w real \<Rightarrow> bool \<Rightarrow> string option \<Rightarrow> 'w os \<Rightarrow> nat option \<times> 'w os" where
  "libc_opendir real use_opendir64 =
     (case re_opendir64 real of
        Some opendir64 \<Rightarrow> if use_opendir64 then opendir64 else re_opendir real
      | None \<Rightarrow> re_opendir real)"

lemma libc_opendir_plain [simp]: "libc_opendir real False = re_opendir real"
  by (simp add: libc_opendir_def split: option.split)

lemma opendir_calls_libc:
  "(if use_opendir64
    then let ((dir, used_opendir64), st) = opendir64_via_next real path st in
         if \<not> used_opendir64 then call_real (re_opendir real path) st else (dir, st)
    else call_real (re_opendir real path) st) = call_real (libc_opendir real use_opendir64 path) st"
  by (simp add: opendir64_via_next_def libc_opendir_def call_real_def Let_def case_prod_beta split: option.split)

lemmas opendir_common_eq = opendir_common_def [unfolded opendir_calls_libc]

definition hook_fdopendir :: "'w real \<Rightarrow> int \<Rightarrow> 'w shim \<Rightarrow> nat option \<times> 'w shim" where
  "hook_fdopendir real fd st =
     (case re_fdopendir real of
        None \<Rightarrow> (None, set_errno ENOSYS st)
      | Some fdopendir \<Rightarrow> call_real (fdopendir fd) st)"

definition hook_closedir :: "'w real \<Rightarrow> nat \<Rightarrow> 'w shim \<Rightarrow> int \<times> 'w shim" where
  "hook_closedir real dirp st =
     (let fd = re_dirfd real dirp (sh_os st);
          (rc, st) = call_real (re_closedir real dirp) st in
      (rc, if rc = 0 \<and> fd \<ge> 0
           then st\<lparr>sh_gpu_fds := rps_gpu_fd_map_remove fd (sh_gpu_fds st)\<rparr> else st))"

text \<open>The loop of \<open>readdir\<close> and \<open>readdir64\<close>; \<open>next\<close> is libc's function on this stream.\<close>

partial_function (option) readdir_loop ::
    "'w real \<Rightarrow> ('w os \<Rightarrow> dirent option \<times> 'w os) \<Rightarrow> int \<Rightarrow> dirent \<Rightarrow> 'w shim \<Rightarrow>
     (dirent option \<times> 'w shim) option" where
  "readdir_loop real nxt fd entry st =
     (let (ok, st) = gpu_readdir_entry_allowed real fd (Some (de_name entry)) st in
      if ok then Some (Some entry, st)
      else let (e, st) = call_real nxt st in
           case e of
             None \<Rightarrow> Some (None, st)
           | Some entry \<Rightarrow> readdir_loop real nxt fd entry st)"

definition readdir_common ::
    "'w real \<Rightarrow> ('w os \<Rightarrow> dirent option \<times> 'w os) \<Rightarrow> nat \<Rightarrow> 'w shim \<Rightarrow>
     (dirent option \<times> 'w shim) option" where
  "readdir_common real nxt dirp st =
     (let (e, st) = call_real nxt st in
      case e of
        None \<Rightarrow> Some (None, st)
      | Some entry \<Rightarrow> readdir_loop real nxt (re_dirfd real dirp (sh_os st)) entry st)"

definition hook_readdir :: "'w real \<Rightarrow> nat \<Rightarrow> 'w shim \<Rightarrow> (dirent option \<times> 'w shim) option" where
  "hook_readdir real dirp st = readdir_common real (re_readdir real dirp) dirp st"

definition hook_readdir64 :: "'w real \<Rightarrow> nat \<Rightarrow> 'w shim \<Rightarrow> (dirent option \<times> 'w shim) option" where
  "hook_readdir64 real dirp st =
     (case re_readdir64 real of
        None \<Rightarrow> Some (None, set_errno ENOSYS st)
      | Some readdir64 \<Rightarrow> readdir_common real (readdir64 dirp) dirp st)"

definition hook_getdents64 ::
    "'w real \<Rightarrow> int \<Rightarrow> nat \<Rightarrow> 'w shim \<Rightarrow> (int \<times> string option) \<times> 'w shim" where
  "hook_getdents64 real fd count st =
     (let ((result, buf), st) = call_real (re_getdents64 real fd count) st in
      if \<not> result > 0 then ((result, buf), st)
      else
        let (cfg, st) = get_config real st in
        if rps_gpu_video_enabled cfg \<and> sh_ready st \<and>
           (case rps_gpu_fd_map_get fd (sh_gpu_fds st) of
              None \<Rightarrow> False | Some r \<Rightarrow> fr_kind r = RPS_GPU_FD_PROC_GPUS_DIR)
        then let (buf, result) = rps_gpu_filter_dirent64_buffer buf result (Some (sh_allowed st)) in
             ((result, buf), st)
        else ((result, buf), st))"

section \<open>ioctl\<close>

text \<open>FIOCLEX, FIONCLEX, TIOCEXCL, TIOCNXCL, TIOCNOTTY\<close>

definition ioctl_request_has_no_arg :: "u64 \<Rightarrow> bool" where
  "ioctl_request_has_no_arg request \<longleftrightarrow>
     request = 0x5451 \<or> request = 0x5450 \<or> request = 0x540C \<or> request = 0x540D \<or> request = 0x5422"

definition hook_ioctl :: "'w real \<Rightarrow> int \<Rightarrow> u64 \<Rightarrow> nat \<Rightarrow> 'w shim \<Rightarrow> int \<times> 'w shim" where
  "hook_ioctl real fd request va st =
     (let no_arg = ioctl_request_has_no_arg request;
          arg = (if no_arg then 0 else va);
          (result, st) = call_real (re_ioctl real fd request (if no_arg then None else Some va)) st;
          (cfg, st) = get_config real st in
      if rps_gpu_ioctl_enabled cfg \<and>
         (case rps_gpu_fd_map_get fd (sh_gpu_fds st) of
            None \<Rightarrow> False | Some r \<Rightarrow> fr_kind r = RPS_GPU_FD_NVIDIA_CTL)
      then let (m, ids) = rps_gpu_ioctl_filter_after cfg
                 (if sh_ready st then Some (sh_allowed st) else None) request arg result
                 (os_mem (sh_os st), sh_gpu_ids st) in
           (result, st\<lparr>sh_os := (sh_os st)\<lparr>os_mem := m\<rparr>, sh_gpu_ids := ids\<rparr>)
      else (result, st))"

section \<open>sysinfo and sysconf\<close>

definition take_snapshot :: "'w real \<Rightarrow> 'w shim \<Rightarrow> rps_memory_snapshot_t option \<times> 'w shim" where
  "take_snapshot real st =
     (let w = the_world st;
          (s, ms) = rps_memory_snapshot (re_env real w) (re_fs real w)
                      (re_lock_ok real Memory_lock w) (sh_memory st) in
      (s, st\<lparr>sh_memory := ms\<rparr>))"

definition hook_sysinfo :: "u64 \<Rightarrow> 'w real \<Rightarrow> bool \<Rightarrow> 'w shim \<Rightarrow> (int \<times> sysinfo) \<times> 'w shim" where
  "hook_sysinfo ulong_max real info_null st =
     (let ((rc, info), st) = call_real (re_sysinfo real info_null) st in
      if rc \<noteq> 0 \<or> info_null then ((rc, info), st)
      else
        let (cfg, st) = get_config real st in
        if \<not> cfg_cgroup_memory cfg then ((rc, info), st)
        else
          let (entered, st) = enter_guard st in
          if \<not> entered then ((rc, info), st)
          else
            let (s, st) = take_snapshot real st;
                info = (case Option.bind s (encode_sysinfo_memory ulong_max) of
                          None \<Rightarrow> info
                        | Some (totalram, freeram, mem_unit) \<Rightarrow>
                            info\<lparr>si_mem_unit := mem_unit, si_totalram := totalram,
                                  si_freeram := freeram\<rparr>) in
            ((rc, info), leave_guard st))"

definition SC_PAGESIZE :: int where "SC_PAGESIZE = 30"
definition SC_PHYS_PAGES :: int where "SC_PHYS_PAGES = 85"
definition SC_AVPHYS_PAGES :: int where "SC_AVPHYS_PAGES = 86"

text \<open>A \<open>long\<close> is an \<open>int\<close> up to \<open>LONG_MAX\<close>; the page size becomes a \<open>uint64_t\<close>.\<close>

definition hook_sysconf :: "u64 \<Rightarrow> 'w real \<Rightarrow> int \<Rightarrow> 'w shim \<Rightarrow> int \<times> 'w shim" where
  "hook_sysconf long_max real name st =
     (if name \<noteq> SC_PHYS_PAGES \<and> name \<noteq> SC_AVPHYS_PAGES then call_real (re_sysconf real name) st
      else
        let (cfg, st) = get_config real st in
        if \<not> cfg_cgroup_memory cfg then call_real (re_sysconf real name) st
        else
          let (entered, st) = enter_guard st in
          if \<not> entered then call_real (re_sysconf real name) st
          else
            let (page_size, st) = call_real (re_sysconf real SC_PAGESIZE) st in
            if page_size \<le> 0 then call_real (re_sysconf real name) (leave_guard st)
            else
              let (s, st) = take_snapshot real st in
              case s of
                None \<Rightarrow> call_real (re_sysconf real name) (leave_guard st)
              | Some s \<Rightarrow>
                  let bytes = (if name = SC_PHYS_PAGES then snap_total s else snap_available s);
                      pages = bytes div word_of_int page_size in
                  if pages > long_max then (-1, set_errno EOVERFLOW (leave_guard st))
                  else (uint pages, leave_guard st))"

end
