(* ===== verification/Preload_Invariant.thy ===== *)
theory Preload_Invariant
  imports Preload_Hooks
begin

text \<open>
  What the interposed library keeps. The first part relates every operation of the hooks to
  the fields of the shim's state it can change; the second has one lemma per hook, that it
  keeps the invariant \<open>shim_ok\<close>; the third puts the hooks together as a step relation, with
  the states a loaded library can reach. The last section is a concrete system on which the
  witnesses of the hook properties run.
\<close>

section \<open>Fields: lemmas\<close>

lemma call_real_fields [simp]:
  "sh_config (snd (call_real f st)) = sh_config st" "sh_depth (snd (call_real f st)) = sh_depth st"
  "sh_fd_map (snd (call_real f st)) = sh_fd_map st" "sh_gpu_fds (snd (call_real f st)) = sh_gpu_fds st"
  "sh_gpu_ids (snd (call_real f st)) = sh_gpu_ids st" "sh_memory (snd (call_real f st)) = sh_memory st"
  "sh_allowed (snd (call_real f st)) = sh_allowed st" "sh_ready (snd (call_real f st)) = sh_ready st"
  "sh_os (snd (call_real f st)) = snd (f (sh_os st))" "fst (call_real f st) = fst (f (sh_os st))"
  by (simp_all add: call_real_def case_prod_beta)

lemma set_errno_fields [simp]:
  "sh_config (set_errno e st) = sh_config st" "sh_depth (set_errno e st) = sh_depth st"
  "sh_fd_map (set_errno e st) = sh_fd_map st" "sh_gpu_fds (set_errno e st) = sh_gpu_fds st"
  "sh_gpu_ids (set_errno e st) = sh_gpu_ids st" "sh_memory (set_errno e st) = sh_memory st"
  "sh_allowed (set_errno e st) = sh_allowed st" "sh_ready (set_errno e st) = sh_ready st"
  by (simp_all add: set_errno_def)

lemma guard_fields [simp]:
  "enter_guard st = (sh_depth st = 0, if sh_depth st = 0 then st\<lparr>sh_depth := 1\<rparr> else st)"
  "sh_depth st = 1 \<Longrightarrow> leave_guard st = st\<lparr>sh_depth := 0\<rparr>"
  by (simp_all add: enter_guard_def rps_guard_enter_def leave_guard_def rps_guard_leave_def)

abbreviation config_of :: "'w shim \<Rightarrow> rps_config" where
  "config_of st \<equiv> cs_config (sh_config st)"

lemma get_config_initialized [simp]:
  "cs_initialized (sh_config st) \<Longrightarrow> get_config real st = (config_of st, st)"
  by (simp add: get_config_def rps_config_get_initialized)

text \<open>Every tracked record is what classification made of some path.\<close>

definition gpu_records_ok :: "gpu_fd_list \<Rightarrow> bool" where
  "gpu_records_ok ns \<longleftrightarrow> (\<forall>r \<in> snd ` set ns. \<exists>p. rps_gpu_classify_path (Some p) = (True, r))"

text \<open>The invariant of the shim's own state, apart from the guard's depth.\<close>

definition static_ok :: "'w shim \<Rightarrow> bool" where
  "static_ok st \<longleftrightarrow>
     cs_initialized (sh_config st) \<and> fd_map_ok (sh_fd_map st) \<and> gpu_fds_ok (sh_gpu_fds st) \<and>
     gpu_records_ok (sh_gpu_fds st) \<and> gpu_ids_ok (sh_gpu_ids st) \<and> mem_state_ok (sh_memory st) \<and>
     (sh_ready st \<longrightarrow> ga_valid (sh_allowed st)) \<and>
     (\<not> cfg_gpu_video (config_of st) \<longrightarrow> sh_gpu_fds st = [] \<and> \<not> sh_ready st)"

definition shim_ok :: "'w shim \<Rightarrow> bool" where
  "shim_ok st \<longleftrightarrow> static_ok st \<and> sh_depth st = 0"

lemma static_ok_initialized [simp]: "static_ok st \<Longrightarrow> cs_initialized (sh_config st)"
  by (simp add: static_ok_def)

lemma static_ok_call_real [simp]: "static_ok (snd (call_real f st)) = static_ok st"
  by (simp add: static_ok_def)

lemma static_ok_updates [simp]:
  "static_ok (set_errno e st) = static_ok st"
  "static_ok (st\<lparr>sh_depth := d\<rparr>) = static_ok st"
  "static_ok (st\<lparr>sh_os := os\<rparr>) = static_ok st"
  by (simp_all add: static_ok_def)

lemma static_ok_fd_map: "static_ok st \<Longrightarrow> fd_map_ok m \<Longrightarrow> static_ok (st\<lparr>sh_fd_map := m\<rparr>)"
  by (simp add: static_ok_def)

lemma static_ok_gpu_ids: "static_ok st \<Longrightarrow> gpu_ids_ok m \<Longrightarrow> static_ok (st\<lparr>sh_gpu_ids := m\<rparr>)"
  by (simp add: static_ok_def)

lemma static_ok_gpu_fds:
  "static_ok st \<Longrightarrow> gpu_fds_ok m \<Longrightarrow> gpu_records_ok m \<Longrightarrow> \<not> cfg_gpu_video (config_of st) \<longrightarrow> m = [] \<Longrightarrow>
     static_ok (st\<lparr>sh_gpu_fds := m\<rparr>)"
  by (simp add: static_ok_def)

lemma static_ok_memory: "static_ok st \<Longrightarrow> mem_state_ok m \<Longrightarrow> static_ok (st\<lparr>sh_memory := m\<rparr>)"
  by (simp add: static_ok_def)

text \<open>What each table and the memory module keep, whatever the locks and allocations do.\<close>

lemma put_keeps_ok: "fd_map_ok es \<Longrightarrow> fd_map_ok (snd (rps_fd_map_put mem lock fd (Some d) (length d) es))"
  using fm.invar_store [of es mem fd d]
  by (cases lock) (simp_all add: fd_map_store_def rps_fd_map_put_def)

lemma take_read_keeps_ok: "fd_map_ok es \<Longrightarrow> fd_map_ok (snd (rps_fd_map_take_read lock fd null n es))"
proof (cases "null \<and> 0 < n \<or> \<not> lock")
  case True
  then show "fd_map_ok es \<Longrightarrow> ?thesis" by (auto simp: rps_fd_map_take_read_def)
next
  case False
  assume ok: "fd_map_ok es"
  obtain res es' where r: "rps_fd_map_take_read True fd null n es = (res, es')" by fastforce
  show ?thesis
  proof (cases "fd_map_lookup es fd")
    case None
    with ok False show ?thesis by (simp add: take_read_miss)
  next
    case (Some x)
    with take_read_hit [OF ok Some _ r] False r show ?thesis by auto
  qed
qed

lemma snapshot_keeps_ok: "mem_state_ok ms \<Longrightarrow> mem_state_ok (snd (rps_memory_snapshot env fs lock ms))"
  using memory_snapshot_step [of ms env fs lock] by (cases "rps_memory_snapshot env fs lock ms") auto

lemma meminfo_build_state:
  "snd (rps_proc_meminfo_build env fs lock n ms) = snd (rps_memory_snapshot env fs lock ms)"
  by (auto simp: rps_proc_meminfo_build_def Let_def split: prod.split option.split)

lemma build_meminfo_fields [simp]:
  "sh_config (snd (build_meminfo real st)) = sh_config st" "sh_depth (snd (build_meminfo real st)) = sh_depth st"
  "sh_fd_map (snd (build_meminfo real st)) = sh_fd_map st" "sh_gpu_fds (snd (build_meminfo real st)) = sh_gpu_fds st"
  "sh_gpu_ids (snd (build_meminfo real st)) = sh_gpu_ids st" "sh_allowed (snd (build_meminfo real st)) = sh_allowed st"
  "sh_ready (snd (build_meminfo real st)) = sh_ready st" "sh_os (snd (build_meminfo real st)) = sh_os st"
  by (simp_all add: build_meminfo_def Let_def case_prod_beta)

lemma build_meminfo_ok [simp]: "static_ok st \<Longrightarrow> static_ok (snd (build_meminfo real st))"
  unfolding build_meminfo_def Let_def case_prod_beta snd_conv
  by (rule static_ok_memory) (simp_all add: static_ok_def meminfo_build_state snapshot_keeps_ok)

lemma take_snapshot_fields [simp]:
  "sh_config (snd (take_snapshot real st)) = sh_config st" "sh_depth (snd (take_snapshot real st)) = sh_depth st"
  "sh_fd_map (snd (take_snapshot real st)) = sh_fd_map st" "sh_gpu_fds (snd (take_snapshot real st)) = sh_gpu_fds st"
  "sh_gpu_ids (snd (take_snapshot real st)) = sh_gpu_ids st" "sh_allowed (snd (take_snapshot real st)) = sh_allowed st"
  "sh_ready (snd (take_snapshot real st)) = sh_ready st" "sh_os (snd (take_snapshot real st)) = sh_os st"
  by (simp_all add: take_snapshot_def Let_def case_prod_beta)

lemma take_snapshot_ok [simp]: "static_ok st \<Longrightarrow> static_ok (snd (take_snapshot real st))"
  unfolding take_snapshot_def Let_def case_prod_beta snd_conv
  by (rule static_ok_memory) (simp_all add: static_ok_def snapshot_keeps_ok)

lemma should_virtualize_initialized:
  "cs_initialized (sh_config st) \<Longrightarrow> should_virtualize_meminfo real path flags st =
     (path = Some ''/proc/meminfo'' \<and> cfg_cgroup_memory (config_of st) \<and>
      flags AND O_ACCMODE \<noteq> O_WRONLY \<and> flags AND O_PATH \<noteq> O_PATH, st)"
  by (simp add: should_virtualize_meminfo_def)

lemma denied_initialized:
  "cs_initialized (sh_config st) \<Longrightarrow> gpu_proc_denied real path st =
     (cfg_gpu_video (config_of st) \<and> sh_ready st \<and> path_is_absolute path \<and>
      rps_gpu_proc_path_allowed (Some (sh_allowed st)) path = RPS_GPU_PROC_DENY, st)"
  by (simp add: gpu_proc_denied_def rps_gpu_video_enabled_def)

lemma maybe_attach_fields [simp]:
  assumes "cs_initialized (sh_config st)"
  shows "sh_config (maybe_attach_meminfo real fd path flags st) = sh_config st"
    "sh_depth (maybe_attach_meminfo real fd path flags st) = sh_depth st"
    "sh_gpu_fds (maybe_attach_meminfo real fd path flags st) = sh_gpu_fds st"
    "sh_gpu_ids (maybe_attach_meminfo real fd path flags st) = sh_gpu_ids st"
    "sh_allowed (maybe_attach_meminfo real fd path flags st) = sh_allowed st"
    "sh_ready (maybe_attach_meminfo real fd path flags st) = sh_ready st"
    "sh_os (maybe_attach_meminfo real fd path flags st) = sh_os st"
  using assms
  by (auto simp: maybe_attach_meminfo_def should_virtualize_initialized Let_def case_prod_beta
      split: option.split)

lemma maybe_attach_ok [simp]:
  assumes "static_ok st"
  shows "static_ok (maybe_attach_meminfo real fd path flags st)"
proof -
  let ?st = "st\<lparr>sh_depth := 1\<rparr>"
  have ok: "static_ok (snd (build_meminfo real ?st))" using assms by simp
  then have "fd_map_ok (sh_fd_map (snd (build_meminfo real ?st)))" unfolding static_ok_def by blast
  with ok have "static_ok ((snd (build_meminfo real ?st))\<lparr>sh_fd_map := snd (rps_fd_map_put mem lock fd (Some d)
      (length d) (sh_fd_map (snd (build_meminfo real ?st))))\<rparr>)" for mem lock d
    by (intro static_ok_fd_map put_keeps_ok)
  with assms ok show ?thesis
    by (auto simp: maybe_attach_meminfo_def should_virtualize_initialized Let_def case_prod_beta
        split: option.split)
qed

lemma track_open_initialized:
  "cs_initialized (sh_config st) \<Longrightarrow> gpu_trace_and_track_open real path fd st =
     (if cfg_gpu_video (config_of st) \<and> fd \<ge> 0
      then st\<lparr>sh_gpu_fds :=
        (let (classified, r) = rps_gpu_classify_path path in
         if classified then rps_gpu_fd_map_set (re_malloc_ok real Tracker_node (the_world st)) fd (Some r) (sh_gpu_fds st)
         else rps_gpu_fd_map_remove fd (sh_gpu_fds st))\<rparr>
      else st)"
  by (simp add: gpu_trace_and_track_open_def rps_gpu_video_enabled_def case_prod_beta)

lemma track_open_fields [simp]:
  assumes "cs_initialized (sh_config st)"
  shows "sh_config (gpu_trace_and_track_open real path fd st) = sh_config st"
    "sh_depth (gpu_trace_and_track_open real path fd st) = sh_depth st"
    "sh_fd_map (gpu_trace_and_track_open real path fd st) = sh_fd_map st"
    "sh_gpu_ids (gpu_trace_and_track_open real path fd st) = sh_gpu_ids st"
    "sh_memory (gpu_trace_and_track_open real path fd st) = sh_memory st"
    "sh_allowed (gpu_trace_and_track_open real path fd st) = sh_allowed st"
    "sh_ready (gpu_trace_and_track_open real path fd st) = sh_ready st"
    "sh_os (gpu_trace_and_track_open real path fd st) = sh_os st"
  using assms by (simp_all add: track_open_initialized)

lemma classified_path: "rps_gpu_classify_path path = (True, r) \<Longrightarrow> \<exists>p. path = Some p"
  by (cases path) (auto simp: rps_gpu_classify_path_def)

text \<open>The operations of the tracker store no records but the given one and those it has.\<close>

lemma tracker_records:
  "snd ` set (rps_gpu_fd_map_set m fd (Some r) ns) \<subseteq> insert r (snd ` set ns)"
  "snd ` set (rps_gpu_fd_map_remove fd ns) \<subseteq> snd ` set ns"
  "gpu_fds_ok ns \<Longrightarrow> snd ` set (rps_gpu_fd_map_copy m old new ns) \<subseteq> snd ` set ns"
proof -
  have upd: "snd ` set (xs[i := (fd, r)]) \<subseteq> insert r (snd ` set xs)" for xs :: gpu_fd_list and i fd r
    using set_update_subset_insert [of xs i "(fd, r)"] by auto
  show sets: "snd ` set (rps_gpu_fd_map_set m fd (Some r) ns) \<subseteq> insert r (snd ` set ns)"
    for m fd r and ns :: gpu_fd_list
    using upd by (auto simp: rps_gpu_fd_map_set_def split: option.split)
  show removes: "snd ` set (rps_gpu_fd_map_remove fd ns) \<subseteq> snd ` set ns" for fd and ns :: gpu_fd_list
  proof -
    have "set (unlink_first fd ns) \<subseteq> set ns" by (induction ns) auto
    then show ?thesis by (auto simp: rps_gpu_fd_map_remove_def)
  qed
  assume ok: "gpu_fds_ok ns"
  show "snd ` set (rps_gpu_fd_map_copy m old new ns) \<subseteq> snd ` set ns"
  proof (cases "old < 0 \<or> new < 0")
    case True
    then show ?thesis by (auto simp: rps_gpu_fd_map_copy_def)
  next
    case False
    have mem: "r \<in> snd ` set ns" if "map_of ns old = Some r" for r
      using imageI [OF map_of_SomeD [OF that], of snd] by simp
    have fds: "0 \<le> old" "0 \<le> new" using False by auto
    show ?thesis
    proof (cases "map_of ns old")
      case None
      with tracker_copy_eq [OF ok fds, of m] removes [of new ns] show ?thesis by simp
    next
      case (Some r)
      with tracker_copy_eq [OF ok fds, of m] have eq: "rps_gpu_fd_map_copy m old new ns =
          rps_gpu_fd_map_set m new (Some r) ns" by simp
      show ?thesis
        unfolding eq using sets [of m new r ns] by (simp only: insert_absorb [OF mem [OF Some]])
    qed
  qed
qed

lemma ball_subset: "A \<subseteq> B \<Longrightarrow> \<forall>x \<in> B. P x \<Longrightarrow> \<forall>x \<in> A. P x"
  by blast

lemma records_subset: "gpu_records_ok ns \<Longrightarrow> snd ` set ms \<subseteq> snd ` set ns \<Longrightarrow> gpu_records_ok ms"
  unfolding gpu_records_ok_def by blast

lemma tracker_keeps_records:
  "gpu_records_ok ns \<Longrightarrow> gpu_records_ok (rps_gpu_fd_map_remove fd ns)"
  "gpu_records_ok ns \<Longrightarrow> gpu_fds_ok ns \<Longrightarrow> gpu_records_ok (rps_gpu_fd_map_copy m old new ns)"
  by (rule records_subset, assumption, rule tracker_records(2))
    (rule records_subset, assumption, rule tracker_records(3))

lemma track_open_ok [simp]:
  assumes ok: "static_ok st"
  shows "static_ok (gpu_trace_and_track_open real path fd st)"
proof -
  obtain c r where cl: "rps_gpu_classify_path path = (c, r)" by fastforce
  have fds: "gpu_fds_ok (sh_gpu_fds st)" "gpu_records_ok (sh_gpu_fds st)"
    using ok by (simp_all add: static_ok_def)
  have set_records: "gpu_records_ok (rps_gpu_fd_map_set m fd (Some r) (sh_gpu_fds st))" if c for m
  proof -
    from that cl classified_path [of path r] obtain p where "rps_gpu_classify_path (Some p) = (True, r)" by auto
    then have "\<forall>x \<in> insert r (snd ` set (sh_gpu_fds st)). \<exists>p. rps_gpu_classify_path (Some p) = (True, x)"
      using fds(2) unfolding gpu_records_ok_def by blast
    then show ?thesis
      unfolding gpu_records_ok_def using tracker_records(1) by (rule ball_subset [rotated])
  qed
  show ?thesis
    using ok fds set_records tracker_keeps_records(1) [OF fds(2), of fd]
    by (simp add: track_open_initialized cl static_ok_gpu_fds tracker_set_ok tracker_remove_lookup)
qed

lemma forget_virtual_ok [simp]: "static_ok st \<Longrightarrow> static_ok (forget_virtual real fd st)"
  unfolding forget_virtual_def
  by (rule static_ok_fd_map) (simp_all add: static_ok_def remove_ok)

lemma copy_empty: "rps_gpu_fd_map_copy m old new [] = []"
  by (simp add: rps_gpu_fd_map_copy_def)

lemma copy_keeps_ok: "gpu_fds_ok ns \<Longrightarrow> gpu_fds_ok (rps_gpu_fd_map_copy m old new ns)"
  using gpu_fd_step_ok [of ns "Gpu_copy m old new"] by simp

lemma copy_tracked_ok [simp]: "static_ok st \<Longrightarrow> static_ok (copy_tracked real old new st)"
  unfolding copy_tracked_def
  by (rule static_ok_gpu_fds)
    (auto simp: static_ok_def copy_keeps_ok copy_empty tracker_keeps_records)

lemma remove_empty: "rps_gpu_fd_map_remove fd [] = []"
  by (simp add: rps_gpu_fd_map_remove_def)

lemma untrack_ok [simp]:
  "static_ok st \<Longrightarrow> static_ok (st\<lparr>sh_gpu_fds := rps_gpu_fd_map_remove fd (sh_gpu_fds st)\<rparr>)"
  by (rule static_ok_gpu_fds)
    (auto simp: static_ok_def tracker_remove_lookup remove_empty tracker_keeps_records)

lemma small_fields [simp]:
  "sh_depth (forget_virtual real fd st) = sh_depth st" "sh_depth (copy_tracked real old new st) = sh_depth st"
  "sh_gpu_fds (forget_virtual real fd st) = sh_gpu_fds st" "sh_fd_map (copy_tracked real old new st) = sh_fd_map st"
  "sh_os (forget_virtual real fd st) = sh_os st" "sh_os (copy_tracked real old new st) = sh_os st"
  by (simp_all add: forget_virtual_def copy_tracked_def)

section \<open>Loops: lemmas\<close>

text \<open>States that differ in the layer below only.\<close>

definition same_statics :: "'w shim \<Rightarrow> 'w shim \<Rightarrow> bool" where
  "same_statics st st' \<longleftrightarrow> st' = st\<lparr>sh_os := sh_os st'\<rparr>"

lemma same_statics_refl [simp]: "same_statics st st"
  by (simp add: same_statics_def)

lemma same_statics_trans [trans]: "same_statics a b \<Longrightarrow> same_statics b c \<Longrightarrow> same_statics a c"
  unfolding same_statics_def by (metis shim.surjective shim.update_convs(9))

lemma same_statics_call [simp]: "same_statics st (snd (call_real f st))"
  by (simp add: same_statics_def call_real_def case_prod_beta)

lemma same_statics_errno [simp]: "same_statics st (set_errno e st)"
  by (simp add: same_statics_def set_errno_def)

lemma same_staticsD:
  assumes "same_statics st st'"
  shows "static_ok st' = static_ok st" "sh_depth st' = sh_depth st" "shim_ok st' = shim_ok st"
    "sh_config st' = sh_config st" "sh_fd_map st' = sh_fd_map st" "sh_gpu_fds st' = sh_gpu_fds st"
    "sh_allowed st' = sh_allowed st" "sh_ready st' = sh_ready st"
proof -
  obtain os where st': "st' = st\<lparr>sh_os := os\<rparr>" using assms unfolding same_statics_def by blast
  show "static_ok st' = static_ok st" "sh_depth st' = sh_depth st" "shim_ok st' = shim_ok st"
    "sh_config st' = sh_config st" "sh_fd_map st' = sh_fd_map st" "sh_gpu_fds st' = sh_gpu_fds st"
    "sh_allowed st' = sh_allowed st" "sh_ready st' = sh_ready st"
    unfolding st' by (simp_all add: shim_ok_def)
qed


lemma write_all_statics: "write_all_fd real fd buf st = Some r \<Longrightarrow> same_statics st (snd r)"
proof (erule write_all_fd.raw_induct [where P = "\<lambda>real fd buf st r. same_statics st (snd r)", rotated],
    goal_cases)
  case (1 f real fd buf st r)
  let ?st = "snd (call_real (re_write real fd buf) st)"
  have "same_statics ?st (snd r) \<or> snd r = ?st \<or> r = (True, st)"
    using 1(2) 1(1) [of real fd buf ?st r]
      1(1) [of real fd "drop (nat (fst (call_real (re_write real fd buf) st))) buf" ?st r]
    by (auto simp: case_prod_beta Let_def simp del: call_real_fields split: if_splits)
  then show ?case using same_statics_trans [OF same_statics_call [of st "re_write real fd buf"]] by auto
qed

lemma readdir_entry_initialized:
  "cs_initialized (sh_config st) \<Longrightarrow> gpu_readdir_entry_allowed real fd name st =
     (\<not> cfg_gpu_video (config_of st) \<or> \<not> sh_ready st \<or> name = None
      \<or> (case rps_gpu_fd_map_get fd (sh_gpu_fds st) of
           None \<Rightarrow> True | Some r \<Rightarrow> fr_kind r \<noteq> RPS_GPU_FD_PROC_GPUS_DIR)
      \<or> name = Some ''.'' \<or> name = Some ''..''
      \<or> rps_gpu_allowed_contains_bus (Some (sh_allowed st)) name, st)"
  by (auto simp: gpu_readdir_entry_allowed_def rps_gpu_video_enabled_def Let_def)

lemma readdir_loop_statics:
  "readdir_loop real nxt fd entry st = Some r \<Longrightarrow>
     cs_initialized (sh_config st) \<longrightarrow> same_statics st (snd r)"
proof (erule readdir_loop.raw_induct [where
      P = "\<lambda>real nxt fd entry st r. cs_initialized (sh_config st) \<longrightarrow> same_statics st (snd r)", rotated],
    goal_cases)
  case (1 f real nxt fd entry st r)
  show ?case
  proof
    assume init: "cs_initialized (sh_config st)"
    obtain e st' where c: "call_real nxt st = (e, st')" by fastforce
    then have st': "same_statics st st'" using same_statics_call [of st nxt] by simp
    have init': "cs_initialized (sh_config st')" using init same_staticsD(4) [OF st'] by simp
    from 1(2) init have "r = (Some entry, st) \<or> r = (None, st') \<or> (\<exists>entry. f real nxt fd entry st' = Some r)"
      by (auto simp: readdir_entry_initialized c split: if_splits option.splits)
    then show "same_statics st (snd r)"
      using st' 1(1) [of real nxt fd _ st' r] init' same_statics_trans [OF st'] by auto
  qed
qed

lemma readdir_common_statics:
  assumes "readdir_common real nxt d st = Some r" "cs_initialized (sh_config st)"
  shows "same_statics st (snd r)"
proof -
  obtain e st' where c: "call_real nxt st = (e, st')" by fastforce
  then have st': "same_statics st st'" using same_statics_call [of st nxt] by simp
  have "cs_initialized (sh_config st')" using assms(2) same_staticsD(4) [OF st'] by simp
  then have "same_statics st (snd r)"
    if "readdir_loop real nxt fd entry st' = Some r" for fd entry
    using same_statics_trans [OF st'] readdir_loop_statics [OF that] by blast
  with assms(1) st' show ?thesis
    by (auto simp: readdir_common_def c split: option.splits)
qed

lemma fopen_memfd_statics:
  assumes "fopen_memfd real text st = Some r"
  shows "same_statics st (snd r)"
proof -
  obtain fd st1 where c: "call_real (re_memfd_create real) st = (fd, st1)" by fastforce
  then have st1: "same_statics st st1" using same_statics_call [of st "re_memfd_create real"] by simp
  show ?thesis
  proof (cases "fd < 0")
    case True
    with assms st1 c show ?thesis by (auto simp: fopen_memfd_def)
  next
    case False
    with assms c obtain ok st2 where w: "write_all_fd real fd text st1 = Some (ok, st2)"
      by (auto simp: fopen_memfd_def bind_eq_Some_conv)
    from write_all_statics [OF w] have st2: "same_statics st st2"
      using same_statics_trans [OF st1] by simp
    let ?st3 = "snd (call_real (re_lseek_start real fd) st2)"
    let ?st4 = "snd (call_real (re_fdopen real fd ''r'') ?st3)"
    have st3: "same_statics st ?st3" and st4: "same_statics st ?st4"
      using same_statics_trans [OF st2 same_statics_call]
        same_statics_trans [OF same_statics_trans [OF st2 same_statics_call] same_statics_call] by blast+
    from assms c False w have "snd r \<in> {st2, ?st3, ?st4} \<or>
        (\<exists>x \<in> {st2, ?st3, ?st4}. snd r = snd (call_real (re_close real fd) x))"
      by (auto simp: fopen_memfd_def case_prod_beta simp del: call_real_fields split: if_splits)
    then show ?thesis using st2 st3 st4 same_statics_trans [OF _ same_statics_call] by auto
  qed
qed

section \<open>Every hook keeps the invariant\<close>

lemma shim_ok_call [simp]: "shim_ok (snd (call_real f st)) = shim_ok st"
  by (simp add: shim_ok_def)

lemma shim_ok_static: "shim_ok st \<Longrightarrow> static_ok st" "shim_ok st \<Longrightarrow> sh_depth st = 0"
  "shim_ok st \<Longrightarrow> cs_initialized (sh_config st)"
  by (simp_all add: shim_ok_def)

lemma shim_ok_errno [simp]: "shim_ok (set_errno e st) = shim_ok st"
  by (simp add: shim_ok_def)

lemma open_common_ok:
  "shim_ok st \<Longrightarrow> shim_ok (snd (open_common real path flags mode has_mode b st))"
  by (simp add: open_common_def Let_def case_prod_beta denied_initialized shim_ok_def
      gpu_open_denied_path_def)

lemma openat_common_ok:
  "shim_ok st \<Longrightarrow> shim_ok (snd (openat_common real dirfd path flags mode has_mode b st))"
  by (simp add: openat_common_eq Let_def case_prod_beta denied_initialized shim_ok_def
      gpu_open_denied_path_def split: effective_path.split)

lemma hook_read_ok: "shim_ok st \<Longrightarrow> shim_ok (snd (hook_read real fd null n st))"
proof -
  assume ok: "shim_ok st"
  then have "fd_map_ok (snd (rps_fd_map_take_read lock fd null n (sh_fd_map st)))" for lock
    by (intro take_read_keeps_ok) (simp add: shim_ok_def static_ok_def)
  then have "static_ok (st\<lparr>sh_fd_map := snd (rps_fd_map_take_read lock fd null n (sh_fd_map st))\<rparr>)" for lock
    using ok by (intro static_ok_fd_map) (simp_all add: shim_ok_def)
  moreover have "st\<lparr>sh_depth := 1, sh_fd_map := m, sh_depth := 0\<rparr> = st\<lparr>sh_fd_map := m, sh_depth := 0\<rparr>" for m
    by simp
  ultimately show ?thesis
    using ok by (simp add: hook_read_def Let_def case_prod_beta shim_ok_def the_world_def split: option.split)
qed

lemma hook_close_ok: "shim_ok st \<Longrightarrow> shim_ok (snd (hook_close real fd st))"
  using untrack_ok [of "forget_virtual real fd st" fd]
  by (simp add: hook_close_def Let_def shim_ok_def)

lemma dup_hooks_ok:
  assumes "shim_ok st"
  shows "shim_ok (snd (hook_dup real fd st))" "shim_ok (snd (hook_dup2 real fd fd' st))"
    "shim_ok (snd (hook_dup3 real fd fd' flags st))" "shim_ok (snd (hook_fcntl real fd cmd va st))"
  using assms
  by (simp_all add: hook_dup_def hook_dup2_def hook_dup3_def hook_fcntl_def Let_def case_prod_beta shim_ok_def)

lemma stat_hooks_ok:
  assumes "shim_ok st"
  shows "shim_ok (snd (hook_stat real path st))" "shim_ok (snd (hook_fstat real fd st))"
    "shim_ok (snd (fstatat_common real fd path flags st))"
  using assms
  by (simp_all add: hook_stat_def hook_fstat_def fstatat_common_def Let_def case_prod_beta
      denied_initialized [OF shim_ok_static(3)] split: effective_path.split)

lemma dir_hooks_ok:
  assumes "shim_ok st"
  shows "shim_ok (snd (opendir_common real path b st))" "shim_ok (snd (hook_fdopendir real fd st))"
    "shim_ok (snd (hook_closedir real d st))"
  using assms untrack_ok [of "snd (call_real (re_closedir real d) st)"]
  by (simp_all add: opendir_common_eq hook_fdopendir_def hook_closedir_def Let_def case_prod_beta
      denied_initialized shim_ok_def split: option.split)

lemma readdir_hooks_ok:
  assumes "shim_ok st"
  shows "hook_readdir real d st = Some r \<Longrightarrow> shim_ok (snd r)"
    "hook_readdir64 real d st = Some r \<Longrightarrow> shim_ok (snd r)"
proof -
  have common: "shim_ok (snd r)" if "readdir_common real nxt d st = Some r" for nxt
    using readdir_common_statics [OF that shim_ok_static(3) [OF assms]] same_staticsD(3) assms by blast
  then show "hook_readdir real d st = Some r \<Longrightarrow> shim_ok (snd r)"
    by (simp add: hook_readdir_def)
  show "hook_readdir64 real d st = Some r \<Longrightarrow> shim_ok (snd r)"
    using common assms by (auto simp: hook_readdir64_def split: option.splits)
qed

lemma hook_getdents64_ok: "shim_ok st \<Longrightarrow> shim_ok (snd (hook_getdents64 real fd n st))"
  by (simp add: hook_getdents64_def Let_def case_prod_beta shim_ok_def)

lemma hook_ioctl_ok: "shim_ok st \<Longrightarrow> shim_ok (snd (hook_ioctl real fd request va st))"
proof -
  assume ok: "shim_ok st"
  let ?st = "\<lambda>a. snd (call_real (re_ioctl real fd request a) st)"
  have "gpu_ids_ok (sh_gpu_ids (?st a))" for a using ok by (simp add: shim_ok_def static_ok_def)
  then have ids: "gpu_ids_ok (snd (rps_gpu_ioctl_filter_after cfg al request arg res (m, sh_gpu_ids (?st a))))"
    for cfg al arg res m a using ioctl_ids_step by blast
  have "static_ok ((?st a)\<lparr>sh_os := os, sh_gpu_ids :=
      snd (rps_gpu_ioctl_filter_after cfg al request arg res (m, sh_gpu_ids (?st a)))\<rparr>)" for cfg al arg res m a os
    using ok ids by (intro static_ok_gpu_ids) (simp_all add: shim_ok_def)
  then show ?thesis
    using ok by (simp add: hook_ioctl_def Let_def case_prod_beta shim_ok_def del: call_real_fields(9,10))
qed

lemma memory_hooks_ok:
  assumes "shim_ok st"
  shows "shim_ok (snd (hook_sysinfo ulong_max real null st))" "shim_ok (snd (hook_sysconf long_max real name st))"
  using assms
  by (simp_all add: hook_sysinfo_def hook_sysconf_def Let_def case_prod_beta shim_ok_def split: option.split)

lemma fopen_common_forward:
  assumes "cs_initialized (sh_config st)"
    and "\<not> (meminfo_mode_is_read_only mode \<and> fst (should_virtualize_meminfo real path O_RDONLY st) \<and>
      sh_depth st = 0)"
  shows "fopen_common real path mode b st = Some (real_fopen_common real path mode b st)"
proof -
  obtain v where "should_virtualize_meminfo real path O_RDONLY st = (v, st)"
    using should_virtualize_initialized [OF assms(1)] by blast
  with assms(2) show ?thesis by (auto simp: fopen_common_def)
qed

lemma hook_fopen_ok:
  assumes "shim_ok st" "fopen_common real path mode b st = Some r"
  shows "shim_ok (snd r)"
proof -
  have real_ok: "shim_ok (snd (real_fopen_common real path mode b st'))" if "shim_ok st'" for st' :: "'a shim"
    using that by (simp add: real_fopen_common_def)
  show ?thesis
  proof (cases "meminfo_mode_is_read_only mode \<and> fst (should_virtualize_meminfo real path O_RDONLY st)")
    case False
    then show ?thesis
      using assms real_ok [OF assms(1)] fopen_common_forward [OF shim_ok_static(3) [OF assms(1)]] by auto
  next
    case True
    let ?st1 = "snd (build_meminfo real (st\<lparr>sh_depth := 1\<rparr>))"
    from assms have ok1: "static_ok ?st1" "sh_depth ?st1 = 1" by (simp_all add: shim_ok_def)
    obtain fp st2 where st2: "same_statics ?st1 st2"
      and res: "r = (if fp \<noteq> None then (fp, leave_guard st2)
                     else real_fopen_common real path mode b (leave_guard st2))"
    proof -
      have yes: "should_virtualize_meminfo real path O_RDONLY st = (True, st)"
        using True should_virtualize_initialized [OF shim_ok_static(3) [OF assms(1)]] by simp
      with True assms shim_ok_static(2) [OF assms(1)] obtain p where
        p: "(case fst (build_meminfo real (st\<lparr>sh_depth := 1\<rparr>)) of None \<Rightarrow> Some (None, ?st1)
             | Some text \<Rightarrow> fopen_memfd real text ?st1) = Some p"
        and r: "r = (if fst p \<noteq> None then (fst p, leave_guard (snd p))
                     else real_fopen_common real path mode b (leave_guard (snd p)))"
        by (auto simp: fopen_common_def case_prod_beta Let_def bind_eq_Some_conv split: if_splits)
      have "same_statics ?st1 (snd p)"
        using p by (auto split: option.splits intro: fopen_memfd_statics)
      with r that show ?thesis by blast
    qed
    have "static_ok st2" "sh_depth st2 = 1" using same_staticsD(1,2) [OF st2] ok1 by simp_all
    then have "shim_ok (leave_guard st2)" by (simp add: shim_ok_def)
    with res real_ok show ?thesis by (auto split: if_splits)
  qed
qed

section \<open>The interposed library as a state machine\<close>

text \<open>
  One call of the program that reaches the shim; between calls the program and the system
  may change the layer below in any way. A call that does not return has no step.
\<close>

inductive shim_step :: "u64 \<Rightarrow> u64 \<Rightarrow> 'w real \<Rightarrow> 'w shim \<Rightarrow> 'w shim \<Rightarrow> bool"
  for ulong_max :: u64 and long_max :: u64 and real :: "'w real" where
  outside: "shim_step ulong_max long_max real st (st\<lparr>sh_os := os\<rparr>)"
| call_open: "shim_step ulong_max long_max real st (snd (hook_open real b path flags va st))"
| call_openat: "shim_step ulong_max long_max real st (snd (hook_openat real b dirfd path flags va st))"
| call_fopen: "fopen_common real path mode b st = Some r \<Longrightarrow> shim_step ulong_max long_max real st (snd r)"
| call_read: "shim_step ulong_max long_max real st (snd (hook_read real fd null n st))"
| call_close: "shim_step ulong_max long_max real st (snd (hook_close real fd st))"
| call_dup: "shim_step ulong_max long_max real st (snd (hook_dup real fd st))"
| call_dup2: "shim_step ulong_max long_max real st (snd (hook_dup2 real fd fd' st))"
| call_dup3: "shim_step ulong_max long_max real st (snd (hook_dup3 real fd fd' flags st))"
| call_fcntl: "shim_step ulong_max long_max real st (snd (hook_fcntl real fd cmd va' st))"
| call_stat: "shim_step ulong_max long_max real st (snd (hook_stat real path st))"
| call_fstat: "shim_step ulong_max long_max real st (snd (hook_fstat real fd st))"
| call_fstatat: "shim_step ulong_max long_max real st (snd (fstatat_common real dirfd path flags st))"
| call_opendir: "shim_step ulong_max long_max real st (snd (opendir_common real path b st))"
| call_fdopendir: "shim_step ulong_max long_max real st (snd (hook_fdopendir real fd st))"
| call_closedir: "shim_step ulong_max long_max real st (snd (hook_closedir real d st))"
| call_readdir: "hook_readdir real d st = Some r' \<Longrightarrow> shim_step ulong_max long_max real st (snd r')"
| call_readdir64: "hook_readdir64 real d st = Some r' \<Longrightarrow> shim_step ulong_max long_max real st (snd r')"
| call_getdents64: "shim_step ulong_max long_max real st (snd (hook_getdents64 real fd n st))"
| call_ioctl: "shim_step ulong_max long_max real st (snd (hook_ioctl real fd request a st))"
| call_sysinfo: "shim_step ulong_max long_max real st (snd (hook_sysinfo ulong_max real null st))"
| call_sysconf: "shim_step ulong_max long_max real st (snd (hook_sysconf long_max real name st))"

inductive reachable :: "u64 \<Rightarrow> u64 \<Rightarrow> 'w real \<Rightarrow> 'w shim \<Rightarrow> bool"
  for ulong_max :: u64 and long_max :: u64 and real :: "'w real" where
  loaded: "reachable ulong_max long_max real (runpod_shim_init real (shim_zero os))"
| step: "reachable ulong_max long_max real st \<Longrightarrow> shim_step ulong_max long_max real st st' \<Longrightarrow>
     reachable ulong_max long_max real st'"

lemma shim_step_ok: "shim_step ul l real st st' \<Longrightarrow> shim_ok st \<Longrightarrow> shim_ok st'"
proof (induction rule: shim_step.induct)
  case (outside st os)
  then show ?case by (simp add: shim_ok_def)
qed (simp_all add: hook_open_def hook_openat_def Let_def open_common_ok openat_common_ok hook_fopen_ok
    hook_read_ok hook_close_ok dup_hooks_ok stat_hooks_ok dir_hooks_ok readdir_hooks_ok
    hook_getdents64_ok hook_ioctl_ok memory_hooks_ok)

lemma init_ok: "shim_ok (runpod_shim_init real (shim_zero os))"
proof -
  obtain cfg cs where cs: "rps_config_get (re_env real (os_world os)) config_state_init = (cfg, cs)"
    by fastforce
  from rps_config_get_sets [OF cs] have init: "cs_initialized cs" "cs_config cs = cfg" by simp_all
  have valid: "ga_valid (snd (rps_gpu_proc_filter_runtime_init sys u)) =
      fst (rps_gpu_proc_filter_runtime_init sys u)" for sys u
    by (simp add: rps_gpu_proc_filter_runtime_init_def build_allowed_eq Let_def)
  have zero: "gpu_fds_ok []" "gpu_records_ok []" "gpu_ids_ok []" "mem_state_ok mem_state_init"
    by (simp_all add: gpu_fds_ok_def gpu_records_ok_def gpu_ids_ok_def mem_state_init_ok)
  show ?thesis
    using init zero fd_entries_init_ok valid
    by (simp add: runpod_shim_init_def get_config_def shim_zero_def the_world_def cs Let_def
        case_prod_beta shim_ok_def static_ok_def)
qed

lemma reachable_ok: "reachable ul l real st \<Longrightarrow> shim_ok st"
  by (induction rule: reachable.induct) (simp_all add: init_ok shim_step_ok)

text \<open>No hook changes the configuration, the filter's readiness or its list of GPUs.\<close>

definition same_setup :: "'w shim \<Rightarrow> 'w shim \<Rightarrow> bool" where
  "same_setup st st' \<longleftrightarrow>
     sh_config st' = sh_config st \<and> sh_ready st' = sh_ready st \<and> sh_allowed st' = sh_allowed st"

lemma same_statics_setup: "same_statics st st' \<Longrightarrow> same_setup st st'"
  by (simp add: same_setup_def same_staticsD)

lemma more_fields [simp]:
  "sh_config (forget_virtual real fd st) = sh_config st" "sh_config (copy_tracked real old new st) = sh_config st"
  "sh_ready (forget_virtual real fd st) = sh_ready st" "sh_ready (copy_tracked real old new st) = sh_ready st"
  "sh_allowed (forget_virtual real fd st) = sh_allowed st" "sh_allowed (copy_tracked real old new st) = sh_allowed st"
  by (simp_all add: forget_virtual_def copy_tracked_def)

lemma fopen_setup:
  assumes "shim_ok st" "fopen_common real path mode b st = Some r"
  shows "same_setup st (snd r)"
proof -
  have init: "cs_initialized (sh_config st)" "sh_depth st = 0" using assms(1) by (simp_all add: shim_ok_def)
  let ?st1 = "snd (build_meminfo real (st\<lparr>sh_depth := 1\<rparr>))"
  have memfd: "same_setup ?st1 (snd p)" "sh_depth (snd p) = 1"
    if "fopen_memfd real d ?st1 = Some p" for d p
    using fopen_memfd_statics [OF that] same_staticsD(2) [OF fopen_memfd_statics [OF that]]
    by (simp_all add: same_statics_setup init)
  show ?thesis
    using assms(2) init memfd
    by (auto simp: fopen_common_def should_virtualize_initialized real_fopen_common_def same_setup_def
        bind_eq_Some_conv Let_def case_prod_beta split: if_splits option.splits)
qed

lemma shim_step_setup: "shim_step ul l real st st' \<Longrightarrow> shim_ok st \<Longrightarrow> same_setup st st'"
proof (induction rule: shim_step.induct)
  case (call_fopen path mode b st r)
  then show ?case by (rule fopen_setup [rotated])
next
  case (call_readdir d st r')
  then show ?case
    unfolding hook_readdir_def by (blast intro: same_statics_setup readdir_common_statics shim_ok_static(3))
next
  case (call_readdir64 d st r')
  then show ?case
    by (auto simp: hook_readdir64_def same_setup_def [of st "set_errno _ st"] split: option.splits
        intro: same_statics_setup readdir_common_statics shim_ok_static(3))
qed (simp_all add: same_setup_def shim_ok_def hook_open_def hook_openat_def open_common_def openat_common_eq
    gpu_open_denied_path_def denied_initialized hook_read_def hook_close_def hook_dup_def hook_dup2_def
    hook_dup3_def hook_fcntl_def hook_stat_def hook_fstat_def fstatat_common_def opendir_common_eq
    hook_fdopendir_def hook_closedir_def hook_getdents64_def hook_ioctl_def hook_sysinfo_def
    hook_sysconf_def Let_def case_prod_beta split: option.split effective_path.split)

section \<open>A concrete system for the witnesses\<close>

text \<open>
  Two GPUs, one of them mounted (\<open>fixture_sys\<close>), and a cgroup limit of 2 GiB
  (\<open>hybrid_fs\<close>). The state of the world is how many entries the one directory stream,
  on descriptor 7, has delivered, and what was written to the one memory file, descriptor 9.
  Every open gives descriptor 5.
\<close>

record demo_world =
  dw_entries :: nat
  dw_file :: string

definition mounted_gpu :: rps_gpu_allowed_gpus where
  "mounted_gpu = \<lparr>ga_valid = True, ga_gpus = [\<lparr>gi_present = True, gi_device_minor = 0,
     gi_bus_id = ''0000:01:00.0'', gi_uuid = []\<rparr>]\<rparr>"

definition gpu_dir_entries :: "dirent list" where
  "gpu_dir_entries = [\<lparr>de_ino = 1, de_name = ''.''\<rparr>, \<lparr>de_ino = 2, de_name = ''0000:02:00.0''\<rparr>,
     \<lparr>de_ino = 3, de_name = ''0000:01:00.0''\<rparr>]"

definition next_entry :: "demo_world os \<Rightarrow> dirent option \<times> demo_world os" where
  "next_entry os = (let i = dw_entries (os_world os) in
     if i < length gpu_dir_entries
     then (Some (gpu_dir_entries ! i), os\<lparr>os_world := (os_world os)\<lparr>dw_entries := Suc i\<rparr>\<rparr>)
     else (None, os))"

definition demo_fs :: fs where
  "demo_fs = hybrid_fs (''/proc/meminfo'' :=
     Some \<lparr>st_data = concat (map (\<lambda>l. l @ [LF]) meminfo_fixture), st_err = False\<rparr>)"

definition demo_real :: "demo_world real" where
  "demo_real = \<lparr>re_env = (\<lambda>_ _. None), re_fs = (\<lambda>_. demo_fs),
     re_lock_ok = (\<lambda>_ _. True), re_malloc_ok = (\<lambda>_ _. True), re_gpu_sys = (\<lambda>_. fixture_sys),
     re_open = (\<lambda>_ _ _ os. (5, os)), re_open64 = (\<lambda>_ _ _ os. (5, os)),
     re_openat = (\<lambda>_ _ _ _ os. (5, os)), re_openat64 = None,
     re_fopen = (\<lambda>_ _ os. (Some 1, os)), re_fopen64 = (\<lambda>_ _ os. (Some 1, os)),
     re_fdopen = (\<lambda>_ _ os. (Some 2, os)),
     re_memfd_create = (\<lambda>os. (9, os\<lparr>os_world := (os_world os)\<lparr>dw_file := []\<rparr>\<rparr>)),
     re_write = (\<lambda>_ buf os. (int (length buf),
       os\<lparr>os_world := (os_world os)\<lparr>dw_file := dw_file (os_world os) @ buf\<rparr>\<rparr>)),
     re_lseek_start = (\<lambda>_ os. (0, os)),
     re_read = (\<lambda>_ _ _ os. ((0, []), os)), re_close = (\<lambda>_ os. (0, os)),
     re_dup = (\<lambda>_ os. (6, os)), re_dup2 = (\<lambda>_ fd os. (fd, os)), re_dup3 = (\<lambda>_ fd _ os. (fd, os)),
     re_fcntl = (\<lambda>_ _ _ os. (0, os)), re_stat = (\<lambda>_ os. (0, os)), re_fstat = (\<lambda>_ os. (0, os)),
     re_newfstatat = (\<lambda>_ _ _ os. (0, os)), re_opendir = (\<lambda>_ os. (Some 3, os)), re_opendir64 = None,
     re_fdopendir = None, re_closedir = (\<lambda>_ os. (0, os)), re_dirfd = (\<lambda>_ _. 7),
     re_readdir = (\<lambda>_. next_entry), re_readdir64 = None,
     re_getdents64 = (\<lambda>_ _ os. ((0, None), os)), re_ioctl = (\<lambda>_ _ _ os. (0, os)),
     re_sysinfo = (\<lambda>_ os. ((0, \<lparr>si_totalram = 67108864, si_freeram = 61440000, si_mem_unit = 1024,
       si_other = []\<rparr>), os)),
     re_sysconf = (\<lambda>_ os. (4096, os))\<rparr>"

definition demo_os :: "demo_world os" where
  "demo_os = \<lparr>os_errno = 0, os_mem = (\<lambda>_. 0), os_world = \<lparr>dw_entries = 0, dw_file = []\<rparr>\<rparr>"

definition demo_start :: "demo_world shim" where
  "demo_start = runpod_shim_init demo_real (shim_zero demo_os)"

lemma fixture_init: "rps_gpu_proc_filter_runtime_init fixture_sys None = (True, mounted_gpu)"
  using fixture_reads 
  unfolding rps_gpu_proc_filter_runtime_init_def
  by (simp add: collect_mounted_minors_eq [OF fixture_reads(1)] collect_gpu_infos_eq [OF fixture_reads(2)]
    Let_def build_allowed_eq mounted_gpu_def gpu_admitted_def)

lemma demo_start_eq:
  "demo_start = \<lparr>sh_config = \<lparr>cs_config = \<lparr>cfg_gpu_video = True, cfg_gpu_ioctl = True,
       cfg_cgroup_memory = True, cfg_trace = False\<rparr>, cs_initialized = True\<rparr>,
     sh_depth = 0, sh_fd_map = fd_entries_init, sh_gpu_fds = [], sh_gpu_ids = [],
     sh_memory = mem_state_init, sh_allowed = mounted_gpu, sh_ready = True, sh_os = demo_os\<rparr>"
  by (simp add: demo_start_def demo_real_def runpod_shim_init_def get_config_def shim_zero_def
      the_world_def rps_config_get_def config_state_init_def rps_env_is_disabled_def
      rps_env_is_enabled_def fixture_init)

lemma demo_start_ok: "shim_ok demo_start" "reachable ul l demo_real demo_start"
  unfolding demo_start_def by (rule init_ok, rule loaded)

lemma classify_gpus_base:
  "rps_gpu_classify_path (Some gpus_base) =
     (True, \<lparr>fr_kind = RPS_GPU_FD_PROC_GPUS_DIR, fr_device_minor = -1, fr_path = gpus_base, fr_bus_id = []\<rparr>)"
  by code_simp

lemma demo_dir_tracked:
  "map_of (sh_gpu_fds (snd (hook_open demo_real False (Some gpus_base) 0 0 demo_start))) 5 =
     Some (snd (rps_gpu_classify_path (Some gpus_base)))"
  by code_simp

section \<open>Properties\<close>

text \<open>
  C9. In every state a loaded shim can reach, through any calls of the hooks in any order
  and whatever the system below does between them: no thread is left inside the guard; the
  table of virtual files is well formed (64 entries, no descriptor twice, no offset past its
  data); the tracked descriptors are distinct, not negative, and each has the record some
  path is classified as; the remembered GPU ids are distinct, valid and at most 32; a detected
  memory limit is finite; and the filter is ready only with a valid list of GPUs and only
  when the GPU module is on.
\<close>

theorem reachable_invariant:
  assumes "reachable ulong_max long_max real st"
  shows "sh_depth st = 0 \<and> fd_map_ok (sh_fd_map st) \<and> gpu_fds_ok (sh_gpu_fds st) \<and>
    (\<forall>fd r. map_of (sh_gpu_fds st) fd = Some r \<longrightarrow> (\<exists>p. rps_gpu_classify_path (Some p) = (True, r))) \<and>
    gpu_ids_ok (sh_gpu_ids st) \<and> mem_state_ok (sh_memory st) \<and>
    (sh_ready st \<longrightarrow> cfg_gpu_video (config_of st) \<and> ga_valid (sh_allowed st)) \<and>
    (\<not> cfg_gpu_video (config_of st) \<longrightarrow> sh_gpu_fds st = [])"
proof -
  from reachable_ok [OF assms] have ok: "static_ok st" "sh_depth st = 0" by (simp_all add: shim_ok_def)
  have "\<exists>p. rps_gpu_classify_path (Some p) = (True, r)" if "map_of (sh_gpu_fds st) fd = Some r" for fd r
    using ok(1) imageI [OF map_of_SomeD [OF that], of snd] unfolding static_ok_def gpu_records_ok_def by auto
  with ok show ?thesis unfolding static_ok_def by blast
qed

theorem reachable_invariant_witness:
  "sh_depth (snd (hook_open demo_real False (Some gpus_base) 0 0 demo_start)) = 0 \<and>
   (\<exists>r. map_of (sh_gpu_fds (snd (hook_open demo_real False (Some gpus_base) 0 0 demo_start))) 5 = Some r \<and>
     (\<exists>p. rps_gpu_classify_path (Some p) = (True, r)))"
proof -
  let ?st = "snd (hook_open demo_real False (Some gpus_base) 0 0 demo_start)"
  have "reachable 0 0 demo_real ?st" by (rule step [OF demo_start_ok(2) call_open])
  from reachable_invariant [OF this] show ?thesis using demo_dir_tracked by blast
qed

text \<open>
  C11. What the process was allowed to see when the library was loaded is what it sees until
  it ends: no sequence of calls, and nothing that happens in the system between them, changes
  the configuration, whether the filter is ready, or the list of allowed GPUs.
\<close>

theorem setup_never_changes:
  assumes "reachable ulong_max long_max real st"
    and "(shim_step ulong_max long_max real)\<^sup>*\<^sup>* st st'"
  shows "sh_config st' = sh_config st \<and> sh_ready st' = sh_ready st \<and> sh_allowed st' = sh_allowed st"
proof -
  from assms(2) have "shim_ok st' \<and> same_setup st st'"
  proof (induction rule: rtranclp_induct)
    case base
    then show ?case using assms(1) by (simp add: reachable_ok same_setup_def)
  next
    case (step st1 st2)
    then have "shim_ok st2" "same_setup st1 st2" by (blast intro: shim_step_ok shim_step_setup)+
    with step show ?case by (simp add: same_setup_def)
  qed
  then show ?thesis by (simp add: same_setup_def)
qed

theorem setup_never_changes_witness:
  "sh_ready (snd (hook_open demo_real False (Some gpus_base) 0 0 demo_start)) \<and>
   sh_allowed (snd (hook_open demo_real False (Some gpus_base) 0 0 demo_start)) = mounted_gpu"
proof -
  have "(shim_step 0 0 demo_real)\<^sup>*\<^sup>* demo_start (snd (hook_open demo_real False (Some gpus_base) 0 0 demo_start))"
    by (rule r_into_rtranclp) (rule call_open)
  from setup_never_changes [OF demo_start_ok(2) this] show ?thesis by (simp add: demo_start_eq)
qed

end
