(* ===== verification/Preload_Gpu.thy ===== *)
theory Preload_Gpu
  imports Preload_Invariant
begin

text \<open>
  What the hooks make of GPU paths, directories and descriptors: denied GPUs do not exist,
  relative paths are decided like absolute ones, listings show what may be opened, the
  descriptors are followed through \<open>dup\<close> and \<open>close\<close>, and without a detected topology the
  process sees the system as it is.
\<close>

section \<open>Denied and forwarded calls: lemmas\<close>

lemma denied_path_absolute:
  "rps_gpu_proc_path_allowed allowed (Some p) = RPS_GPU_PROC_DENY \<Longrightarrow> take 1 p = [SLASH]"
  by (cases p) (auto simp: path_denied_iff path_names_bus_def normalize_path_eq split: if_splits)

lemma ready_video: "shim_ok st \<Longrightarrow> sh_ready st \<Longrightarrow> cfg_gpu_video (config_of st)"
  by (auto simp: shim_ok_def static_ok_def)

lemma denied_when_ready:
  assumes "shim_ok st" "sh_ready st"
    and "rps_gpu_proc_path_allowed (Some (sh_allowed st)) (Some p) = RPS_GPU_PROC_DENY"
  shows "gpu_proc_denied real (Some p) st = (True, st)"
  using assms ready_video [OF assms(1,2)] denied_path_absolute [OF assms(3)]
  by (simp add: denied_initialized [OF shim_ok_static(3)] path_is_absolute_def)

lemma effective_absolute:
  "take 1 p = [SLASH] \<Longrightarrow>
     gpu_effective_openat_path fds dirfd (Some p) = RPS_GPU_EFFECTIVE_PASSTHROUGH (Some p)"
  by (simp add: gpu_effective_openat_path_def path_is_relative_def)

lemma not_denied_unready:
  "shim_ok st \<Longrightarrow> \<not> sh_ready st \<Longrightarrow> gpu_proc_denied real path st = (False, st)"
  by (simp add: denied_initialized [OF shim_ok_static(3)])

lemma call_real_eq: "call_real f st = (fst (f (sh_os st)), st\<lparr>sh_os := snd (f (sh_os st))\<rparr>)"
  by (simp add: call_real_def case_prod_beta)

section \<open>Relative paths: lemmas\<close>

abbreviation gpu_dir_segments :: "string list" where
  "gpu_dir_segments \<equiv> [''proc'', ''driver'', ''nvidia'', ''gpus'']"

fun relative_capped :: "string list \<Rightarrow> string list \<Rightarrow> string list option" where
  "relative_capped st [] = Some st"
| "relative_capped st (s # ss) =
     (if s = ''..'' \<and> length st \<le> 4 then None
      else if s \<noteq> ''.'' \<and> s \<noteq> ''..'' \<and> length st \<ge> 64 then None
      else relative_capped (resolve_step st s) ss)"

lemma relative_loop_eq: "relative_loop st p = relative_capped st (path_segments p)"
proof (induction st p rule: relative_loop.induct)
  case (1 st p)
  let ?p = "dropWhile (\<lambda>c. c = SLASH) p"
  show ?case
  proof (cases "?p = []")
    case True
    have "path_segments p = path_segments ?p" by (rule path_segments_dropWhile [symmetric])
    then have "path_segments p = []" unfolding True by simp
    with True show ?thesis by (simp add: relative_loop.simps [of st p])
  next
    case False
    let ?s = "takeWhile (\<lambda>c. c \<noteq> SLASH) ?p" and ?r = "dropWhile (\<lambda>c. c \<noteq> SLASH) ?p"
    have "hd ?p \<noteq> SLASH" using hd_dropWhile [OF False] by simp
    with False have ne: "?s \<noteq> []" by (cases ?p) auto
    have s: "SLASH \<notin> set ?s" by (auto dest: set_takeWhileD)
    have r: "?r = [] \<or> hd ?r = SLASH" using hd_dropWhile [of "\<lambda>c. c \<noteq> SLASH" ?p] by blast
    have "path_segments p = path_segments (?s @ ?r)"
      unfolding takeWhile_dropWhile_id by (rule path_segments_dropWhile [symmetric])
    also have "\<dots> = ?s # path_segments ?r" by (rule path_segments_append [OF ne s r])
    finally have eq: "path_segments p = ?s # path_segments ?r" .
    have dots: "''.'' \<noteq> ''..''" by simp
    note IH = "1.IH" [OF refl False refl refl]
    show ?thesis
      unfolding eq relative_loop.simps [of st p] Let_def relative_capped.simps resolve_step.simps
        if_not_P [OF False]
      using IH dots by (cases "?s = ''.''"; cases "?s = ''..''") simp_all
  qed
qed

text \<open>Where the relative scan succeeds, it never went below its start and agrees with the absolute one.\<close>

lemma relative_capped_SomeD:
  "relative_capped st ss = Some r \<Longrightarrow> 4 \<le> length st \<Longrightarrow>
     4 \<le> length r \<and> take 4 r = take 4 st \<and> resolve_capped st ss = Some r"
proof (induction st ss rule: relative_capped.induct)
  case (1 st)
  then show ?case by simp
next
  case (2 st s ss)
  have ok: "\<not> (s = ''..'' \<and> length st \<le> 4)" "\<not> (s \<noteq> ''.'' \<and> s \<noteq> ''..'' \<and> length st \<ge> 64)"
    and step: "relative_capped (resolve_step st s) ss = Some r"
    using 2(2) by (auto split: if_splits)
  have "4 \<le> length (resolve_step st s) \<and> take 4 (resolve_step st s) = take 4 st"
  proof (cases "s = ''..''")
    case True
    with ok(1) have "4 < length st" by simp
    with True show ?thesis by (simp add: take_butlast)
  next
    case False
    with 2(3) show ?thesis by simp
  qed
  with 2(1) [OF ok step] ok show ?case by (simp only: resolve_capped.simps) (auto split: if_splits)
qed

lemma resolve_capped_append:
  "resolve_capped st (ss @ ts) =
     (case resolve_capped st ss of None \<Rightarrow> None | Some st' \<Rightarrow> resolve_capped st' ts)"
  by (induction st ss rule: resolve_capped.induct) auto

lemma resolve_capped_proper:
  "\<forall>s \<in> set ss. proper_segment s \<Longrightarrow> length st + length ss \<le> 64 \<Longrightarrow>
     resolve_capped st ss = Some (st @ ss)"
  using resolve_capped_total [of st ss] foldl_resolve_id [of ss st] by simp

lemma path_segments_behind:
  "\<forall>s \<in> set ss. proper_segment s \<Longrightarrow> ss \<noteq> [] \<Longrightarrow>
     path_segments (join_path ss @ SLASH # p) = ss @ path_segments p"
proof (induction ss)
  case Nil
  then show ?case by simp
next
  case (Cons s ss)
  then have s: "s \<noteq> []" "SLASH \<notin> set s" by (auto simp: proper_segment_def)
  show ?case
  proof (cases "ss = []")
    case True
    then show ?thesis using path_segments_append [OF s, of "SLASH # p"] by (simp add: join_path_def)
  next
    case False
    then obtain x where x: "join_path ss @ SLASH # p = SLASH # x" by (cases ss) (auto simp: join_path_def)
    have "join_path (s # ss) @ SLASH # p = SLASH # (s @ (join_path ss @ SLASH # p))"
      using False by (simp add: join_path_def)
    moreover have "path_segments (s @ (join_path ss @ SLASH # p)) = s # path_segments (join_path ss @ SLASH # p)"
      unfolding x by (rule path_segments_append [OF s]) simp
    ultimately show ?thesis using Cons False by simp
  qed
qed

text \<open>The scan fails exactly where the path leaves the GPU directory, or is too deep to normalise.\<close>

lemma relative_capped_None_iff:
  "4 \<le> length st \<Longrightarrow> relative_capped st ss = None \<longleftrightarrow>
     resolve_capped st ss = None \<or> (\<exists>k. length (foldl resolve_step st (take k ss)) < 4)"
proof (induction st ss rule: relative_capped.induct)
  case (1 st)
  then show ?case by simp
next
  case (2 st s ss)
  show ?case
  proof (cases "s = ''..'' \<and> length st \<le> 4")
    case True
    then have "length (foldl resolve_step st (take (Suc 0) (s # ss))) < 4" using 2(2) by simp
    then have "\<exists>k. length (foldl resolve_step st (take k (s # ss))) < 4" by blast
    with True show ?thesis by (simp del: resolve_step.simps)
  next
    case False
    then have four: "4 \<le> length (resolve_step st s)" using 2(2) by auto
    have "(\<exists>k. length (foldl resolve_step st (take k (s # ss))) < 4) \<longleftrightarrow>
        (\<exists>k. length (foldl resolve_step (resolve_step st s) (take k ss)) < 4)"
    proof
      assume "\<exists>k. length (foldl resolve_step st (take k (s # ss))) < 4"
      then obtain k where k: "length (foldl resolve_step st (take k (s # ss))) < 4" by blast
      with 2(2) obtain j where "k = Suc j" by (cases k) auto
      with k show "\<exists>k. length (foldl resolve_step (resolve_step st s) (take k ss)) < 4"
        by (auto simp del: resolve_step.simps)
    next
      assume "\<exists>k. length (foldl resolve_step (resolve_step st s) (take k ss)) < 4"
      then obtain k where "length (foldl resolve_step st (take (Suc k) (s # ss))) < 4"
        by (auto simp del: resolve_step.simps)
      then show "\<exists>k. length (foldl resolve_step st (take k (s # ss))) < 4" by blast
    qed
    with 2(1) [OF False _ four] False show ?thesis by (auto simp del: resolve_step.simps)
  qed
qed

lemma relative_capped_stays:
  "relative_capped st ss = Some r \<Longrightarrow> 4 \<le> length st \<Longrightarrow>
     \<not> (\<exists>k. length (foldl resolve_step st (take k ss)) < 4)"
  using relative_capped_None_iff [of st ss] by simp

text \<open>Where the record of a directory starts.\<close>

definition record_base :: "rps_gpu_fd_record \<Rightarrow> string" where
  "record_base r = (if fr_kind r = RPS_GPU_FD_PROC_GPUS_DIR then gpus_base else bus_dir (fr_bus_id r))"

text \<open>A relative path leaves the GPU directory on its way.\<close>

definition leaves_gpu_dir :: "string \<Rightarrow> string \<Rightarrow> bool" where
  "leaves_gpu_dir base path \<longleftrightarrow>
     list_ex (\<lambda>k. length (foldl resolve_step (path_segments base) (take k (path_segments path))) < 4)
       [0..<Suc (length (path_segments path))]"

lemma leaves_gpu_dir_eq:
  "leaves_gpu_dir base path \<longleftrightarrow>
     (\<exists>k. length (foldl resolve_step (path_segments base) (take k (path_segments path))) < 4)"
proof -
  have "take k ss = take (min k (length ss)) ss" for k and ss :: "string list"
    by (simp add: min_def)
  moreover have "leaves_gpu_dir base path \<longleftrightarrow> (\<exists>k \<le> length (path_segments path).
      length (foldl resolve_step (path_segments base) (take k (path_segments path))) < 4)"
    by (auto simp only: leaves_gpu_dir_def list_ex_iff set_upt atLeastLessThan_iff le0 less_Suc_eq_le simp_thms)
  ultimately show ?thesis by (metis min.cobounded2)
qed

lemma resolve_relative_eq:
  assumes kind: "fr_kind r \<in> {RPS_GPU_FD_PROC_GPUS_DIR, RPS_GPU_FD_PROC_GPU_BUS_DIR}"
    and bus: "fr_kind r = RPS_GPU_FD_PROC_GPU_BUS_DIR \<longrightarrow> proper_segment (fr_bus_id r)"
    and n: "2 \<le> n"
  shows "gpu_resolve_relative_proc_path (Some r) (Some path) n =
           (if leaves_gpu_dir (record_base r) path then None
            else rps_gpu_proc_normalize_path (Some (record_base r @ SLASH # path)) n)"
    and "gpu_resolve_relative_proc_path (Some r) (Some path) n = Some q \<Longrightarrow>
           q = gpus_base \<or> (\<exists>rest. q = gpus_base @ SLASH # rest)"
proof -
  let ?segs = "if fr_kind r = RPS_GPU_FD_PROC_GPU_BUS_DIR then gpu_dir_segments @ [fr_bus_id r]
     else gpu_dir_segments"
  have four: "4 \<le> length ?segs" "take 4 ?segs = gpu_dir_segments" by simp_all
  have proper: "\<forall>s \<in> set ?segs. proper_segment s" using bus by (auto simp: proper_segment_def)
  have base: "record_base r = join_path ?segs"
    using kind by (auto simp: record_base_def join_path_def gpus_base_def)
  have start: "path_segments (record_base r) = ?segs" unfolding base by (rule path_segments_join [OF proper])
  have "path_segments (record_base r @ SLASH # path) = ?segs @ path_segments path"
    unfolding base by (rule path_segments_behind [OF proper]) simp
  then have capped: "resolve_capped [] (path_segments (record_base r @ SLASH # path)) =
      resolve_capped ?segs (path_segments path)"
    using resolve_capped_append [of "[]" ?segs "path_segments path"]
      resolve_capped_proper [OF proper, of "[]"] by simp
  have hd: "record_base r @ SLASH # path \<noteq> [] \<and> hd (record_base r @ SLASH # path) = SLASH"
    by (simp add: record_base_def gpus_base_def)
  have code: "gpu_resolve_relative_proc_path (Some r) (Some path) n =
      (case relative_capped ?segs (path_segments path) of None \<Rightarrow> None
       | Some segs \<Rightarrow> if length segs < 4 then None else fits n (join_path segs))"
    using kind bus n normalize_out_eq [of "[]" n]
    by (auto simp: gpu_resolve_relative_proc_path_def Let_def relative_loop_eq proper_segment_def
        join_path_def split: option.split)
  show "gpu_resolve_relative_proc_path (Some r) (Some path) n =
      (if leaves_gpu_dir (record_base r) path then None
       else rps_gpu_proc_normalize_path (Some (record_base r @ SLASH # path)) n)"
  proof (cases "relative_capped ?segs (path_segments path)")
    case None
    then have "resolve_capped ?segs (path_segments path) = None \<or> leaves_gpu_dir (record_base r) path"
      using relative_capped_None_iff [OF four(1), of "path_segments path"] unfolding leaves_gpu_dir_eq start by blast
    then show ?thesis unfolding code None using capped by (auto simp: normalize_path_eq)
  next
    case (Some segs)
    then have "\<not> leaves_gpu_dir (record_base r) path"
      unfolding leaves_gpu_dir_eq start using relative_capped_stays [OF _ four(1)] by blast
    then show ?thesis
      unfolding code normalize_path_eq capped using relative_capped_SomeD [OF Some four(1)] n hd Some by simp
  qed
  assume q: "gpu_resolve_relative_proc_path (Some r) (Some path) n = Some q"
  then obtain segs where segs: "relative_capped ?segs (path_segments path) = Some segs" "q = join_path segs"
    unfolding code by (auto split: option.splits if_splits)
  have "take 4 segs = gpu_dir_segments" using relative_capped_SomeD [OF segs(1) four(1)] four(2) by simp
  then have "segs = gpu_dir_segments @ drop 4 segs" using append_take_drop_id [of 4 segs] by simp
  then have "join_path segs = join_path (gpu_dir_segments @ drop 4 segs)" by simp
  also have "\<dots> = gpus_base @ concat (map (\<lambda>s. SLASH # s) (drop 4 segs))"
    by (simp add: join_path_def gpus_base_def)
  finally show "q = gpus_base \<or> (\<exists>rest. q = gpus_base @ SLASH # rest)"
    using segs(2) by (cases "drop 4 segs") auto
qed

text \<open>What classification recorded for a directory.\<close>

lemma classified_directory:
  assumes "rps_gpu_classify_path (Some p) = (True, r)"
    and "fr_kind r \<in> {RPS_GPU_FD_PROC_GPUS_DIR, RPS_GPU_FD_PROC_GPU_BUS_DIR}"
  shows "fr_path r = record_base r \<and>
    (fr_kind r = RPS_GPU_FD_PROC_GPU_BUS_DIR \<longrightarrow> proper_segment (fr_bus_id r))"
proof (cases p rule: classify_cases)
  case (dev name k)
  with assms show ?thesis by auto
next
  case other
  let ?r = "\<lparr>fr_kind = RPS_GPU_FD_OTHER, fr_device_minor = -1,
        fr_path = rps_gpu_copy_string RPS_GPU_PATH_MAX (Some p), fr_bus_id = []\<rparr>"
  have cl: "rps_gpu_classify_proc_gpu_path p ?r = (True, r)" using assms(1) other by simp
  obtain q where q: "rps_gpu_proc_normalize_path (Some p) RPS_GPU_PROC_PATH_MAX = Some q"
    using classify_proc_path [OF cl] by blast
  obtain ok b d i where e: "rps_gpu_extract_proc_bus_kind (Some p) [] RPS_GPU_PROC_BUS_ID_MAX = (ok, b, d, i)"
    by (cases "rps_gpu_extract_proc_bus_kind (Some p) [] RPS_GPU_PROC_BUS_ID_MAX")
  show ?thesis
  proof (cases "q = gpus_base")
    case True
    with cl q show ?thesis by (auto simp: classify_proc_eq record_base_def)
  next
    case False
    with cl q e have ok: "ok" "fr_bus_id r = b" "fr_path r = q"
      and kind: "fr_kind r = (if i then RPS_GPU_FD_PROC_GPU_INFO else RPS_GPU_FD_PROC_GPU_BUS_DIR)"
      by (auto simp: classify_proc_eq split: if_splits)
    with assms(2) have "\<not> i" by (auto split: if_splits)
    with e ok(1) have "rps_gpu_extract_proc_bus_kind (Some p) [] RPS_GPU_PROC_BUS_ID_MAX = (True, b, d, False)"
      by simp
    then have b: "SLASH \<notin> set b" "b \<noteq> []" and path: "q = bus_dir b"
      unfolding extract_kind_iff q by simp_all
    obtain segs where segs: "q = join_path segs" "\<forall>s \<in> set segs. proper_segment s"
      using normalize_path_SomeD [OF q] by blast
    have base: "\<forall>s \<in> set gpu_dir_segments. proper_segment s" by (simp add: proper_segment_def)
    have "path_segments q = gpu_dir_segments @ [b]"
      using path_segments_behind [OF base, of b] path_segments_append [OF b(2,1), of "[]"]
      by (simp add: path join_path_def gpus_base_def path_segments_def)
    then have "segs = gpu_dir_segments @ [b]" using segs path_segments_join by simp
    then have "proper_segment b" using segs(2) by simp
    with path kind ok(2,3) \<open>\<not> i\<close> show ?thesis by (simp add: record_base_def)
  qed
qed

lemma tracked_directory:
  assumes "shim_ok st" "map_of (sh_gpu_fds st) fd = Some r"
    and "fr_kind r \<in> {RPS_GPU_FD_PROC_GPUS_DIR, RPS_GPU_FD_PROC_GPU_BUS_DIR}"
  shows "fr_path r = record_base r"
    "fr_kind r = RPS_GPU_FD_PROC_GPU_BUS_DIR \<longrightarrow> proper_segment (fr_bus_id r)"
    "rps_gpu_fd_map_get fd (sh_gpu_fds st) = Some r"
proof -
  have "gpu_records_ok (sh_gpu_fds st)" "gpu_fds_ok (sh_gpu_fds st)"
    using assms(1) by (simp_all add: shim_ok_def static_ok_def)
  moreover have "r \<in> snd ` set (sh_gpu_fds st)"
    using imageI [OF map_of_SomeD [OF assms(2)], of snd] by simp
  ultimately obtain p where p: "rps_gpu_classify_path (Some p) = (True, r)"
    unfolding gpu_records_ok_def by blast
  from classified_directory [OF p assms(3)]
  show "fr_path r = record_base r"
    "fr_kind r = RPS_GPU_FD_PROC_GPU_BUS_DIR \<longrightarrow> proper_segment (fr_bus_id r)" by simp_all
  show "rps_gpu_fd_map_get fd (sh_gpu_fds st) = Some r"
    using assms(2) \<open>gpu_fds_ok (sh_gpu_fds st)\<close> by (simp add: tracker_get_eq)
qed

section \<open>Directory streams: lemmas\<close>

text \<open>Successive calls of \<open>nxt\<close> deliver the entries \<open>es\<close> and then NULL.\<close>

primrec yields ::
    "('w os \<Rightarrow> dirent option \<times> 'w os) \<Rightarrow> dirent list \<Rightarrow> 'w os \<Rightarrow> 'w os \<Rightarrow> bool" where
  "yields nxt [] os os' \<longleftrightarrow> nxt os = (None, os')"
| "yields nxt (e # es) os os' \<longleftrightarrow> (\<exists>os1. nxt os = (Some e, os1) \<and> yields nxt es os1 os')"

text \<open>The same of an interposed function \<open>h\<close>.\<close>

primrec hook_yields ::
    "('w shim \<Rightarrow> (dirent option \<times> 'w shim) option) \<Rightarrow> dirent list \<Rightarrow> 'w shim \<Rightarrow> 'w shim \<Rightarrow> bool" where
  "hook_yields h [] st st' \<longleftrightarrow> h st = Some (None, st')"
| "hook_yields h (e # es) st st' \<longleftrightarrow>
     (\<exists>st1. h st = Some (Some e, st1) \<and> hook_yields h es st1 st')"

text \<open>What the filter lets through of the stream on descriptor \<open>fd\<close>.\<close>

definition entry_visible :: "'w shim \<Rightarrow> int \<Rightarrow> string \<Rightarrow> bool" where
  "entry_visible st fd name \<longleftrightarrow>
     \<not> (sh_ready st \<and>
        (\<exists>r. rps_gpu_fd_map_get fd (sh_gpu_fds st) = Some r \<and> fr_kind r = RPS_GPU_FD_PROC_GPUS_DIR)) \<or>
     name \<in> {''.'', ''..''} \<union> gi_bus_id ` set (ga_gpus (sh_allowed st)) - {[]}"

lemma readdir_entry_ok:
  assumes "shim_ok st"
  shows "gpu_readdir_entry_allowed real fd (Some name) st = (entry_visible st fd name, st)"
proof -
  have "ga_valid (sh_allowed st)" if "sh_ready st"
    using assms that by (simp add: shim_ok_def static_ok_def)
  then show ?thesis
    using assms ready_video [OF assms]
    by (auto simp: readdir_entry_initialized shim_ok_static entry_visible_def contains_bus_iff
        split: option.split)
qed

lemma entry_visible_os [simp]: "entry_visible (st\<lparr>sh_os := os\<rparr>) fd name = entry_visible st fd name"
  by (simp add: entry_visible_def)

lemma readdir_visible:
  assumes "shim_ok st" "nxt (sh_os st) = (Some e, os1)" "re_dirfd real d os1 = fd"
    and "entry_visible st fd (de_name e)"
  shows "readdir_common real nxt d st = Some (Some e, st\<lparr>sh_os := os1\<rparr>)"
proof -
  have "shim_ok (st\<lparr>sh_os := os1\<rparr>)" using assms(1) by (simp add: shim_ok_def)
  with assms show ?thesis
    by (simp add: readdir_common_def call_real_def readdir_loop.simps readdir_entry_ok)
qed

lemma readdir_skip:
  assumes "shim_ok st" "nxt (sh_os st) = (Some e, os1)" "\<And>os. re_dirfd real d os = fd"
    and "\<not> entry_visible st fd (de_name e)"
  shows "readdir_common real nxt d st = readdir_common real nxt d (st\<lparr>sh_os := os1\<rparr>)"
proof -
  have "shim_ok (st\<lparr>sh_os := os1\<rparr>)" using assms(1) by (simp add: shim_ok_def)
  with assms show ?thesis
    by (simp add: readdir_common_def call_real_def readdir_loop.simps [of real nxt fd e]
        readdir_entry_ok case_prod_beta assms(3) split: option.split)
qed

lemma readdir_yields:
  assumes dirfd: "\<And>os. re_dirfd real d os = fd"
  shows "shim_ok st \<Longrightarrow> yields nxt es (sh_os st) os' \<Longrightarrow>
    hook_yields (readdir_common real nxt d) (filter (\<lambda>e. entry_visible st fd (de_name e)) es) st
      (st\<lparr>sh_os := os'\<rparr>)"
proof (induction es arbitrary: st)
  case Nil
  then show ?case by (simp add: readdir_common_def call_real_def)
next
  case (Cons e es)
  then obtain os1 where os1: "nxt (sh_os st) = (Some e, os1)" and rest: "yields nxt es os1 os'" by auto
  let ?st1 = "st\<lparr>sh_os := os1\<rparr>" and ?h = "readdir_common real nxt d"
  have "shim_ok ?st1" using Cons.prems(1) by (simp add: shim_ok_def)
  with Cons.IH [of ?st1] rest
  have IH: "hook_yields ?h (filter (\<lambda>e. entry_visible st fd (de_name e)) es) ?st1 (st\<lparr>sh_os := os'\<rparr>)"
    by simp
  show ?case
  proof (cases "entry_visible st fd (de_name e)")
    case True
    with readdir_visible [where nxt = nxt, OF Cons.prems(1) os1, of real d fd] dirfd IH show ?thesis by simp
  next
    case False
    have "?h st = ?h ?st1"
      using Cons.prems(1) os1 dirfd False by (intro readdir_skip [of st _ e os1 real d fd])
    then have "hook_yields ?h xs st st' = hook_yields ?h xs ?st1 st'" for xs st'
      by (cases xs) simp_all
    with IH False show ?thesis by simp
  qed
qed

section \<open>Descriptors: lemmas\<close>

lemma shim_ok_tables: "shim_ok st \<Longrightarrow> gpu_fds_ok (sh_gpu_fds st)" "shim_ok st \<Longrightarrow> fd_map_ok (sh_fd_map st)"
  by (simp_all add: shim_ok_def static_ok_def)

lemma copy_lookup:
  "gpu_fds_ok ns \<Longrightarrow> 0 \<le> old \<Longrightarrow> 0 \<le> new \<Longrightarrow>
     map_of (rps_gpu_fd_map_copy True old new ns) = (map_of ns)(new := map_of ns old)"
  by (simp add: tracker_copy_eq tracker_set_lookup tracker_remove_lookup split: option.split)

lemma effective_tracked:
  assumes "shim_ok st" "map_of (sh_gpu_fds st) dirfd = Some r"
    and "fr_kind r \<in> {RPS_GPU_FD_PROC_GPUS_DIR, RPS_GPU_FD_PROC_GPU_BUS_DIR}"
    and "take 1 path \<noteq> [SLASH]"
  shows "gpu_effective_openat_path (sh_gpu_fds st) dirfd (Some path) =
      (case gpu_resolve_relative_proc_path (Some r) (Some path) RPS_GPU_PATH_MAX of
         None \<Rightarrow> RPS_GPU_EFFECTIVE_DENY | Some q \<Rightarrow> RPS_GPU_EFFECTIVE_RESOLVED q)"
    "gpu_resolve_relative_proc_path (Some r) (Some path) RPS_GPU_PATH_MAX =
       (if leaves_gpu_dir (fr_path r) path then None
        else rps_gpu_proc_normalize_path (Some (fr_path r @ SLASH # path)) RPS_GPU_PATH_MAX)"
    "gpu_resolve_relative_proc_path (Some r) (Some path) RPS_GPU_PATH_MAX = Some q \<Longrightarrow>
       q = gpus_base \<or> (\<exists>rest. q = gpus_base @ SLASH # rest)"
proof -
  note dir = tracked_directory [OF assms(1-3)]
  show "gpu_effective_openat_path (sh_gpu_fds st) dirfd (Some path) =
      (case gpu_resolve_relative_proc_path (Some r) (Some path) RPS_GPU_PATH_MAX of
         None \<Rightarrow> RPS_GPU_EFFECTIVE_DENY | Some q \<Rightarrow> RPS_GPU_EFFECTIVE_RESOLVED q)"
    using assms(3,4) dir(3) by (auto simp: gpu_effective_openat_path_def path_is_relative_def)
  show "gpu_resolve_relative_proc_path (Some r) (Some path) RPS_GPU_PATH_MAX =
       (if leaves_gpu_dir (fr_path r) path then None
        else rps_gpu_proc_normalize_path (Some (fr_path r @ SLASH # path)) RPS_GPU_PATH_MAX)"
    using resolve_relative_eq(1) [OF assms(3) dir(2)] dir(1) by simp
  show "gpu_resolve_relative_proc_path (Some r) (Some path) RPS_GPU_PATH_MAX = Some q \<Longrightarrow>
       q = gpus_base \<or> (\<exists>rest. q = gpus_base @ SLASH # rest)"
    by (rule resolve_relative_eq(2) [OF assms(3) dir(2)]) simp_all
qed

lemma path_allowed_normalized:
  assumes "rps_gpu_proc_normalize_path (Some p) RPS_GPU_PROC_PATH_MAX = Some q"
  shows "rps_gpu_proc_path_allowed a (Some q) = rps_gpu_proc_path_allowed a (Some p)"
  unfolding path_allowed_eq path_names_bus_def assms normalize_stable [OF assms] by (rule refl)

lemma denied_calls:
  assumes "shim_ok st" "sh_ready st"
    and "rps_gpu_proc_path_allowed (Some (sh_allowed st)) (Some p) = RPS_GPU_PROC_DENY"
  shows "hook_open real b (Some p) flags va_mode st = (-1, set_errno ENOENT st) \<and>
    hook_openat real b dirfd (Some p) flags va_mode st = (-1, set_errno ENOENT st) \<and>
    hook_stat real (Some p) st = (-1, set_errno ENOENT st) \<and>
    fstatat_common real dirfd (Some p) at_flags st = (-1, set_errno ENOENT st) \<and>
    opendir_common real (Some p) b st = (None, set_errno ENOENT st)"
  using denied_when_ready [OF assms, of real]
    effective_absolute [OF denied_path_absolute [OF assms(3)]]
  by (simp add: hook_open_def hook_openat_def open_common_def openat_common_eq hook_stat_def
      fstatat_common_def opendir_common_eq gpu_open_denied_path_def)

section \<open>Properties\<close>

text \<open>
  C3. A GPU the container does not have is refused by path: once the filter is ready, \<open>open\<close>,
  \<open>open64\<close>, \<open>openat\<close>, \<open>openat64\<close>, \<open>stat\<close>, \<open>fstatat\<close>, \<open>newfstatat\<close>, \<open>opendir\<close> and
  \<open>opendir64\<close> on any spelling of its path fail with \<open>ENOENT\<close>, without a call of libc: nothing but
  \<open>errno\<close> changes.
\<close>

theorem denied_gpu_is_absent:
  assumes "reachable ulong_max long_max real st" "sh_ready st"
    and "rps_gpu_proc_path_allowed (Some (sh_allowed st)) (Some p) = RPS_GPU_PROC_DENY"
  shows "hook_open real b (Some p) flags va_mode st = (-1, set_errno ENOENT st) \<and>
    hook_openat real b dirfd (Some p) flags va_mode st = (-1, set_errno ENOENT st) \<and>
    hook_stat real (Some p) st = (-1, set_errno ENOENT st) \<and>
    fstatat_common real dirfd (Some p) at_flags st = (-1, set_errno ENOENT st) \<and>
    opendir_common real (Some p) b st = (None, set_errno ENOENT st)"
  using reachable_ok [OF assms(1)] assms(2,3) by (rule denied_calls)

theorem denied_gpu_is_absent_witness:
  "hook_open demo_real False (Some ''/proc/driver/../driver/nvidia/gpus/0000:02:00.0/information'') 0 0 demo_start =
     (-1, set_errno ENOENT demo_start)"
proof -
  have "rps_gpu_proc_path_allowed (Some mounted_gpu)
      (Some ''/proc/driver/../driver/nvidia/gpus/0000:02:00.0/information'') = RPS_GPU_PROC_DENY" by code_simp
  then show ?thesis
    using denied_gpu_is_absent [OF demo_start_ok(2)] by (simp add: demo_start_eq)
qed

text \<open>
  C23. A relative path on a descriptor of the GPU directory or of a GPU's directory is
  resolved as the path it stands for: the name behind the directory's own, normalised as an
  absolute path would be. It is refused exactly when that name is too long or too deep to
  normalise, or when the path climbs out of the GPU directory on its way (even if it comes
  back); whatever is resolved lies in the GPU directory.
\<close>

theorem relative_paths_resolved:
  assumes "reachable ulong_max long_max real st"
    and "map_of (sh_gpu_fds st) dirfd = Some r"
    and "fr_kind r \<in> {RPS_GPU_FD_PROC_GPUS_DIR, RPS_GPU_FD_PROC_GPU_BUS_DIR}"
    and "take 1 path \<noteq> [SLASH]"
  shows "gpu_effective_openat_path (sh_gpu_fds st) dirfd (Some path) =
      (if leaves_gpu_dir (fr_path r) path then RPS_GPU_EFFECTIVE_DENY
       else case rps_gpu_proc_normalize_path (Some (fr_path r @ SLASH # path)) RPS_GPU_PATH_MAX of
              None \<Rightarrow> RPS_GPU_EFFECTIVE_DENY
            | Some q \<Rightarrow> RPS_GPU_EFFECTIVE_RESOLVED q) \<and>
    (gpu_effective_openat_path (sh_gpu_fds st) dirfd (Some path) = RPS_GPU_EFFECTIVE_RESOLVED q \<longrightarrow>
      q = gpus_base \<or> (\<exists>rest. q = gpus_base @ SLASH # rest))"
  using effective_tracked [OF reachable_ok [OF assms(1)] assms(2-4)]
  by (auto split: option.split if_split)

definition demo_dir :: "demo_world shim" where
  "demo_dir = snd (hook_open demo_real False (Some gpus_base) 0 0 demo_start)"

lemma demo_dir_reachable: "reachable ul l demo_real demo_dir"
  unfolding demo_dir_def by (rule step [OF demo_start_ok(2) call_open])

lemma demo_dir_fields [simp]: "sh_ready demo_dir" "sh_allowed demo_dir = mounted_gpu"
proof -
  have "shim_step 0 0 demo_real demo_start demo_dir" unfolding demo_dir_def by (rule call_open)
  from shim_step_setup [OF this demo_start_ok(1)] show "sh_ready demo_dir" "sh_allowed demo_dir = mounted_gpu"
    by (simp_all add: same_setup_def demo_start_eq)
qed

lemma demo_dir_lookup:
  "map_of (sh_gpu_fds demo_dir) 5 = Some (snd (rps_gpu_classify_path (Some gpus_base)))"
  unfolding demo_dir_def by (rule demo_dir_tracked)

theorem relative_paths_resolved_witness:
  "gpu_effective_openat_path (sh_gpu_fds demo_dir) 5 (Some ''0000:01:00.0/./../0000:02:00.0'') =
     RPS_GPU_EFFECTIVE_RESOLVED (bus_dir ''0000:02:00.0'') \<and>
   gpu_effective_openat_path (sh_gpu_fds demo_dir) 5 (Some ''../gpus/0000:01:00.0'') = RPS_GPU_EFFECTIVE_DENY"
proof -
  let ?r = "snd (rps_gpu_classify_path (Some gpus_base))"
  have r: "fr_kind ?r \<in> {RPS_GPU_FD_PROC_GPUS_DIR, RPS_GPU_FD_PROC_GPU_BUS_DIR}" "fr_path ?r = gpus_base"
    by (simp_all add: classify_gpus_base)
  note eq = relative_paths_resolved [OF demo_dir_reachable demo_dir_lookup r(1), unfolded r(2), THEN conjunct1]
  have "\<not> leaves_gpu_dir gpus_base ''0000:01:00.0/./../0000:02:00.0''"
    "leaves_gpu_dir gpus_base ''../gpus/0000:01:00.0''" by code_simp+
  moreover have "rps_gpu_proc_normalize_path
      (Some (gpus_base @ SLASH # ''0000:01:00.0/./../0000:02:00.0'')) RPS_GPU_PATH_MAX =
      Some (bus_dir ''0000:02:00.0'')" by code_simp
  ultimately show ?thesis by (simp add: eq)
qed

text \<open>
  C4. No way around through a directory descriptor: when the path a relative path stands
  for is denied, \<open>openat\<close>, \<open>openat64\<close> and the \<open>fstatat\<close> functions on a tracked directory
  descriptor fail with \<open>ENOENT\<close> as well, without a call of libc.
\<close>

theorem relative_paths_denied:
  assumes "reachable ulong_max long_max real st" "sh_ready st"
    and "map_of (sh_gpu_fds st) dirfd = Some r"
    and "fr_kind r \<in> {RPS_GPU_FD_PROC_GPUS_DIR, RPS_GPU_FD_PROC_GPU_BUS_DIR}"
    and "take 1 path \<noteq> [SLASH]"
    and "rps_gpu_proc_path_allowed (Some (sh_allowed st)) (Some (fr_path r @ SLASH # path)) = RPS_GPU_PROC_DENY"
  shows "hook_openat real b dirfd (Some path) flags va_mode st = (-1, set_errno ENOENT st) \<and>
    fstatat_common real dirfd (Some path) at_flags st = (-1, set_errno ENOENT st)"
proof -
  note ok = reachable_ok [OF assms(1)]
  consider "gpu_effective_openat_path (sh_gpu_fds st) dirfd (Some path) = RPS_GPU_EFFECTIVE_DENY"
    | q where "gpu_effective_openat_path (sh_gpu_fds st) dirfd (Some path) = RPS_GPU_EFFECTIVE_RESOLVED q"
        "rps_gpu_proc_normalize_path (Some (fr_path r @ SLASH # path)) RPS_GPU_PATH_MAX = Some q"
    using effective_tracked(1,2) [OF ok assms(3-5)] by (auto split: if_splits option.splits)
  then show ?thesis
  proof cases
    case 1
    then show ?thesis by (simp add: hook_openat_def openat_common_eq fstatat_common_def)
  next
    case (2 q)
    have "rps_gpu_proc_path_allowed (Some (sh_allowed st)) (Some q) = RPS_GPU_PROC_DENY"
      using assms(6) path_allowed_normalized [OF 2(2)] by simp
    from denied_when_ready [OF ok assms(2) this, of real] 2(1) show ?thesis
      by (simp add: hook_openat_def openat_common_eq fstatat_common_def gpu_open_denied_path_def)
  qed
qed

theorem relative_paths_denied_witness:
  "hook_openat demo_real True 5 (Some ''0000:01:00.0/../0000:02:00.0'') 0 0 demo_dir =
     (-1, set_errno ENOENT demo_dir)"
proof -
  let ?r = "snd (rps_gpu_classify_path (Some gpus_base))"
  have r: "fr_kind ?r \<in> {RPS_GPU_FD_PROC_GPUS_DIR, RPS_GPU_FD_PROC_GPU_BUS_DIR}" "fr_path ?r = gpus_base"
    by (simp_all add: classify_gpus_base)
  have "rps_gpu_proc_path_allowed (Some mounted_gpu)
      (Some (gpus_base @ SLASH # ''0000:01:00.0/../0000:02:00.0'')) = RPS_GPU_PROC_DENY" by code_simp
  then show ?thesis
    using relative_paths_denied [OF demo_dir_reachable _ demo_dir_lookup r(1), of "''0000:01:00.0/../0000:02:00.0''"]
    by (simp add: r(2))
qed

text \<open>
  C7. Listing the GPU directory shows exactly what may be opened: while the stream's
  descriptor stays the same, the entries \<open>readdir\<close> (or \<open>readdir64\<close>) delivers until NULL are the
  ones libc delivers, in order and unchanged, less those the filter hides; and on a tracked
  GPU directory an entry is hidden exactly when the GPU's own path is denied.
\<close>

theorem readdir_lists_allowed:
  assumes "reachable ulong_max long_max real st"
    and "nxt = re_readdir real d \<and> h = hook_readdir real d \<or>
      (\<exists>f. re_readdir64 real = Some f \<and> nxt = f d \<and> h = hook_readdir64 real d)"
    and "\<forall>os. re_dirfd real d os = fd"
    and "yields nxt es (sh_os st) os'"
  shows "hook_yields h (filter (\<lambda>e. entry_visible st fd (de_name e)) es) st (st\<lparr>sh_os := os'\<rparr>) \<and>
    (sh_ready st \<and> map_of (sh_gpu_fds st) fd = Some r \<and> fr_kind r = RPS_GPU_FD_PROC_GPUS_DIR \<and>
       proper_segment name \<and> length name < RPS_GPU_PROC_BUS_ID_MAX \<longrightarrow>
     (entry_visible st fd name \<longleftrightarrow>
        rps_gpu_proc_path_allowed (Some (sh_allowed st)) (Some (bus_dir name)) \<noteq> RPS_GPU_PROC_DENY))"
proof -
  note ok = reachable_ok [OF assms(1)]
  have "h = readdir_common real nxt d"
    using assms(2)
    by (elim disjE exE conjE) (simp_all add: hook_readdir_def [abs_def] hook_readdir64_def [abs_def])
  with readdir_yields [OF _ ok assms(4), of real d fd] assms(3)
  have yields: "hook_yields h (filter (\<lambda>e. entry_visible st fd (de_name e)) es) st (st\<lparr>sh_os := os'\<rparr>)" by simp
  have "ga_valid (sh_allowed st)" if "sh_ready st" using ok that by (simp add: shim_ok_def static_ok_def)
  moreover have "rps_gpu_fd_map_get fd (sh_gpu_fds st) = Some r" if "map_of (sh_gpu_fds st) fd = Some r"
    using that by (simp add: tracker_get_eq shim_ok_tables(1) [OF ok])
  ultimately have "entry_visible st fd name \<longleftrightarrow>
      rps_gpu_proc_path_allowed (Some (sh_allowed st)) (Some (bus_dir name)) \<noteq> RPS_GPU_PROC_DENY"
    if "sh_ready st" "map_of (sh_gpu_fds st) fd = Some r" "fr_kind r = RPS_GPU_FD_PROC_GPUS_DIR"
      "proper_segment name" "length name < RPS_GPU_PROC_BUS_ID_MAX"
    using that by (auto simp: entry_visible_def path_denied_iff path_names_bus_dir proper_segment_def)
  with yields show ?thesis by blast
qed

definition demo_stream :: "demo_world shim" where
  "demo_stream = snd (opendir_common demo_real (Some gpus_base) False demo_start)"

lemma demo_calls:
  "re_opendir demo_real = (\<lambda>_ os. (Some 3, os))" "re_dirfd demo_real = (\<lambda>_ _. 7)"
  "re_malloc_ok demo_real = (\<lambda>_ _. True)" "re_readdir demo_real = (\<lambda>_. next_entry)"
  by (simp_all add: demo_real_def)

lemma demo_stream_eq:
  "demo_stream = demo_start\<lparr>sh_gpu_fds := [(7, snd (rps_gpu_classify_path (Some gpus_base)))]\<rparr>"
proof -
  have "rps_gpu_proc_path_allowed (Some mounted_gpu) (Some gpus_base) \<noteq> RPS_GPU_PROC_DENY" by code_simp
  then show ?thesis
    by (simp add: demo_stream_def opendir_common_eq denied_initialized demo_start_eq case_prod_beta
        demo_calls track_open_initialized classify_gpus_base call_real_def Let_def rps_gpu_fd_map_set_def)
qed

theorem readdir_lists_allowed_witness:
  "\<exists>st'. hook_yields (hook_readdir demo_real 3)
     [\<lparr>de_ino = 1, de_name = ''.''\<rparr>, \<lparr>de_ino = 3, de_name = ''0000:01:00.0''\<rparr>] demo_stream st'"
proof -
  have reach: "reachable 0 0 demo_real demo_stream"
    unfolding demo_stream_def by (rule step [OF demo_start_ok(2) call_opendir])
  have world: "dw_entries (os_world (sh_os demo_stream)) = 0" by (simp add: demo_stream_eq demo_start_eq demo_os_def)
  have nxt: "re_readdir demo_real 3 = next_entry" and fd: "\<forall>os. re_dirfd demo_real 3 os = 7"
    by (simp_all add: demo_calls)
  let ?os = "(sh_os demo_stream)\<lparr>os_world := (os_world (sh_os demo_stream))\<lparr>dw_entries := 3\<rparr>\<rparr>"
  have stream: "yields next_entry gpu_dir_entries (sh_os demo_stream) ?os"
    using world by (simp add: gpu_dir_entries_def next_entry_def)
  have get: "rps_gpu_fd_map_get 7 (sh_gpu_fds demo_stream) =
      Some (snd (rps_gpu_classify_path (Some gpus_base)))"
    by (simp add: demo_stream_eq rps_gpu_fd_map_get_def)
  have "sh_ready demo_stream" "sh_allowed demo_stream = mounted_gpu"
    by (simp_all add: demo_stream_eq demo_start_eq)
  then have visible: "filter (\<lambda>e. entry_visible demo_stream 7 (de_name e)) gpu_dir_entries =
      [\<lparr>de_ino = 1, de_name = ''.''\<rparr>, \<lparr>de_ino = 3, de_name = ''0000:01:00.0''\<rparr>]"
    by (simp add: entry_visible_def get classify_gpus_base gpu_dir_entries_def mounted_gpu_def)
  have "hook_yields (hook_readdir demo_real 3)
      (filter (\<lambda>e. entry_visible demo_stream 7 (de_name e)) gpu_dir_entries) demo_stream
      (demo_stream\<lparr>sh_os := ?os\<rparr>)"
    by (rule readdir_lists_allowed [OF reach _ fd stream, THEN conjunct1]) (simp add: nxt)
  then show ?thesis unfolding visible by blast
qed

text \<open>
  C22. The tracker follows a descriptor's life: \<open>close\<close> forgets the descriptor in both tables
  and no other; a descriptor made by \<open>dup\<close>, \<open>dup2\<close>, \<open>dup3\<close> or \<open>fcntl\<close> with a duplicating
  command is tracked as the one it duplicates, or not at all when that one is not; \<open>dup2\<close>
  and \<open>dup3\<close> take away the virtual content of the descriptor they replace; any other \<open>fcntl\<close>
  leaves both tables alone. (Locks and allocations succeed.)
\<close>

theorem descriptors_followed:
  assumes "reachable ulong_max long_max real st"
    and "\<forall>l w. re_lock_ok real l w" and "\<forall>m w. re_malloc_ok real m w" and "0 \<le> oldfd" and "0 \<le> newfd"
  shows "(let st' = snd (hook_close real fd st) in
      map_of (sh_gpu_fds st') = (map_of (sh_gpu_fds st))(fd := None) \<and>
      fd_map_lookup (sh_fd_map st') = (fd_map_lookup (sh_fd_map st))(fd := None)) \<and>
    (hook_dup real oldfd st = (rc, st1) \<and> 0 \<le> rc \<longrightarrow>
      map_of (sh_gpu_fds st1) = (map_of (sh_gpu_fds st))(rc := map_of (sh_gpu_fds st) oldfd)) \<and>
    ((hook_dup2 real oldfd newfd st = (rc, st1) \<and> oldfd \<noteq> newfd \<or>
      hook_dup3 real oldfd newfd flags st = (rc, st1)) \<and> 0 \<le> rc \<longrightarrow>
      map_of (sh_gpu_fds st1) = (map_of (sh_gpu_fds st))(newfd := map_of (sh_gpu_fds st) oldfd) \<and>
      fd_map_lookup (sh_fd_map st1) = (fd_map_lookup (sh_fd_map st))(newfd := None)) \<and>
    (hook_fcntl real oldfd cmd va st = (rc, st1) \<and> 0 \<le> rc \<longrightarrow>
      map_of (sh_gpu_fds st1) =
        (if cmd \<in> {F_DUPFD, F_DUPFD_CLOEXEC} then (map_of (sh_gpu_fds st))(rc := map_of (sh_gpu_fds st) oldfd)
         else map_of (sh_gpu_fds st)) \<and>
      sh_fd_map st1 = sh_fd_map st)"
proof -
  note tables = shim_ok_tables [OF reachable_ok [OF assms(1)]]
  have removed: "fd_map_lookup (rps_fd_map_remove True fd (sh_fd_map st)) =
      (fd_map_lookup (sh_fd_map st))(fd := None)" for fd
    by (rule fm.lookup_remove [OF tables(2)])
  have copied: "0 \<le> new \<Longrightarrow> map_of (rps_gpu_fd_map_copy True oldfd new (sh_gpu_fds st)) =
      (map_of (sh_gpu_fds st))(new := map_of (sh_gpu_fds st) oldfd)" for new
    by (rule copy_lookup [OF tables(1) assms(4)])
  have close: "let st' = snd (hook_close real fd st) in
      map_of (sh_gpu_fds st') = (map_of (sh_gpu_fds st))(fd := None) \<and>
      fd_map_lookup (sh_fd_map st') = (fd_map_lookup (sh_fd_map st))(fd := None)"
    using removed gt.lookup_remove [OF tables(1), of fd] assms(2)
    by (simp add: hook_close_def Let_def forget_virtual_def)
  have dup: "hook_dup real oldfd st = (rc, st1) \<and> 0 \<le> rc \<longrightarrow>
      map_of (sh_gpu_fds st1) = (map_of (sh_gpu_fds st))(rc := map_of (sh_gpu_fds st) oldfd)"
    using copied assms(3) by (auto simp: hook_dup_def case_prod_beta copy_tracked_def)
  have dup23: "(hook_dup2 real oldfd newfd st = (rc, st1) \<and> oldfd \<noteq> newfd \<or>
      hook_dup3 real oldfd newfd flags st = (rc, st1)) \<and> 0 \<le> rc \<longrightarrow>
      map_of (sh_gpu_fds st1) = (map_of (sh_gpu_fds st))(newfd := map_of (sh_gpu_fds st) oldfd) \<and>
      fd_map_lookup (sh_fd_map st1) = (fd_map_lookup (sh_fd_map st))(newfd := None)"
    using copied [OF assms(5)] removed [of newfd] assms(2,3)
    by (auto simp: hook_dup2_def hook_dup3_def case_prod_beta copy_tracked_def forget_virtual_def)
  have "hook_fcntl real oldfd cmd va st = (rc, st1) \<and> 0 \<le> rc \<longrightarrow>
      map_of (sh_gpu_fds st1) =
        (if cmd \<in> {F_DUPFD, F_DUPFD_CLOEXEC} then (map_of (sh_gpu_fds st))(rc := map_of (sh_gpu_fds st) oldfd)
         else map_of (sh_gpu_fds st)) \<and> sh_fd_map st1 = sh_fd_map st"
    using copied assms(3)
    by (auto simp: hook_fcntl_def case_prod_beta Let_def copy_tracked_def fcntl_duplicates_fd_def)
  with close dup dup23 show ?thesis by blast
qed

theorem descriptors_followed_witness:
  "map_of (sh_gpu_fds (snd (hook_dup demo_real 5 demo_dir))) 6 =
     Some (snd (rps_gpu_classify_path (Some gpus_base))) \<and>
   map_of (sh_gpu_fds (snd (hook_close demo_real 5 demo_dir))) 5 = None"
proof -
  have all: "\<forall>l w. re_lock_ok demo_real l w" "\<forall>m w. re_malloc_ok demo_real m w" by (simp_all add: demo_real_def)
  obtain st' where dup: "hook_dup demo_real 5 demo_dir = (6, st')"
    by (auto simp: hook_dup_def case_prod_beta demo_real_def)
  show ?thesis
    using descriptors_followed [OF demo_dir_reachable all, of 5 5 5 6 st'] dup demo_dir_lookup
    by (simp add: Let_def)
qed

text \<open>What the process gets, and what happens below, is what one call of the layer below gives.\<close>

definition forwards :: "('w os \<Rightarrow> 'r \<times> 'w os) \<Rightarrow> 'r \<times> 'w shim \<Rightarrow> 'w shim \<Rightarrow> bool" where
  "forwards f res st \<longleftrightarrow> (fst res, sh_os (snd res)) = f (sh_os st)"

lemma effective_untracked:
  assumes "shim_ok st" and "path_is_absolute path \<or> (\<forall>r. map_of (sh_gpu_fds st) dirfd = Some r \<longrightarrow>
      fr_kind r \<notin> {RPS_GPU_FD_PROC_GPUS_DIR, RPS_GPU_FD_PROC_GPU_BUS_DIR})"
  shows "gpu_effective_openat_path (sh_gpu_fds st) dirfd path = RPS_GPU_EFFECTIVE_PASSTHROUGH path"
  using assms(2)
  by (auto simp: gpu_effective_openat_path_def tracker_get_eq [OF shim_ok_tables(1) [OF assms(1)]]
      path_is_absolute_def path_is_relative_def split: option.splits)

lemma ioctl_without_topology:
  "fst (rps_gpu_ioctl_filter_after cfg None request arg result st) = fst st"
  by (cases st)
    (simp add: rps_gpu_ioctl_filter_after_def rps_gpu_filter_card_info_def rps_gpu_filter_rm_control_def
      rps_gpu_ioctl_filter_enabled_def Let_def)

text \<open>
  C21. Without a detected topology the GPU module changes nothing: while the filter is not
  ready, \<open>open\<close>, \<open>stat\<close>, \<open>opendir\<close>, \<open>readdir\<close>, \<open>getdents64\<close> and \<open>ioctl\<close>, and \<open>openat\<close> and
  \<open>fstatat\<close> outside tracked directory descriptors, are one call of libc's function with the
  caller's arguments, and give its result, its \<open>errno\<close> and its memory.
\<close>

theorem unready_filter_is_transparent:
  assumes "reachable ulong_max long_max real st" "\<not> sh_ready st"
    and "m = (if open_needs_mode flags then Some va_mode else None)"
    and "path_is_absolute path \<or> (\<forall>r. map_of (sh_gpu_fds st) dirfd = Some r \<longrightarrow>
      fr_kind r \<notin> {RPS_GPU_FD_PROC_GPUS_DIR, RPS_GPU_FD_PROC_GPU_BUS_DIR})"
  shows "forwards (re_open real path flags m) (hook_open real False path flags va_mode st) st \<and>
    forwards (re_open64 real path flags m) (hook_open real True path flags va_mode st) st \<and>
    forwards (re_openat real dirfd path flags m) (hook_openat real False dirfd path flags va_mode st) st \<and>
    forwards (re_stat real path) (hook_stat real path st) st \<and>
    forwards (re_newfstatat real dirfd path at_flags) (fstatat_common real dirfd path at_flags st) st \<and>
    forwards (re_opendir real path) (opendir_common real path False st) st \<and>
    (\<exists>res. hook_readdir real d st = Some res \<and> forwards (re_readdir real d) res st) \<and>
    forwards (re_getdents64 real fd n) (hook_getdents64 real fd n st) st \<and>
    forwards (re_ioctl real fd request (if ioctl_request_has_no_arg request then None else Some arg))
      (hook_ioctl real fd request arg st) st"
proof -
  note ok = reachable_ok [OF assms(1)]
  note init = shim_ok_static(3) [OF ok]
  note plain = not_denied_unready [OF ok assms(2)] effective_untracked [OF ok assms(4)]
  have opens: "forwards (re_open real path flags m) (hook_open real False path flags va_mode st) st"
    "forwards (re_open64 real path flags m) (hook_open real True path flags va_mode st) st"
    "forwards (re_openat real dirfd path flags m) (hook_openat real False dirfd path flags va_mode st) st"
    using ok
    by (simp_all add: forwards_def hook_open_def hook_openat_def open_common_def openat_common_eq plain
        assms(3) Let_def case_prod_beta init)
  have stats: "forwards (re_stat real path) (hook_stat real path st) st"
    "forwards (re_newfstatat real dirfd path at_flags) (fstatat_common real dirfd path at_flags st) st"
    by (simp_all add: forwards_def hook_stat_def fstatat_common_def plain Let_def case_prod_beta)
  have opendirs: "forwards (re_opendir real path) (opendir_common real path False st) st"
    by (cases "re_opendir real path (sh_os st)")
      (simp add: forwards_def opendir_common_eq plain Let_def case_prod_beta init split: option.split)
  obtain e os' where e: "re_readdir real d (sh_os st) = (e, os')" by fastforce
  have "shim_ok (st\<lparr>sh_os := os'\<rparr>)" using ok by (simp add: shim_ok_def)
  then have "hook_readdir real d st = Some (e, st\<lparr>sh_os := os'\<rparr>)"
    using e assms(2)
    by (simp add: hook_readdir_def readdir_common_def call_real_def readdir_loop.simps readdir_entry_ok
        entry_visible_def split: option.split)
  then have reads: "\<exists>res. hook_readdir real d st = Some res \<and> forwards (re_readdir real d) res st"
    using e by (simp add: forwards_def)
  have "forwards (re_getdents64 real fd n) (hook_getdents64 real fd n st) st"
    using assms(2) by (simp add: forwards_def hook_getdents64_def Let_def case_prod_beta init)
  moreover have "forwards (re_ioctl real fd request (if ioctl_request_has_no_arg request then None else Some arg))
      (hook_ioctl real fd request arg st) st"
    using assms(2) unfolding forwards_def
    by (cases "re_ioctl real fd request (if ioctl_request_has_no_arg request then None else Some arg) (sh_os st)")
      (simp add: hook_ioctl_def Let_def case_prod_beta init ioctl_without_topology)
  ultimately show ?thesis using opens stats opendirs reads by simp
qed

text \<open>The same system with no GPU device node: detection finds no GPU.\<close>

definition bare_real :: "demo_world real" where
  "bare_real = demo_real\<lparr>re_gpu_sys := (\<lambda>_. \<lparr>sys_dev = None, sys_gpus = None, sys_file = (\<lambda>_. None)\<rparr>)\<rparr>"

definition bare_start :: "demo_world shim" where
  "bare_start = runpod_shim_init bare_real (shim_zero demo_os)"

lemma bare_start_unready: "\<not> sh_ready bare_start"
  by code_simp

theorem unready_filter_is_transparent_witness:
  "forwards (re_open bare_real (Some (bus_dir ''0000:02:00.0'')) 0 None)
     (hook_open bare_real False (Some (bus_dir ''0000:02:00.0'')) 0 0 bare_start) bare_start"
proof -
  have reach: "reachable 0 0 bare_real bare_start" unfolding bare_start_def by (rule loaded)
  have "path_is_absolute (Some (bus_dir ''0000:02:00.0''))" by (simp add: path_is_absolute_def gpus_base_def)
  with unready_filter_is_transparent [OF reach bare_start_unready refl, of "Some (bus_dir ''0000:02:00.0'')" 0 0 0]
  show ?thesis by (simp add: open_needs_mode_def O_CREAT_def O_TMPFILE_def)
qed

text \<open>
  Relative paths on a tracked directory descriptor are resolved, and refused, even then: a
  path that climbs out of the GPU directory fails although no filter is ready.
\<close>

lemma unready_still_refuses:
  "\<not> sh_ready bare_start \<and>
   (let st = snd (hook_open bare_real False (Some gpus_base) 0 0 bare_start) in
    hook_openat bare_real False 5 (Some ''../version'') 0 0 st = (-1, set_errno ENOENT st))"
proof -
  let ?st = "snd (hook_open bare_real False (Some gpus_base) 0 0 bare_start)"
  have "gpu_effective_openat_path (sh_gpu_fds ?st) 5 (Some ''../version'') = RPS_GPU_EFFECTIVE_DENY"
    by code_simp
  then show ?thesis by (simp add: bare_start_unready Let_def hook_openat_def openat_common_eq)
qed

text \<open>
  \<open>fopen\<close> has no check of the path: the \<open>information\<close> file of a hidden GPU, which \<open>open\<close> refuses,
  is opened by libc.
\<close>

lemma fopen_not_filtered:
  assumes "cs_initialized (sh_config st)" "path \<noteq> Some ''/proc/meminfo''"
  shows "fopen_common real path mode b st = Some (real_fopen_common real path mode b st)"
  using assms by (intro fopen_common_forward) (simp_all add: should_virtualize_initialized)

lemma hidden_gpu_opened_by_fopen:
  "rps_gpu_proc_path_allowed (Some (sh_allowed demo_start)) (Some (bus_information ''0000:02:00.0'')) = RPS_GPU_PROC_DENY \<and>
   fst (hook_open demo_real False (Some (bus_information ''0000:02:00.0'')) 0 0 demo_start) = -1 \<and>
   fopen_common demo_real (Some (bus_information ''0000:02:00.0'')) (Some ''r'') False demo_start =
     Some (Some 1, demo_start)"
proof -
  let ?p = "bus_information ''0000:02:00.0''"
  have denied: "rps_gpu_proc_path_allowed (Some mounted_gpu) (Some ?p) = RPS_GPU_PROC_DENY" by code_simp
  have "sh_ready demo_start" "sh_allowed demo_start = mounted_gpu" by (simp_all add: demo_start_eq)
  then have "hook_open demo_real False (Some ?p) 0 0 demo_start = (-1, set_errno ENOENT demo_start)"
    using denied_calls [OF demo_start_ok(1), THEN conjunct1] denied by simp
  moreover have "Some ?p \<noteq> Some ''/proc/meminfo''" by (simp add: gpus_base_def)
  then have "fopen_common demo_real (Some ?p) (Some ''r'') False demo_start = Some (Some 1, demo_start)"
    by (subst fopen_not_filtered) (simp_all add: demo_start_eq real_fopen_common_def call_real_def demo_real_def)
  ultimately show ?thesis using denied by (simp add: demo_start_eq)
qed

end
