(* ===== verification/Preload_Visible.thy ===== *)
theory Preload_Visible imports Preload_Gpu
begin

text \<open>
  What the descriptors of the process refer to (\<open>src/preload.c\<close>, \<open>src/gpu/fd_tracker.c\<close>): the
  tracker records an open only behind the check of its path, and nothing but an open makes a
  record, so that no descriptor the shim knows ever refers to a hidden GPU. The lemmas follow
  the records through every hook; the property is an induction over the reachable states.
\<close>

section \<open>What is tracked may be seen: lemmas\<close>

definition gpu_record_visible :: "rps_gpu_allowed_gpus \<Rightarrow> rps_gpu_fd_record \<Rightarrow> bool" where
  "gpu_record_visible allowed r \<longleftrightarrow>
     (fr_kind r \<in> {RPS_GPU_FD_PROC_GPU_BUS_DIR, RPS_GPU_FD_PROC_GPU_INFO} \<longrightarrow>
        fr_bus_id r \<in> gi_bus_id ` set (ga_gpus allowed))"

definition tracked_visible :: "'w shim \<Rightarrow> bool" where
  "tracked_visible st \<longleftrightarrow>
     (sh_ready st \<longrightarrow> (\<forall>r \<in> snd ` set (sh_gpu_fds st). gpu_record_visible (sh_allowed st) r))"

lemma tracked_visible_subset:
  "tracked_visible st \<Longrightarrow> same_setup st st' \<Longrightarrow>
     \<forall>r \<in> snd ` set (sh_gpu_fds st'). r \<in> snd ` set (sh_gpu_fds st) \<or> \<not> sh_ready st \<or> gpu_record_visible (sh_allowed st) r \<Longrightarrow>
     tracked_visible st'"
  unfolding tracked_visible_def same_setup_def by metis

lemma not_denied_record:
  assumes "shim_ok st" "gpu_proc_denied real path st = (False, st)" "sh_ready st"
    and "rps_gpu_classify_path path = (True, r)"
  shows "gpu_record_visible (sh_allowed st) r"
proof (cases "fr_kind r \<in> {RPS_GPU_FD_PROC_GPU_BUS_DIR, RPS_GPU_FD_PROC_GPU_INFO}")
  case True
  obtain p where p: "path = Some p" using classified_path [OF assms(4)] by blast
  have "is_gpu_bus (rps_gpu_classify_path (Some p)) (fr_bus_id r)"
    using assms(4) True p by (auto simp: is_gpu_bus_def)
  then have bus: "path_names_bus p (fr_bus_id r)" by (simp add: classify_bus_iff)
  have "ga_valid (sh_allowed st)" using assms(1,3) by (simp add: shim_ok_def static_ok_def)
  moreover have "rps_gpu_proc_path_allowed (Some (sh_allowed st)) (Some p) \<noteq> RPS_GPU_PROC_DENY"
    using assms(2) denied_when_ready [OF assms(1,3), of p real] p by auto
  ultimately show ?thesis
    using bus by (auto simp: gpu_record_visible_def path_denied_iff)
qed (simp add: gpu_record_visible_def)

lemma track_open_records:
  assumes "cs_initialized (sh_config st)"
  shows "snd ` set (sh_gpu_fds (gpu_trace_and_track_open real path fd st)) \<subseteq>
    snd ` set (sh_gpu_fds st) \<union> {r. rps_gpu_classify_path path = (True, r)}"
proof -
  obtain c r where cl: "rps_gpu_classify_path path = (c, r)" by fastforce
  let ?new = "sh_gpu_fds (gpu_trace_and_track_open real path fd st)"
  have eq: "?new = (if cfg_gpu_video (config_of st) \<and> fd \<ge> 0
      then if c then rps_gpu_fd_map_set (re_malloc_ok real Tracker_node (the_world st)) fd (Some r) (sh_gpu_fds st)
           else rps_gpu_fd_map_remove fd (sh_gpu_fds st)
      else sh_gpu_fds st)"
    by (simp add: track_open_initialized [OF assms] cl)
  consider "?new = sh_gpu_fds st" | "?new = rps_gpu_fd_map_remove fd (sh_gpu_fds st)"
    | m where "c" "?new = rps_gpu_fd_map_set m fd (Some r) (sh_gpu_fds st)"
    using eq by metis
  then show ?thesis
  proof cases
    case 1
    then show ?thesis by (simp only: Un_upper1)
  next
    case 2
    with tracker_records(2) show ?thesis by (simp only: le_supI1)
  next
    case (3 m)
    have "insert r (snd ` set (sh_gpu_fds st)) \<subseteq> snd ` set (sh_gpu_fds st) \<union> {r. rps_gpu_classify_path path = (True, r)}"
      using cl \<open>c\<close> by simp
    with tracker_records(1) show ?thesis unfolding 3(2) by (rule order_trans)
  qed
qed

text \<open>What follows an open that was not denied keeps the tracked records visible.\<close>

lemma opened_visible:
  assumes "shim_ok st" "tracked_visible st" "gpu_proc_denied real path st = (False, st)"
    and "sh_gpu_fds st' = sh_gpu_fds st" "same_setup st st'"
  shows "tracked_visible (gpu_trace_and_track_open real path fd st')"
proof -
  have init: "cs_initialized (sh_config st')"
    using assms(5) shim_ok_static(3) [OF assms(1)] by (simp add: same_setup_def)
  then have "same_setup st (gpu_trace_and_track_open real path fd st')"
    using assms(5) by (simp add: same_setup_def)
  then show ?thesis
    using track_open_records [OF init, of real path fd] not_denied_record [OF assms(1,3)] assms(4)
    by (intro tracked_visible_subset [OF assms(2)]) auto
qed

lemma same_tracked_visible:
  "tracked_visible st \<Longrightarrow> same_setup st st' \<Longrightarrow>
     snd ` set (sh_gpu_fds st') \<subseteq> snd ` set (sh_gpu_fds st) \<Longrightarrow> tracked_visible st'"
  by (rule tracked_visible_subset) auto

lemma open_common_visible:
  assumes "shim_ok st" "tracked_visible st"
  shows "tracked_visible (snd (open_common real path flags mode has_mode b st))"
proof -
  note init = shim_ok_static(3) [OF assms(1)]
  obtain denied where d: "gpu_proc_denied real path st = (denied, st)"
    using denied_initialized [OF init] by blast
  have same: "same_setup st (maybe_attach_meminfo real fd path flags (snd (call_real f st)))"
    "sh_gpu_fds (maybe_attach_meminfo real fd path flags (snd (call_real f st))) = sh_gpu_fds st" for fd and f :: "'a os \<Rightarrow> int \<times> 'a os"
    using init by (simp_all add: same_setup_def)
  show ?thesis
  proof (cases denied)
    case True
    with assms(2) d show ?thesis
      by (simp add: open_common_def gpu_open_denied_path_def tracked_visible_def)
  next
    case False
    with d have d: "gpu_proc_denied real path st = (False, st)" by simp
    note opened = opened_visible [OF assms d same(2,1)]
    show ?thesis
      unfolding open_common_def d by (simp add: Let_def case_prod_beta opened del: maybe_attach_fields)
  qed
qed

lemma openat_common_visible:
  assumes "shim_ok st" "tracked_visible st"
  shows "tracked_visible (snd (openat_common real dirfd path flags mode has_mode b st))"
proof -
  note init = shim_ok_static(3) [OF assms(1)]
  have same: "same_setup st (snd (call_real f st))" "sh_gpu_fds (snd (call_real f st)) = sh_gpu_fds st"
    "same_setup st (maybe_attach_meminfo real fd path flags (snd (call_real f st)))"
    "sh_gpu_fds (maybe_attach_meminfo real fd path flags (snd (call_real f st))) = sh_gpu_fds st"
    for fd and f :: "'a os \<Rightarrow> int \<times> 'a os"
    using init by (simp_all add: same_setup_def)
  have forward: "tracked_visible (snd (let (denied, st) = gpu_proc_denied real effective st in
      if denied then gpu_open_denied_path st
      else let (fd, st) = call_real f st;
               st = (if dirfd = AT_FDCWD then maybe_attach_meminfo real fd path flags st else st);
               st = (if path_is_absolute effective \<or> dirfd = AT_FDCWD
                     then gpu_trace_and_track_open real effective fd st else st) in (fd, st)))"
    for effective and f :: "'a os \<Rightarrow> int \<times> 'a os"
  proof -
    obtain denied where d: "gpu_proc_denied real effective st = (denied, st)"
      using denied_initialized [OF init] by blast
    show ?thesis
    proof (cases denied)
      case True
      with assms(2) d show ?thesis by (simp add: gpu_open_denied_path_def tracked_visible_def)
    next
      case False
      with d have d: "gpu_proc_denied real effective st = (False, st)" by simp
      have kept: "tracked_visible st'" if "same_setup st st'" "sh_gpu_fds st' = sh_gpu_fds st" for st' :: "'a shim"
        using assms(2) that by (simp add: tracked_visible_def same_setup_def)
      show ?thesis
        unfolding d using opened_visible [OF assms d same(2,1)] opened_visible [OF assms d same(4,3)]
          kept [OF same(1,2)] kept [OF same(3,4)]
        by (simp add: Let_def case_prod_beta del: maybe_attach_fields call_real_fields)
    qed
  qed
  show ?thesis
    unfolding openat_common_eq Let_def [of "if has_mode then Some mode else None"]
    using forward assms(2)
    by (cases "gpu_effective_openat_path (sh_gpu_fds st) dirfd path")
      (simp_all add: Let_def tracked_visible_def)
qed

lemma opendir_common_visible:
  assumes "shim_ok st" "tracked_visible st"
  shows "tracked_visible (snd (opendir_common real path b st))"
proof -
  note init = shim_ok_static(3) [OF assms(1)]
  obtain denied where d: "gpu_proc_denied real path st = (denied, st)"
    using denied_initialized [OF init] by blast
  have same: "same_setup st (snd (call_real f st))" "sh_gpu_fds (snd (call_real f st)) = sh_gpu_fds st"
    for f :: "'a os \<Rightarrow> nat option \<times> 'a os" by (simp_all add: same_setup_def)
  have kept: "tracked_visible (snd (call_real f st))" for f :: "'a os \<Rightarrow> nat option \<times> 'a os"
    using assms(2) by (simp add: tracked_visible_def)
  show ?thesis
  proof (cases denied)
    case True
    with assms(2) d show ?thesis by (simp add: opendir_common_eq tracked_visible_def)
  next
    case False
    with d have d: "gpu_proc_denied real path st = (False, st)" by simp
    show ?thesis
      unfolding opendir_common_eq d
      using opened_visible [OF assms d same(2,1)] kept
      by (simp add: Let_def case_prod_beta del: call_real_fields split: option.split)
  qed
qed

lemma fopen_fds:
  assumes "shim_ok st" "fopen_common real path mode b st = Some r"
  shows "sh_gpu_fds (snd r) = sh_gpu_fds st"
proof -
  have init: "cs_initialized (sh_config st)" "sh_depth st = 0" using assms(1) by (simp_all add: shim_ok_def)
  let ?st1 = "snd (build_meminfo real (st\<lparr>sh_depth := 1\<rparr>))"
  have memfd: "sh_gpu_fds (snd p) = sh_gpu_fds st" "sh_depth (snd p) = 1" if "fopen_memfd real d ?st1 = Some p" for d p
    using same_staticsD(2,6) [OF fopen_memfd_statics [OF that]] by simp_all
  show ?thesis
    using assms(2) init memfd
    by (auto simp: fopen_common_def should_virtualize_initialized real_fopen_common_def
        bind_eq_Some_conv Let_def case_prod_beta split: if_splits option.splits)
qed

lemma shim_step_visible:
  assumes "shim_step ul l real st st'" "shim_ok st" "tracked_visible st"
  shows "tracked_visible st'"
proof -
  have kept_setup: "same_setup st st'" by (rule shim_step_setup [OF assms(1,2)])
  have sub: "tracked_visible st'" if "snd ` set (sh_gpu_fds st') \<subseteq> snd ` set (sh_gpu_fds st)"
    using same_tracked_visible [OF assms(3) kept_setup that] .
  note init = shim_ok_static(3) [OF assms(2)] and fds = shim_ok_tables(1) [OF assms(2)]
  note records = tracker_records(2) tracker_records(3) [OF fds]
  show ?thesis
    using assms(1)
  proof cases
    case (call_open b path flags va)
    then show ?thesis using open_common_visible [OF assms(2,3)] by (simp add: hook_open_def Let_def)
  next
    case (call_openat b dirfd path flags va)
    then show ?thesis using openat_common_visible [OF assms(2,3)] by (simp add: hook_openat_def Let_def)
  next
    case (call_opendir path b)
    then show ?thesis using opendir_common_visible [OF assms(2,3)] by simp
  next
    case (call_fopen path mode b r)
    then show ?thesis using fopen_fds [OF assms(2) call_fopen(2)] by (intro sub) simp
  next
    case (call_readdir d r')
    then have "same_statics st (snd r')"
      unfolding hook_readdir_def by (intro readdir_common_statics init)
    then show ?thesis using call_readdir by (intro sub) (simp add: same_staticsD)
  next
    case (call_readdir64 d r')
    then have "sh_gpu_fds (snd r') = sh_gpu_fds st"
      by (auto simp: hook_readdir64_def set_errno_def split: option.splits
          dest!: readdir_common_statics [OF _ init] same_staticsD(6))
    then show ?thesis using call_readdir64 by (intro sub) simp
  qed (insert init shim_ok_static(2) [OF assms(2)], (rule sub,
      simp add: hook_read_def hook_close_def hook_dup_def hook_dup2_def hook_dup3_def hook_fcntl_def
      hook_stat_def hook_fstat_def fstatat_common_def hook_fdopendir_def hook_closedir_def hook_getdents64_def
      hook_ioctl_def hook_sysinfo_def hook_sysconf_def copy_tracked_def denied_initialized Let_def case_prod_beta
      records split: option.split effective_path.split)+)
qed

lemma reachable_visible: "reachable ul l real st \<Longrightarrow> tracked_visible st"
proof (induction rule: reachable.induct)
  case (loaded os)
  then show ?case by (simp add: tracked_visible_def runpod_shim_init_def shim_zero_def get_config_def Let_def case_prod_beta)
next
  case (step st st')
  then show ?case by (blast intro: shim_step_visible reachable_ok)
qed

lemma demo_bus_tracked:
  "map_of (sh_gpu_fds (snd (hook_open demo_real False (Some (gpus_base @ ''/0000:01:00.0'')) 0 0 demo_start))) 5 =
     Some \<lparr>fr_kind = RPS_GPU_FD_PROC_GPU_BUS_DIR, fr_device_minor = -1,
       fr_path = gpus_base @ ''/0000:01:00.0'', fr_bus_id = ''0000:01:00.0''\<rparr>"
  by code_simp

section \<open>Properties\<close>

text \<open>
  C5. No descriptor the shim tracks ever refers to a hidden GPU: in every reachable state in
  which the filter is ready, a tracked directory of a GPU or file of one belongs to a GPU the
  list of allowed ones has, whatever was opened, duplicated, closed, or reused before.
\<close>

theorem hidden_gpu_never_tracked:
  assumes "reachable ulong_max long_max real st" and "sh_ready st"
    and "map_of (sh_gpu_fds st) fd = Some r"
    and "fr_kind r \<in> {RPS_GPU_FD_PROC_GPU_BUS_DIR, RPS_GPU_FD_PROC_GPU_INFO}"
  shows "fr_bus_id r \<in> gi_bus_id ` set (ga_gpus (sh_allowed st))"
  using reachable_visible [OF assms(1)] assms(2,4) imageI [OF map_of_SomeD [OF assms(3)], of snd]
  by (auto simp: tracked_visible_def gpu_record_visible_def)

theorem hidden_gpu_never_tracked_witness:
  "''0000:01:00.0'' \<in> gi_bus_id ` set (ga_gpus (sh_allowed
     (snd (hook_open demo_real False (Some (gpus_base @ ''/0000:01:00.0'')) 0 0 demo_start))))"
proof -
  let ?st = "snd (hook_open demo_real False (Some (gpus_base @ ''/0000:01:00.0'')) 0 0 demo_start)"
  have step: "shim_step 0 0 demo_real demo_start ?st" by (rule call_open)
  have "reachable 0 0 demo_real ?st" by (rule reachable.step [OF demo_start_ok(2) step])
  moreover have "sh_ready ?st"
    using shim_step_setup [OF step demo_start_ok(1)] by (simp add: same_setup_def demo_start_eq)
  ultimately show ?thesis
    using hidden_gpu_never_tracked [of 0 0 demo_real ?st, OF _ _ demo_bus_tracked] by simp
qed

end
