(* ===== verification/Preload_Programs.thy ===== *)
theory Preload_Programs imports Preload_Visible
begin

text \<open>
  The interposed functions (\<open>src/preload.c\<close>) as programs of atomic actions: one call of libc, one
  use of a table behind its mutex (\<open>core/fd_map.c\<close>, \<open>gpu/fd_tracker.c\<close>, \<open>gpu/ioctl_filter.c\<close>,
  \<open>memory/memory.c\<close>), or one reading or writing of files or of the caller's memory outside the
  mutexes. Every interposed function is a program here; run alone, each does what its hook does
  (\<open>programs_run_as_hooks\<close>). \<open>Preload_Threads\<close> interleaves them.
\<close>

section \<open>Calls as programs\<close>

datatype ret =
    Ret_int int
  | Ret_ptr "nat option"
  | Ret_entry "dirent option"
  | Ret_bytes int "string option"
  | Ret_sysinfo int sysinfo

text \<open>
  An action changes the state; what comes next depends on the state it found. Two calls may
  not return (\<open>write_all_fd\<close> after \<open>EINTR\<close>, \<open>readdir\<close> on hidden entries), so programs may be
  infinite.
\<close>

codatatype 'w prog =
    Return ret
  | Atomic "'w shim \<Rightarrow> 'w shim" "'w shim \<Rightarrow> 'w prog"

definition atomic :: "('w shim \<Rightarrow> 'a \<times> 'w shim) \<Rightarrow> ('a \<Rightarrow> 'w prog) \<Rightarrow> 'w prog" where
  "atomic f k = Atomic (\<lambda>st. snd (f st)) (\<lambda>st. k (fst (f st)))"

definition update :: "('w shim \<Rightarrow> 'w shim) \<Rightarrow> 'w prog \<Rightarrow> 'w prog" where
  "update f p = Atomic f (\<lambda>_. p)"

partial_function (option) run :: "'w prog \<Rightarrow> 'w shim \<Rightarrow> (ret \<times> 'w shim) option" where
  "run p st = (case p of Return r \<Rightarrow> Some (r, st) | Atomic f k \<Rightarrow> run (k st) (f st))"

text \<open>A call of libc that ends the function.\<close>

definition libc_int :: "('w os \<Rightarrow> int \<times> 'w os) \<Rightarrow> 'w prog" where
  "libc_int f = atomic (call_real f) (\<lambda>rc. Return (Ret_int rc))"

definition libc_ptr :: "('w os \<Rightarrow> nat option \<times> 'w os) \<Rightarrow> 'w prog" where
  "libc_ptr f = atomic (call_real f) (\<lambda>p. Return (Ret_ptr p))"

definition get_tracked :: "int \<Rightarrow> 'w shim \<Rightarrow> rps_gpu_fd_record option \<times> 'w shim" where
  "get_tracked fd st = (rps_gpu_fd_map_get fd (sh_gpu_fds st), st)"

definition untrack :: "int \<Rightarrow> 'w shim \<Rightarrow> 'w shim" where
  "untrack fd st = st\<lparr>sh_gpu_fds := rps_gpu_fd_map_remove fd (sh_gpu_fds st)\<rparr>"

definition attach :: "'w real \<Rightarrow> int \<Rightarrow> string \<Rightarrow> 'w shim \<Rightarrow> 'w shim" where
  "attach real fd meminfo st =
     st\<lparr>sh_fd_map := snd (rps_fd_map_put (re_malloc_ok real Fd_map_copy (the_world st))
          (re_lock_ok real Fd_map_lock (the_world st)) fd (Some meminfo) (length meminfo) (sh_fd_map st))\<rparr>"

text \<open>
  \<open>rps_proc_meminfo_build\<close> takes the snapshot under the lock of \<open>memory.c\<close> and reads the real
  file afterwards.
\<close>

definition read_meminfo :: "'w real \<Rightarrow> rps_memory_snapshot_t \<Rightarrow> 'w shim \<Rightarrow> string option" where
  "read_meminfo real s st =
     (case open_meminfo (re_env real (the_world st)) (re_fs real (the_world st)) of
        None \<Rightarrow> None
      | Some fp \<Rightarrow>
          (case meminfo_loop RPS_MEMINFO_BUFFER_SIZE (snap_total s div 1024) (snap_available s div 1024) []
             (fgets_all 1024 fp) of
             None \<Rightarrow> None
           | Some out \<Rightarrow> if st_err fp then None else Some out))"

definition build_prog :: "'w real \<Rightarrow> (string option \<Rightarrow> 'w prog) \<Rightarrow> 'w prog" where
  "build_prog real k = atomic (take_snapshot real) (\<lambda>s.
     case s of None \<Rightarrow> k None | Some s \<Rightarrow> atomic (\<lambda>st. (read_meminfo real s st, st)) k)"

definition attach_prog :: "'w real \<Rightarrow> int \<Rightarrow> string option \<Rightarrow> u32 \<Rightarrow> 'w prog \<Rightarrow> 'w prog" where
  "attach_prog real fd path flags next_action =
     (if fd < 0 then next_action
      else atomic (should_virtualize_meminfo real path flags) (\<lambda>yes.
        if \<not> yes then next_action
        else atomic enter_guard (\<lambda>entered.
          if \<not> entered then next_action
          else build_prog real (\<lambda>out.
            case out of
              None \<Rightarrow> update leave_guard next_action
            | Some meminfo \<Rightarrow> update (attach real fd meminfo) (update leave_guard next_action)))))"

definition open_prog :: "'w real \<Rightarrow> bool \<Rightarrow> string option \<Rightarrow> u32 \<Rightarrow> u32 \<Rightarrow> 'w prog" where
  "open_prog real use_open64 path flags va_mode =
     (let m = (if open_needs_mode flags then Some va_mode else None) in
      atomic (gpu_proc_denied real path) (\<lambda>denied.
        if denied then atomic gpu_open_denied_path (\<lambda>fd. Return (Ret_int fd))
        else atomic (call_real (if use_open64 then re_open64 real path flags m
                                else re_open real path flags m)) (\<lambda>fd.
          attach_prog real fd path flags
            (update (gpu_trace_and_track_open real path fd) (Return (Ret_int fd))))))"

definition openat_prog :: "'w real \<Rightarrow> bool \<Rightarrow> int \<Rightarrow> string option \<Rightarrow> u32 \<Rightarrow> u32 \<Rightarrow> 'w prog" where
  "openat_prog real use_open64 dirfd path flags va_mode =
     (let m = (if open_needs_mode flags then Some va_mode else None);
          forward = (\<lambda>effective.
            atomic (gpu_proc_denied real effective) (\<lambda>denied.
              if denied then atomic gpu_open_denied_path (\<lambda>fd. Return (Ret_int fd))
              else atomic (call_real (libc_openat real use_open64 dirfd path flags m)) (\<lambda>fd.
                let track = (if path_is_absolute effective \<or> dirfd = AT_FDCWD
                             then update (gpu_trace_and_track_open real effective fd) (Return (Ret_int fd))
                             else Return (Ret_int fd)) in
                if dirfd = AT_FDCWD then attach_prog real fd path flags track else track))) in
      atomic (\<lambda>st. (gpu_effective_openat_path (sh_gpu_fds st) dirfd path, st)) (\<lambda>e.
        case e of
          RPS_GPU_EFFECTIVE_DENY \<Rightarrow> update (set_errno ENOENT) (Return (Ret_int (-1)))
        | RPS_GPU_EFFECTIVE_PASSTHROUGH p \<Rightarrow> forward p
        | RPS_GPU_EFFECTIVE_RESOLVED q \<Rightarrow> forward (Some q)))"

definition opendir_prog :: "'w real \<Rightarrow> bool \<Rightarrow> string option \<Rightarrow> 'w prog" where
  "opendir_prog real use_opendir64 path =
     atomic (gpu_proc_denied real path) (\<lambda>denied.
       if denied then update (set_errno ENOENT) (Return (Ret_ptr None))
       else atomic (call_real (libc_opendir real use_opendir64 path)) (\<lambda>dir.
         case dir of
           None \<Rightarrow> Return (Ret_ptr None)
         | Some d \<Rightarrow> atomic (\<lambda>st. (re_dirfd real d (sh_os st), st)) (\<lambda>fd.
             update (gpu_trace_and_track_open real path fd) (Return (Ret_ptr (Some d))))))"

definition close_prog :: "'w real \<Rightarrow> int \<Rightarrow> 'w prog" where
  "close_prog real fd =
     update (forget_virtual real fd) (update (untrack fd)
       (atomic (call_real (re_close real fd)) (\<lambda>rc. Return (Ret_int rc))))"

definition closedir_prog :: "'w real \<Rightarrow> nat \<Rightarrow> 'w prog" where
  "closedir_prog real dirp =
     atomic (\<lambda>st. (re_dirfd real dirp (sh_os st), st)) (\<lambda>fd.
       atomic (call_real (re_closedir real dirp)) (\<lambda>rc.
         if rc = 0 \<and> fd \<ge> 0 then update (untrack fd) (Return (Ret_int rc))
         else Return (Ret_int rc)))"

definition dup_prog :: "'w real \<Rightarrow> int \<Rightarrow> 'w prog" where
  "dup_prog real oldfd =
     atomic (call_real (re_dup real oldfd)) (\<lambda>rc.
       if rc \<ge> 0 then update (copy_tracked real oldfd rc) (Return (Ret_int rc)) else Return (Ret_int rc))"

definition dup2_prog :: "'w real \<Rightarrow> int \<Rightarrow> int \<Rightarrow> 'w prog" where
  "dup2_prog real oldfd newfd =
     atomic (call_real (re_dup2 real oldfd newfd)) (\<lambda>rc.
       if rc \<ge> 0 \<and> oldfd \<noteq> newfd
       then update (forget_virtual real newfd) (update (copy_tracked real oldfd newfd) (Return (Ret_int rc)))
       else Return (Ret_int rc))"

definition dup3_prog :: "'w real \<Rightarrow> int \<Rightarrow> int \<Rightarrow> u32 \<Rightarrow> 'w prog" where
  "dup3_prog real oldfd newfd flags =
     atomic (call_real (re_dup3 real oldfd newfd flags)) (\<lambda>rc.
       if rc \<ge> 0
       then update (forget_virtual real newfd) (update (copy_tracked real oldfd newfd) (Return (Ret_int rc)))
       else Return (Ret_int rc))"

definition fcntl_prog :: "'w real \<Rightarrow> int \<Rightarrow> int \<Rightarrow> u64 \<Rightarrow> 'w prog" where
  "fcntl_prog real fd cmd va =
     (let arg = (case fcntl_arg_kind_of cmd of
                   RPS_FCNTL_ARG_INT \<Rightarrow> Fcntl_int (ucast va)
                 | RPS_FCNTL_ARG_PTR \<Rightarrow> Fcntl_ptr va
                 | RPS_FCNTL_ARG_NONE \<Rightarrow> Fcntl_none) in
      atomic (call_real (re_fcntl real fd cmd arg)) (\<lambda>rc.
        if rc \<ge> 0 \<and> fcntl_duplicates_fd cmd
        then update (copy_tracked real fd rc) (Return (Ret_int rc)) else Return (Ret_int rc)))"

text \<open>\<open>fopen\<close> and its loop over \<open>write\<close>; \<open>k\<close> is what follows.\<close>

primcorec write_all_prog :: "'w real \<Rightarrow> int \<Rightarrow> (bool \<Rightarrow> 'w prog) \<Rightarrow> string \<Rightarrow> 'w prog" where
  "write_all_prog real fd k buf =
     (if buf = [] then k True
      else Atomic (\<lambda>st. snd (call_real (re_write real fd buf) st))
        (\<lambda>st. let (out, st') = call_real (re_write real fd buf) st in
           if out < 0
           then if os_errno (sh_os st') = EINTR then write_all_prog real fd k buf else k False
           else if out = 0 then k False
           else write_all_prog real fd k (drop (nat out) buf)))"

definition memfd_prog :: "'w real \<Rightarrow> string \<Rightarrow> (nat option \<Rightarrow> 'w prog) \<Rightarrow> 'w prog" where
  "memfd_prog real meminfo k =
     atomic (call_real (re_memfd_create real)) (\<lambda>fd.
       if fd < 0 then k None
       else let fail = atomic (call_real (re_close real fd)) (\<lambda>_. k None) in
         write_all_prog real fd (\<lambda>written.
           if \<not> written then fail
           else atomic (call_real (re_lseek_start real fd)) (\<lambda>pos.
             if pos \<noteq> 0 then fail
             else atomic (call_real (re_fdopen real fd ''r'')) (\<lambda>fp.
               if fp = None then fail else k fp))) meminfo)"

definition fopen_prog :: "'w real \<Rightarrow> bool \<Rightarrow> string option \<Rightarrow> string option \<Rightarrow> 'w prog" where
  "fopen_prog real use_fopen64 path mode =
     (let forward = libc_ptr (if use_fopen64 then re_fopen64 real path mode else re_fopen real path mode);
          finish = (\<lambda>fp. update leave_guard (if fp \<noteq> None then Return (Ret_ptr fp) else forward)) in
      if \<not> meminfo_mode_is_read_only mode then forward
      else atomic (should_virtualize_meminfo real path O_RDONLY) (\<lambda>yes.
        if \<not> yes then forward
        else atomic enter_guard (\<lambda>entered.
          if \<not> entered then forward
          else build_prog real (\<lambda>out.
            case out of None \<Rightarrow> finish None | Some meminfo \<Rightarrow> memfd_prog real meminfo finish))))"

definition read_prog :: "'w real \<Rightarrow> int \<Rightarrow> bool \<Rightarrow> nat \<Rightarrow> 'w prog" where
  "read_prog real fd buf_null count =
     (let forward = atomic (call_real (re_read real fd buf_null count))
            (\<lambda>r. Return (Ret_bytes (fst r) (Some (snd r)))) in
      atomic enter_guard (\<lambda>entered.
        if \<not> entered then forward
        else atomic (\<lambda>st. let (out, m) = rps_fd_map_take_read (re_lock_ok real Fd_map_lock (the_world st))
                              fd buf_null count (sh_fd_map st) in (out, st\<lparr>sh_fd_map := m\<rparr>)) (\<lambda>out.
          update leave_guard
            (case out of
               Some bytes \<Rightarrow> Return (Ret_bytes (int (length bytes)) (Some bytes))
             | None \<Rightarrow> forward))))"

definition stat_prog :: "'w real \<Rightarrow> string option \<Rightarrow> 'w prog" where
  "stat_prog real path =
     atomic (gpu_proc_denied real path) (\<lambda>denied.
       if denied then update (set_errno ENOENT) (Return (Ret_int (-1))) else libc_int (re_stat real path))"

definition fstat_prog :: "'w real \<Rightarrow> int \<Rightarrow> 'w prog" where
  "fstat_prog real fd = libc_int (re_fstat real fd)"

definition fstatat_prog :: "'w real \<Rightarrow> int \<Rightarrow> string option \<Rightarrow> u32 \<Rightarrow> 'w prog" where
  "fstatat_prog real dirfd path flags =
     (let refuse = update (set_errno ENOENT) (Return (Ret_int (-1)));
          forward = (\<lambda>effective.
            atomic (gpu_proc_denied real effective) (\<lambda>denied.
              if denied then refuse else libc_int (re_newfstatat real dirfd path flags))) in
      atomic (\<lambda>st. (gpu_effective_openat_path (sh_gpu_fds st) dirfd path, st)) (\<lambda>e.
        case e of
          RPS_GPU_EFFECTIVE_DENY \<Rightarrow> refuse
        | RPS_GPU_EFFECTIVE_PASSTHROUGH p \<Rightarrow> forward p
        | RPS_GPU_EFFECTIVE_RESOLVED q \<Rightarrow> forward (Some q)))"

definition fdopendir_prog :: "'w real \<Rightarrow> int \<Rightarrow> 'w prog" where
  "fdopendir_prog real fd =
     (case re_fdopendir real of
        None \<Rightarrow> update (set_errno ENOSYS) (Return (Ret_ptr None))
      | Some fdopendir \<Rightarrow> libc_ptr (fdopendir fd))"

text \<open>The loop of \<open>readdir\<close>: \<open>Some\<close> entry is to be checked, \<open>None\<close> asks libc for the next one.\<close>

primcorec readdir_loop_prog ::
    "'w real \<Rightarrow> ('w os \<Rightarrow> dirent option \<times> 'w os) \<Rightarrow> int \<Rightarrow> dirent option \<Rightarrow> 'w prog" where
  "readdir_loop_prog real nxt fd e =
     (case e of
        Some entry \<Rightarrow>
          Atomic (\<lambda>st. snd (gpu_readdir_entry_allowed real fd (Some (de_name entry)) st))
            (\<lambda>st. if fst (gpu_readdir_entry_allowed real fd (Some (de_name entry)) st)
                  then Return (Ret_entry (Some entry)) else readdir_loop_prog real nxt fd None)
      | None \<Rightarrow>
          Atomic (\<lambda>st. snd (call_real nxt st))
            (\<lambda>st. if fst (call_real nxt st) = None then Return (Ret_entry None)
                  else readdir_loop_prog real nxt fd (fst (call_real nxt st))))"

definition readdir_common_prog :: "'w real \<Rightarrow> ('w os \<Rightarrow> dirent option \<times> 'w os) \<Rightarrow> nat \<Rightarrow> 'w prog" where
  "readdir_common_prog real nxt dirp =
     atomic (call_real nxt) (\<lambda>e.
       case e of
         None \<Rightarrow> Return (Ret_entry None)
       | Some entry \<Rightarrow> atomic (\<lambda>st. (re_dirfd real dirp (sh_os st), st)) (\<lambda>fd.
           readdir_loop_prog real nxt fd (Some entry)))"

definition readdir_prog :: "'w real \<Rightarrow> nat \<Rightarrow> 'w prog" where
  "readdir_prog real dirp = readdir_common_prog real (re_readdir real dirp) dirp"

definition readdir64_prog :: "'w real \<Rightarrow> nat \<Rightarrow> 'w prog" where
  "readdir64_prog real dirp =
     (case re_readdir64 real of
        None \<Rightarrow> update (set_errno ENOSYS) (Return (Ret_entry None))
      | Some readdir64 \<Rightarrow> readdir_common_prog real (readdir64 dirp) dirp)"

definition getdents64_prog :: "'w real \<Rightarrow> int \<Rightarrow> nat \<Rightarrow> 'w prog" where
  "getdents64_prog real fd count =
     atomic (call_real (re_getdents64 real fd count)) (\<lambda>(result, buf).
       if \<not> result > 0 then Return (Ret_bytes result buf)
       else atomic (get_config real) (\<lambda>cfg.
         if \<not> rps_gpu_video_enabled cfg then Return (Ret_bytes result buf)
         else atomic (\<lambda>st. ((sh_ready st, sh_allowed st), st)) (\<lambda>(ready, allowed).
           if \<not> ready then Return (Ret_bytes result buf)
           else atomic (get_tracked fd) (\<lambda>r.
             if (case r of None \<Rightarrow> False | Some r \<Rightarrow> fr_kind r = RPS_GPU_FD_PROC_GPUS_DIR)
             then let (buf, result) = rps_gpu_filter_dirent64_buffer buf result (Some allowed) in
                  Return (Ret_bytes result buf)
             else Return (Ret_bytes result buf)))))"

text \<open>
  \<open>ioctl\<close>: the ids are read and recorded under the mutex of \<open>ioctl_filter.c\<close>, the caller's
  memory is changed outside it.
\<close>

definition allowed_now :: "'w shim \<Rightarrow> rps_gpu_allowed_gpus option" where
  "allowed_now st = (if sh_ready st then Some (sh_allowed st) else None)"

definition set_mem :: "mem \<Rightarrow> 'w shim \<Rightarrow> 'w shim" where
  "set_mem m st = st\<lparr>sh_os := (sh_os st)\<lparr>os_mem := m\<rparr>\<rparr>"

abbreviation mem_of :: "'w shim \<Rightarrow> mem" where
  "mem_of st \<equiv> os_mem (sh_os st)"

definition record_cards_of :: "nat \<Rightarrow> 'w shim \<Rightarrow> 'w shim" where
  "record_cards_of cards st =
     st\<lparr>sh_gpu_ids := rps_gpu_record_card_info_gpu_ids (allowed_now st) (mem_of st) cards RPS_NV_MAX_DEVICES
          (sh_gpu_ids st)\<rparr>"

definition filter_cards_of :: "nat \<Rightarrow> 'w shim \<Rightarrow> 'w shim" where
  "filter_cards_of cards st =
     set_mem (rps_gpu_filter_card_info (allowed_now st) cards RPS_NV_MAX_DEVICES (mem_of st)) st"

datatype rm_list = Rm_none | Rm_attached nat | Rm_active nat

definition rm_list_of :: "rps_config \<Rightarrow> nat \<Rightarrow> int \<Rightarrow> 'w shim \<Rightarrow> rm_list" where
  "rm_list_of cfg rm result st =
     (if \<not> rps_gpu_ioctl_filter_enabled cfg (allowed_now st) result (mem_of st) rm then Rm_none
      else if rm_cmd (mem_of st) rm = RPS_NV0000_CTRL_CMD_GPU_GET_ATTACHED_IDS \<and>
              unat (rm_paramsSize (mem_of st) rm) \<ge> 4 * RPS_NV0000_CTRL_GPU_MAX_ATTACHED_GPUS
      then Rm_attached (unat (rm_params (mem_of st) rm))
      else if rm_cmd (mem_of st) rm = RPS_NV0000_CTRL_CMD_GPU_GET_ACTIVE_DEVICE_IDS \<and>
              unat (rm_paramsSize (mem_of st) rm) \<ge>
                4 + sizeof_active_device * RPS_NV0000_CTRL_GPU_MAX_ACTIVE_DEVICES
      then Rm_active (unat (rm_params (mem_of st) rm))
      else Rm_none)"

definition kept_ids :: "nat \<Rightarrow> nat \<Rightarrow> 'w shim \<Rightarrow> u32 list option" where
  "kept_ids gpu_ids count st =
     (if gpu_ids = 0 \<or> count = 0 \<or> sh_gpu_ids st = [] then None
      else Some (keep_ids (sh_gpu_ids st) [] (read_ids (mem_of st) gpu_ids count)))"

definition store_ids :: "nat \<Rightarrow> nat \<Rightarrow> u32 list \<Rightarrow> 'w shim \<Rightarrow> 'w shim" where
  "store_ids gpu_ids count kept st =
     set_mem (fold (\<lambda>i m. write_u32 m (gpu_ids + 4 * i)
          (if i < length kept then kept ! i else RPS_NV0000_CTRL_GPU_INVALID_ID)) [0..<count] (mem_of st)) st"

definition kept_devices :: "nat \<Rightarrow> 'w shim \<Rightarrow> active_device list option" where
  "kept_devices params st =
     (if params = 0 \<or> sh_gpu_ids st = [] then None
      else Some (filter (\<lambda>d. rps_gpu_id_is_allowed_locked (sh_gpu_ids st) (ad_gpuId d))
             (map (\<lambda>i. read_device (mem_of st) (device_at params i))
                [0..<min (unat (read_u32 (mem_of st) params)) RPS_NV0000_CTRL_GPU_MAX_ACTIVE_DEVICES])))"

definition store_devices :: "nat \<Rightarrow> active_device list \<Rightarrow> 'w shim \<Rightarrow> 'w shim" where
  "store_devices params kept st =
     (let m = fold (\<lambda>i m. write_device m (device_at params i) (kept ! i)) [0..<length kept] (mem_of st);
          m = (if length kept < RPS_NV0000_CTRL_GPU_MAX_ACTIVE_DEVICES
               then memset_zero m (device_at params (length kept))
                      (sizeof_active_device * (RPS_NV0000_CTRL_GPU_MAX_ACTIVE_DEVICES - length kept))
               else m) in
      set_mem (write_u32 m params (of_nat (length kept))) st)"

definition rm_prog :: "rps_config \<Rightarrow> nat \<Rightarrow> int \<Rightarrow> 'w prog \<Rightarrow> 'w prog" where
  "rm_prog cfg rm result p =
     atomic (\<lambda>st. (rm_list_of cfg rm result st, st)) (\<lambda>l.
       case l of
         Rm_none \<Rightarrow> p
       | Rm_attached ids \<Rightarrow>
           atomic (\<lambda>st. (kept_ids ids RPS_NV0000_CTRL_GPU_MAX_ATTACHED_GPUS st, st)) (\<lambda>kept.
             case kept of
               None \<Rightarrow> p
             | Some kept \<Rightarrow> update (store_ids ids RPS_NV0000_CTRL_GPU_MAX_ATTACHED_GPUS kept) p)
       | Rm_active params \<Rightarrow>
           atomic (\<lambda>st. (kept_devices params st, st)) (\<lambda>kept.
             case kept of None \<Rightarrow> p | Some kept \<Rightarrow> update (store_devices params kept) p))"

definition filter_after_prog :: "'w real \<Rightarrow> u64 \<Rightarrow> nat \<Rightarrow> int \<Rightarrow> 'w prog \<Rightarrow> 'w prog" where
  "filter_after_prog real request arg result p =
     (if result \<noteq> 0 \<or> arg = 0 then p
      else atomic (get_config real) (\<lambda>cfg.
        if rps_request_is_card_info request
        then update (record_cards_of arg)
               (if cfg_gpu_video cfg \<and> cfg_gpu_ioctl cfg then update (filter_cards_of arg) p else p)
        else if rps_request_is_rm_control request then rm_prog cfg arg result p
        else p))"

definition ioctl_prog :: "'w real \<Rightarrow> int \<Rightarrow> u64 \<Rightarrow> nat \<Rightarrow> 'w prog" where
  "ioctl_prog real fd request va =
     (let no_arg = ioctl_request_has_no_arg request; arg = (if no_arg then 0 else va) in
      atomic (call_real (re_ioctl real fd request (if no_arg then None else Some va))) (\<lambda>result.
        atomic (get_config real) (\<lambda>cfg.
          if \<not> rps_gpu_ioctl_enabled cfg then Return (Ret_int result)
          else atomic (get_tracked fd) (\<lambda>r.
            if (case r of None \<Rightarrow> False | Some r \<Rightarrow> fr_kind r = RPS_GPU_FD_NVIDIA_CTL)
            then filter_after_prog real request arg result (Return (Ret_int result))
            else Return (Ret_int result)))))"

definition sysinfo_prog :: "u64 \<Rightarrow> 'w real \<Rightarrow> bool \<Rightarrow> 'w prog" where
  "sysinfo_prog ulong_max real info_null =
     atomic (call_real (re_sysinfo real info_null)) (\<lambda>(rc, info).
       let plain = Return (Ret_sysinfo rc info) in
       if rc \<noteq> 0 \<or> info_null then plain
       else atomic (get_config real) (\<lambda>cfg.
         if \<not> cfg_cgroup_memory cfg then plain
         else atomic enter_guard (\<lambda>entered.
           if \<not> entered then plain
           else atomic (take_snapshot real) (\<lambda>s.
             update leave_guard (Return (Ret_sysinfo rc
               (case Option.bind s (encode_sysinfo_memory ulong_max) of
                  None \<Rightarrow> info
                | Some (totalram, freeram, mem_unit) \<Rightarrow>
                    info\<lparr>si_mem_unit := mem_unit, si_totalram := totalram, si_freeram := freeram\<rparr>)))))))"

definition sysconf_prog :: "u64 \<Rightarrow> 'w real \<Rightarrow> int \<Rightarrow> 'w prog" where
  "sysconf_prog long_max real name =
     (let forward = libc_int (re_sysconf real name) in
      if name \<noteq> SC_PHYS_PAGES \<and> name \<noteq> SC_AVPHYS_PAGES then forward
      else atomic (get_config real) (\<lambda>cfg.
        if \<not> cfg_cgroup_memory cfg then forward
        else atomic enter_guard (\<lambda>entered.
          if \<not> entered then forward
          else atomic (call_real (re_sysconf real SC_PAGESIZE)) (\<lambda>page_size.
            if page_size \<le> 0 then update leave_guard forward
            else atomic (take_snapshot real) (\<lambda>s.
              case s of
                None \<Rightarrow> update leave_guard forward
              | Some s \<Rightarrow>
                  let bytes = (if name = SC_PHYS_PAGES then snap_total s else snap_available s);
                      pages = bytes div word_of_int page_size in
                  update leave_guard
                    (if pages > long_max then update (set_errno EOVERFLOW) (Return (Ret_int (-1)))
                     else Return (Ret_int (uint pages))))))))"

section \<open>Running alone\<close>

lemma run_simps [simp]:
  "run (Return r) st = Some (r, st)"
  "run (Atomic f k) st = run (k st) (f st)"
  "run (atomic g h) st = run (h (fst (g st))) (snd (g st))"
  "run (update f p) st = run p (f st)"
proof -
  show ret: "run (Return r) st = Some (r, st)" by (simp add: run.simps [of "Return r"])
  show act: "run (Atomic f k) st = run (k st) (f st)" for f and k :: "'a shim \<Rightarrow> 'a prog"
    by (simp add: run.simps [of "Atomic f k"])
  show "run (atomic g h) st = run (h (fst (g st))) (snd (g st))" "run (update f p) st = run p (f st)"
    by (simp_all add: atomic_def update_def act)
qed

lemma run_if [simp]: "run (if b then p else q) st = (if b then run p st else run q st)"
  by simp

lemma run_libc [simp]:
  "run (libc_int f) st = Some (apfst Ret_int (call_real f st))"
  "run (libc_ptr g) st = Some (apfst Ret_ptr (call_real g st))"
  by (simp_all add: libc_int_def libc_ptr_def prod_eq_iff del: call_real_fields)

lemma build_meminfo_steps:
  "build_meminfo real st =
     (case take_snapshot real st of
        (None, st') \<Rightarrow> (None, st')
      | (Some s, st') \<Rightarrow> (read_meminfo real s st', st'))"
  by (auto simp: build_meminfo_def take_snapshot_def rps_proc_meminfo_build_def read_meminfo_def the_world_def
      Let_def case_prod_beta split: prod.split option.split)

lemma run_build [simp]:
  "run (build_prog real k) st = run (k (fst (build_meminfo real st))) (snd (build_meminfo real st))"
  by (simp add: build_prog_def build_meminfo_steps case_prod_beta split: option.split)
    
lemma run_attach [simp]:
  "run (attach_prog real fd path flags p) st = run p (maybe_attach_meminfo real fd path flags st)"
  by (simp add: attach_prog_def maybe_attach_meminfo_def attach_def Let_def case_prod_beta
      del: guard_fields split: option.split)

lemma apfst_eq: "apfst f p = (f (fst p), snd p)"
  by (cases p) simp

lemma run_open: "run (open_prog real b path flags va) st = Some (apfst Ret_int (hook_open real b path flags va st))"
  by (simp add: open_prog_def hook_open_def open_common_def gpu_open_denied_path_def apfst_eq Let_def case_prod_beta)

lemma run_openat:
  "run (openat_prog real b dirfd path flags va) st = Some (apfst Ret_int (hook_openat real b dirfd path flags va st))"
proof (cases "gpu_effective_openat_path (sh_gpu_fds st) dirfd path")
  case RPS_GPU_EFFECTIVE_DENY
  then show ?thesis by (simp add: openat_prog_def hook_openat_def openat_common_eq apfst_eq Let_def)
qed (cases "dirfd = AT_FDCWD"; simp add: openat_prog_def hook_openat_def openat_common_eq
  gpu_open_denied_path_def apfst_eq Let_def case_prod_beta)+

lemma run_dirs:
  "run (opendir_prog real b path) st = Some (apfst Ret_ptr (opendir_common real path b st))"
  "run (closedir_prog real d) st = Some (apfst Ret_int (hook_closedir real d st))"
  "run (fdopendir_prog real fd) st = Some (apfst Ret_ptr (hook_fdopendir real fd st))"
  by (simp_all add: opendir_prog_def closedir_prog_def fdopendir_prog_def opendir_common_eq hook_closedir_def
      hook_fdopendir_def untrack_def apfst_eq Let_def case_prod_beta split: option.split)

lemma run_descriptors:
  "run (close_prog real fd) st = Some (apfst Ret_int (hook_close real fd st))"
  "run (dup_prog real fd) st = Some (apfst Ret_int (hook_dup real fd st))"
  "run (dup2_prog real fd fd') st = Some (apfst Ret_int (hook_dup2 real fd fd' st))"
  "run (dup3_prog real fd fd' fl) st = Some (apfst Ret_int (hook_dup3 real fd fd' fl st))"
  "run (fcntl_prog real fd cmd a) st = Some (apfst Ret_int (hook_fcntl real fd cmd a st))"
  by (simp_all add: close_prog_def dup_prog_def dup2_prog_def dup3_prog_def fcntl_prog_def hook_close_def
      hook_dup_def hook_dup2_def hook_dup3_def hook_fcntl_def untrack_def apfst_eq Let_def case_prod_beta)

lemma run_stats:
  "run (stat_prog real path) st = Some (apfst Ret_int (hook_stat real path st))"
  "run (fstat_prog real fd) st = Some (apfst Ret_int (hook_fstat real fd st))"
  "run (fstatat_prog real fd path fl) st = Some (apfst Ret_int (fstatat_common real fd path fl st))"
  by (simp_all add: stat_prog_def fstat_prog_def fstatat_prog_def hook_stat_def hook_fstat_def fstatat_common_def
      apfst_eq Let_def case_prod_beta split: effective_path.split)

lemma run_read:
  "run (read_prog real fd null n) st =
     Some (apfst (\<lambda>(r, bytes). Ret_bytes r (Some bytes)) (hook_read real fd null n st))"
  by (simp add: read_prog_def hook_read_def apfst_eq Let_def case_prod_beta the_world_def del: guard_fields
      split: option.split)

lemma run_getdents64:
  "run (getdents64_prog real fd n) st =
     Some (apfst (\<lambda>(r, buf). Ret_bytes r buf) (hook_getdents64 real fd n st))"
  by (simp add: getdents64_prog_def hook_getdents64_def get_tracked_def apfst_eq Let_def case_prod_beta
      split: option.split)

lemma run_memory:
  "run (sysinfo_prog ul real null) st =
     Some (apfst (\<lambda>(rc, info). Ret_sysinfo rc info) (hook_sysinfo ul real null st))"
  "run (sysconf_prog l real name) st = Some (apfst Ret_int (hook_sysconf l real name st))"
  subgoal by (cases null) (simp_all add: sysinfo_prog_def hook_sysinfo_def apfst_eq Let_def case_prod_beta
      del: guard_fields call_real_fields)
  subgoal by (simp add: sysconf_prog_def hook_sysconf_def apfst_eq Let_def case_prod_beta del: guard_fields
      split: option.split)
  done

text \<open>The loops: a program that returns has gone through the loop, and the other way round.\<close>

lemma write_prog_returns:
  "write_all_fd real fd buf st = Some r \<Longrightarrow>
     run (write_all_prog real fd k buf) st = run (k (fst r)) (snd r)"
proof (erule write_all_fd.raw_induct [where
      P = "\<lambda>real fd buf st r. run (write_all_prog real fd k buf) st = run (k (fst r)) (snd r)", rotated], goal_cases)
  case (1 f real fd buf st r)
  then show ?case
    by (subst write_all_prog.code)
      (auto simp: Let_def case_prod_beta split: if_splits)
qed

lemma write_all_prog_case:
  "(case write_all_prog real fd k buf of Return r \<Rightarrow> F r | Atomic f h \<Rightarrow> G f h) =
     (if buf = [] then (case k True of Return r \<Rightarrow> F r | Atomic f h \<Rightarrow> G f h)
      else G (\<lambda>st. snd (call_real (re_write real fd buf) st))
        (\<lambda>st. let (out, st') = call_real (re_write real fd buf) st in
           if out < 0
           then if os_errno (sh_os st') = EINTR then write_all_prog real fd k buf else k False
           else if out = 0 then k False
           else write_all_prog real fd k (drop (nat out) buf)))"
  by (subst write_all_prog.code) simp

lemma readdir_loop_prog_case:
  "(case readdir_loop_prog real nxt fd e of Return r \<Rightarrow> F r | Atomic f h \<Rightarrow> G f h) =
     (case e of
        Some entry \<Rightarrow>
          G (\<lambda>st. snd (gpu_readdir_entry_allowed real fd (Some (de_name entry)) st))
            (\<lambda>st. if fst (gpu_readdir_entry_allowed real fd (Some (de_name entry)) st)
                  then Return (Ret_entry (Some entry)) else readdir_loop_prog real nxt fd None)
      | None \<Rightarrow>
          G (\<lambda>st. snd (call_real nxt st))
            (\<lambda>st. if fst (call_real nxt st) = None then Return (Ret_entry None)
                  else readdir_loop_prog real nxt fd (fst (call_real nxt st))))"
  by (subst readdir_loop_prog.code) (simp split: option.split)

lemma write_prog_run:
  "run p st = Some r \<Longrightarrow> \<forall>buf. p = write_all_prog real fd k buf \<longrightarrow> (\<exists>x. write_all_fd real fd buf st = Some x)"
proof (erule run.raw_induct [where
      P = "\<lambda>p st r. \<forall>buf. p = write_all_prog real fd k buf \<longrightarrow> (\<exists>x. write_all_fd real fd buf st = Some x)", rotated],
      goal_cases)
  case (1 f p st r)
  show ?case
  proof (intro allI impI)
    fix buf assume p: "p = write_all_prog real fd k buf"
    show "\<exists>x. write_all_fd real fd buf st = Some x"
    proof (cases "buf = []")
      case True
      then show ?thesis by (subst write_all_fd.simps) auto
    next
      case False
      note step = 1(2) [unfolded p write_all_prog_case]
      have again: "\<exists>x. write_all_fd real fd buf' st' = Some x"
        if "f (write_all_prog real fd k buf') st' = Some r" for buf' st'
        using 1(1) [OF that] by blast
      show ?thesis
        using step again by (subst write_all_fd.simps) (fastforce simp: False Let_def case_prod_beta split: if_splits)
    qed
  qed
qed

lemma run_write_all:
  "run (write_all_prog real fd k buf) st =
     Option.bind (write_all_fd real fd buf st) (\<lambda>(ok, st). run (k ok) st)"
proof (cases "write_all_fd real fd buf st")
  case None
  then show ?thesis using write_prog_run [of "write_all_prog real fd k buf" st _ real fd k] by (metis bind.bind_lzero not_None_eq)
next
  case (Some r)
  with write_prog_returns [OF Some] show ?thesis by (simp add: case_prod_beta)
qed

lemma readdir_prog_returns:
  "readdir_loop real nxt fd entry st = Some r \<Longrightarrow>
     run (readdir_loop_prog real nxt fd (Some entry)) st = Some (apfst Ret_entry r)"
proof (erule readdir_loop.raw_induct [where
      P = "\<lambda>real nxt fd entry st r. run (readdir_loop_prog real nxt fd (Some entry)) st = Some (apfst Ret_entry r)",
      rotated], goal_cases)
  case (1 f real nxt fd entry st r)
  have ask: "run (readdir_loop_prog real nxt fd None) st' =
      (case fst (call_real nxt st') of
         None \<Rightarrow> Some (Ret_entry None, snd (call_real nxt st'))
       | Some e \<Rightarrow> run (readdir_loop_prog real nxt fd (Some e)) (snd (call_real nxt st')))" for st'
    by (subst readdir_loop_prog.code) (auto split: option.split)
  from 1 show ?case
    by (subst readdir_loop_prog.code) (auto simp: ask Let_def case_prod_beta split: if_splits option.splits)
qed

lemma readdir_prog_run:
  "run p st = Some r \<Longrightarrow> \<forall>e. p = readdir_loop_prog real nxt fd e \<longrightarrow>
     (case e of Some entry \<Rightarrow> \<exists>x. readdir_loop real nxt fd entry st = Some x
      | None \<Rightarrow> (case fst (call_real nxt st) of None \<Rightarrow> True
           | Some entry \<Rightarrow> \<exists>x. readdir_loop real nxt fd entry (snd (call_real nxt st)) = Some x))"
proof (erule run.raw_induct [where
      P = "\<lambda>p st r. \<forall>e. p = readdir_loop_prog real nxt fd e \<longrightarrow>
        (case e of Some entry \<Rightarrow> \<exists>x. readdir_loop real nxt fd entry st = Some x
         | None \<Rightarrow> (case fst (call_real nxt st) of None \<Rightarrow> True
           | Some entry \<Rightarrow> \<exists>x. readdir_loop real nxt fd entry (snd (call_real nxt st)) = Some x))", rotated],
      goal_cases)
  case (1 f p st r)
  show ?case
  proof (intro allI impI)
    fix e assume p: "p = readdir_loop_prog real nxt fd e"
    note step = 1(2) [unfolded p readdir_loop_prog_case]
    have again: "case e' of Some entry \<Rightarrow> \<exists>x. readdir_loop real nxt fd entry st' = Some x
         | None \<Rightarrow> (case fst (call_real nxt st') of None \<Rightarrow> True
           | Some entry \<Rightarrow> \<exists>x. readdir_loop real nxt fd entry (snd (call_real nxt st')) = Some x)"
      if "f (readdir_loop_prog real nxt fd e') st' = Some r" for e' st'
      using 1(1) [OF that] by blast
    show "case e of Some entry \<Rightarrow> \<exists>x. readdir_loop real nxt fd entry st = Some x
         | None \<Rightarrow> (case fst (call_real nxt st) of None \<Rightarrow> True
           | Some entry \<Rightarrow> \<exists>x. readdir_loop real nxt fd entry (snd (call_real nxt st)) = Some x)"
    proof (cases e)
      case None
      let ?st = "snd (call_real nxt st)"
      show ?thesis
        using step again [of "fst (call_real nxt st)" ?st] None
        by (cases "fst (call_real nxt st)") (auto simp del: call_real_fields)
    next
      case (Some entry)
      let ?st = "snd (gpu_readdir_entry_allowed real fd (Some (de_name entry)) st)"
      show ?thesis
        using step again [of None ?st] Some
        by (subst readdir_loop.simps)
          (auto simp: Let_def case_prod_beta split: if_splits option.splits)
    qed
  qed
qed

lemma run_readdir_loop:
  "run (readdir_loop_prog real nxt fd (Some entry)) st =
     map_option (apfst Ret_entry) (readdir_loop real nxt fd entry st)"
proof (cases "readdir_loop real nxt fd entry st")
  case None
  then have "run (readdir_loop_prog real nxt fd (Some entry)) st \<noteq> Some r" for r
    using readdir_prog_run [of "readdir_loop_prog real nxt fd (Some entry)" st r real nxt fd, THEN spec, THEN mp, OF _ refl] by auto
  with None show ?thesis by (metis not_None_eq option.map_disc_iff)
next
  case (Some r)
  with readdir_prog_returns [OF Some] show ?thesis by simp
qed

lemma run_readdir:
  "run (readdir_prog real d) st = map_option (apfst Ret_entry) (hook_readdir real d st)"
  "run (readdir64_prog real d) st = map_option (apfst Ret_entry) (hook_readdir64 real d st)"
  by (simp_all add: readdir_prog_def readdir64_prog_def readdir_common_prog_def hook_readdir_def
      hook_readdir64_def readdir_common_def run_readdir_loop case_prod_beta Let_def split: option.split)

lemma run_memfd:
  "run (memfd_prog real d k) st = Option.bind (fopen_memfd real d st) (\<lambda>(fp, st). run (k fp) st)"
proof -
  have close: "run (atomic (call_real (re_close real fd)) (\<lambda>_. k None)) st = run (k None) (snd (call_real (re_close real fd) st))"
    for fd st by simp
  show ?thesis
    by (auto simp: memfd_prog_def fopen_memfd_def run_write_all case_prod_beta Let_def close
        simp del: call_real_fields split: bind_splits)
qed

lemma run_fopen:
  "run (fopen_prog real b path mode) st = map_option (apfst Ret_ptr) (fopen_common real path mode b st)"
proof -
  have forward: "Some (apfst Ret_ptr (call_real (re_fopen64 real path mode) st)) =
      map_option (apfst Ret_ptr) (Some (real_fopen_common real path mode True st))"
    "Some (apfst Ret_ptr (call_real (re_fopen real path mode) st)) =
      map_option (apfst Ret_ptr) (Some (real_fopen_common real path mode False st))" for st
    by (simp_all add: real_fopen_common_def)
  show ?thesis
    by (cases b; cases "meminfo_mode_is_read_only mode";
      cases "fst (should_virtualize_meminfo real path O_RDONLY st)";
      cases "fst (enter_guard (snd (should_virtualize_meminfo real path O_RDONLY st)))";
      simp add: fopen_prog_def fopen_common_def Let_def case_prod_beta run_memfd forward
        del: guard_fields call_real_fields split: option.split bind_split)
qed

text \<open>\<open>ioctl\<close>\<close>

lemma store_kept:
  "set_mem (fst (snd (rps_gpu_filter_gpu_id_array (sh_gpu_ids st) (mem_of st) p n))) st =
     (case kept_ids p n st of None \<Rightarrow> st | Some kept \<Rightarrow> store_ids p n kept st)"
  "set_mem (fst (snd (rps_gpu_filter_active_devices (sh_gpu_ids st) (mem_of st) p))) st =
     (case kept_devices p st of None \<Rightarrow> st | Some kept \<Rightarrow> store_devices p kept st)"
  by (simp_all add: rps_gpu_filter_gpu_id_array_def kept_ids_def store_ids_def rps_gpu_filter_active_devices_def
      kept_devices_def store_devices_def set_mem_def Let_def min_def not_le)

lemma run_rm:
  "run (rm_prog cfg rm result p) st =
     run p (set_mem (rps_gpu_filter_rm_control cfg (allowed_now st) (sh_gpu_ids st) (mem_of st) rm result) st)"
  by (auto simp: rm_prog_def rm_list_of_def rps_gpu_filter_rm_control_def store_kept set_mem_def [of "mem_of st"]
      split: option.split)

lemma run_filter_after:
  assumes "cs_initialized (sh_config st)"
  shows "run (filter_after_prog real request arg result p) st =
    (let (m, ids) = rps_gpu_ioctl_filter_after (config_of st) (allowed_now st) request arg result
       (mem_of st, sh_gpu_ids st) in run p (set_mem m (st\<lparr>sh_gpu_ids := ids\<rparr>)))"
  using assms
  by (auto simp: filter_after_prog_def rps_gpu_ioctl_filter_after_def run_rm record_cards_of_def filter_cards_of_def
      set_mem_def allowed_now_def Let_def)

lemma run_ioctl:
  assumes "cs_initialized (sh_config st)"
  shows "run (ioctl_prog real fd request va) st = Some (apfst Ret_int (hook_ioctl real fd request va st))"
  using assms
  by (simp add: ioctl_prog_def hook_ioctl_def get_tracked_def run_filter_after apfst_eq Let_def case_prod_beta
      allowed_now_def set_mem_def del: call_real_fields(9,10) split: option.split)

text \<open>What each program does alone is what its hook does.\<close>

lemmas programs_run_as_hooks = run_open run_openat run_fopen run_dirs run_readdir run_getdents64 run_read
  run_descriptors run_stats run_ioctl run_memory

end
