(* ===== verification/Preload_Threads.thy ===== *)
theory Preload_Threads imports Preload_Programs
begin

text \<open>
  Several threads that call the shim (\<open>src/preload.c\<close>). The calls are the programs of
  \<open>Preload_Programs\<close>; between two actions of one thread any other thread may run and the system
  may change. The guard's depth and \<open>errno\<close> belong to the thread. The invariant of the tables is
  proved for every action (\<open>safe\<close>, coinductive because two of the calls may not return); a
  schedule at the end evaluates a race of \<open>closedir\<close> with another thread's \<open>open\<close>.
\<close>

section \<open>Threads\<close>

text \<open>
  A thread has its own guard depth and \<open>errno\<close>; a thread without a call has returned from
  its last one. The program may start threads at any time.
\<close>

record 'w shim_thread =
  th_depth :: int
  th_errno :: int
  th_prog :: "'w prog"

definition view :: "'w shim_thread \<Rightarrow> 'w shim \<Rightarrow> 'w shim" where
  "view t st = st\<lparr>sh_depth := th_depth t, sh_os := (sh_os st)\<lparr>os_errno := th_errno t\<rparr>\<rparr>"

definition suspend :: "'w prog \<Rightarrow> 'w shim \<Rightarrow> 'w shim_thread" where
  "suspend p st = \<lparr>th_depth = sh_depth st, th_errno = os_errno (sh_os st), th_prog = p\<rparr>"

inductive is_call :: "u64 \<Rightarrow> u64 \<Rightarrow> 'w real \<Rightarrow> 'w prog \<Rightarrow> bool"
  for ulong_max :: u64 and long_max :: u64 and real :: "'w real" where
  "is_call ulong_max long_max real (open_prog real b path flags va)"
| "is_call ulong_max long_max real (openat_prog real b dirfd path flags va)"
| "is_call ulong_max long_max real (fopen_prog real b path mode)"
| "is_call ulong_max long_max real (opendir_prog real b path)"
| "is_call ulong_max long_max real (fdopendir_prog real fd)"
| "is_call ulong_max long_max real (closedir_prog real d)"
| "is_call ulong_max long_max real (readdir_prog real d)"
| "is_call ulong_max long_max real (readdir64_prog real d)"
| "is_call ulong_max long_max real (getdents64_prog real fd n)"
| "is_call ulong_max long_max real (read_prog real fd null n)"
| "is_call ulong_max long_max real (close_prog real fd)"
| "is_call ulong_max long_max real (dup_prog real fd)"
| "is_call ulong_max long_max real (dup2_prog real fd fd')"
| "is_call ulong_max long_max real (dup3_prog real fd fd' flags)"
| "is_call ulong_max long_max real (fcntl_prog real fd cmd a)"
| "is_call ulong_max long_max real (stat_prog real path)"
| "is_call ulong_max long_max real (fstat_prog real fd)"
| "is_call ulong_max long_max real (fstatat_prog real dirfd path flags)"
| "is_call ulong_max long_max real (ioctl_prog real fd request a)"
| "is_call ulong_max long_max real (sysinfo_prog ulong_max real null)"
| "is_call ulong_max long_max real (sysconf_prog long_max real name)"

text \<open>
  A step: a thread starts, a thread that has returned begins a call, a thread does the next
  action of its call, or the system changes outside the shim.
\<close>

inductive threads_step ::
    "u64 \<Rightarrow> u64 \<Rightarrow> 'w real \<Rightarrow> 'w shim_thread list \<Rightarrow> 'w shim \<Rightarrow> 'w shim_thread list \<Rightarrow> 'w shim \<Rightarrow> bool"
  for ulong_max :: u64 and long_max :: u64 and real :: "'w real" where
  spawn: "threads_step ulong_max long_max real ts st
    (ts @ [\<lparr>th_depth = 0, th_errno = e, th_prog = Return r\<rparr>]) st"
| begins: "i < length ts \<Longrightarrow> th_prog (ts ! i) = Return r \<Longrightarrow> is_call ulong_max long_max real p \<Longrightarrow>
    threads_step ulong_max long_max real ts st (ts[i := (ts ! i)\<lparr>th_prog := p\<rparr>]) st"
| acts: "i < length ts \<Longrightarrow> th_prog (ts ! i) = Atomic f k \<Longrightarrow> v = view (ts ! i) st \<Longrightarrow>
    threads_step ulong_max long_max real ts st (ts[i := suspend (k v) (f v)]) (f v)"
| elsewhere: "threads_step ulong_max long_max real ts st ts (st\<lparr>sh_os := os\<rparr>)"

inductive threads_reach ::
    "u64 \<Rightarrow> u64 \<Rightarrow> 'w real \<Rightarrow> 'w shim_thread list \<Rightarrow> 'w shim \<Rightarrow> bool"
  for ulong_max :: u64 and long_max :: u64 and real :: "'w real" where
  started: "threads_reach ulong_max long_max real [] (runpod_shim_init real (shim_zero os))"
| goes_on: "threads_reach ulong_max long_max real ts st \<Longrightarrow>
    threads_step ulong_max long_max real ts st ts' st' \<Longrightarrow> threads_reach ulong_max long_max real ts' st'"

section \<open>What every action keeps: lemmas\<close>

type_synonym setup_facts = "config_state \<times> bool \<times> rps_gpu_allowed_gpus"

definition setup_of :: "'w shim \<Rightarrow> setup_facts" where
  "setup_of st = (sh_config st, sh_ready st, sh_allowed st)"

definition good :: "setup_facts \<Rightarrow> 'w shim \<Rightarrow> bool" where
  "good S st \<longleftrightarrow> static_ok st \<and> tracked_visible st \<and> setup_of st = S"

text \<open>A program that keeps \<open>good\<close> whatever happens between its actions, and leaves the guard.\<close>

coinductive safe :: "setup_facts \<Rightarrow> 'w prog \<Rightarrow> int \<Rightarrow> bool" for S :: setup_facts where
  returns: "d = 0 \<Longrightarrow> safe S (Return r) d"
| continues: "\<forall>st. good S st \<and> sh_depth st = d \<longrightarrow> good S (f st) \<and> safe S (k st) (sh_depth (f st)) \<Longrightarrow>
    safe S (Atomic f k) d"

inductive_cases safe_returnE: "safe S (Return r) d"
inductive_cases safe_atomicE: "safe S (Atomic f k) d"

lemma safe_simps [simp]:
  "safe S (Return r) d \<longleftrightarrow> d = 0"
  "safe S (Atomic g h) d \<longleftrightarrow>
     (\<forall>st. good S st \<and> sh_depth st = d \<longrightarrow> good S (g st) \<and> safe S (h st) (sh_depth (g st)))"
  "safe S (atomic f k) d \<longleftrightarrow>
     (\<forall>st. good S st \<and> sh_depth st = d \<longrightarrow>
        good S (snd (f st)) \<and> safe S (k (fst (f st))) (sh_depth (snd (f st))))"
  "safe S (update u p) d \<longleftrightarrow> (\<forall>st. good S st \<and> sh_depth st = d \<longrightarrow> good S (u st) \<and> safe S p (sh_depth (u st)))"
proof -
  show "safe S (Return r) d \<longleftrightarrow> d = 0" by (auto intro: safe.returns elim: safe_returnE)
  show act: "safe S (Atomic g h) d \<longleftrightarrow>
     (\<forall>st. good S st \<and> sh_depth st = d \<longrightarrow> good S (g st) \<and> safe S (h st) (sh_depth (g st)))" for g h
    by (auto intro: safe.continues elim: safe_atomicE)
  show "safe S (atomic f k) d \<longleftrightarrow>
     (\<forall>st. good S st \<and> sh_depth st = d \<longrightarrow>
        good S (snd (f st)) \<and> safe S (k (fst (f st))) (sh_depth (snd (f st))))"
    "safe S (update u p) d \<longleftrightarrow> (\<forall>st. good S st \<and> sh_depth st = d \<longrightarrow> good S (u st) \<and> safe S p (sh_depth (u st)))"
    by (simp_all add: atomic_def update_def act)
qed

lemma good_cong:
  fixes st st' :: "'w shim"
  shows "static_ok st' = static_ok st \<Longrightarrow> sh_gpu_fds st' = sh_gpu_fds st \<Longrightarrow> setup_of st' = setup_of st \<Longrightarrow>
     good S st' = good S st"
  unfolding good_def tracked_visible_def setup_of_def by simp

lemma good_initialized: "good S st \<Longrightarrow> cs_initialized (sh_config st)"
  by (simp add: good_def)

lemma good_same [simp]:
  "good S (snd (call_real f st)) = good S st" "good S (set_errno e st) = good S st"
  "good S (st\<lparr>sh_depth := d\<rparr>) = good S st" "good S (st\<lparr>sh_os := os\<rparr>) = good S st"
  by (rule good_cong; simp add: setup_of_def)+

lemma good_less:
  fixes st st' :: "'w shim"
  assumes "good S st" "static_ok st'" "snd ` set (sh_gpu_fds st') \<subseteq> snd ` set (sh_gpu_fds st)"
    and "setup_of st' = setup_of st"
  shows "good S st'"
proof -
  have "same_setup st st'" using assms(4) by (simp add: setup_of_def same_setup_def)
  with assms same_tracked_visible [of st st'] show ?thesis by (simp add: good_def)
qed

lemma good_tables [simp]:
  assumes "good S st"
  shows "good S (forget_virtual real fd st)" "good S (untrack fd st)" "good S (copy_tracked real old new st)"
    "good S (attach real fd d st)" "good S (snd (build_meminfo real st))"
proof -
  have ok: "static_ok st" using assms by (simp add: good_def)
  then have fds: "gpu_fds_ok (sh_gpu_fds st)" and map: "fd_map_ok (sh_fd_map st)" by (simp_all add: static_ok_def)
  show "good S (forget_virtual real fd st)" "good S (snd (build_meminfo real st))"
    using assms by (rule good_less; simp add: ok setup_of_def)+
  show "good S (untrack fd st)"
    unfolding untrack_def using assms by (rule good_less) (simp_all add: ok setup_of_def tracker_records(2))
  have "snd ` set (sh_gpu_fds (copy_tracked real old new st)) \<subseteq> snd ` set (sh_gpu_fds st)"
    unfolding copy_tracked_def using tracker_records(3) [OF fds] by simp
  with assms show "good S (copy_tracked real old new st)"
    by (rule_tac good_less) (simp_all add: ok setup_of_def)
  show "good S (attach real fd d st)"
    unfolding attach_def using assms
    by (rule good_less) (simp_all add: ok map setup_of_def static_ok_fd_map put_keeps_ok)
qed

lemma good_set_mem [simp]: "good S (set_mem m st) = good S st" "sh_depth (set_mem m st) = sh_depth st"
  by (simp_all add: set_mem_def)

lemma good_snapshot [simp]:
  assumes "good S st"
  shows "good S (snd (take_snapshot real st))"
  by (rule good_less [OF assms]) (use assms in \<open>simp_all add: good_def setup_of_def\<close>)

lemma good_take_read [simp]:
  assumes "good S st"
  shows "good S (st\<lparr>sh_fd_map := snd (rps_fd_map_take_read lock fd null n (sh_fd_map st))\<rparr>)"
  by (rule good_less [OF assms]) (use assms in \<open>simp_all add: good_def static_ok_def setup_of_def take_read_keeps_ok\<close>)

lemma good_record_cards [simp]:
  assumes "good S st"
  shows "good S (record_cards_of cards st)" "sh_depth (record_cards_of cards st) = sh_depth st"
proof -
  have "gpu_ids_ok (sh_gpu_ids st)" using assms by (simp add: good_def static_ok_def)
  then have "gpu_ids_ok (rps_gpu_record_card_info_gpu_ids al m cards RPS_NV_MAX_DEVICES (sh_gpu_ids st))" for al m
    using record_cards [of _ RPS_NV_MAX_DEVICES] by blast
  then show "good S (record_cards_of cards st)"
    unfolding record_cards_of_def
    by (intro good_less [OF assms]) (use assms in \<open>simp_all add: good_def static_ok_gpu_ids setup_of_def\<close>)
  show "sh_depth (record_cards_of cards st) = sh_depth st" by (simp add: record_cards_of_def)
qed

lemma good_memory [simp]:
  "good S (filter_cards_of cards st) = good S st" "sh_depth (filter_cards_of cards st) = sh_depth st"
  "good S (store_ids p n kept st) = good S st" "sh_depth (store_ids p n kept st) = sh_depth st"
  "good S (store_devices p ds st) = good S st" "sh_depth (store_devices p ds st) = sh_depth st"
  by (simp_all add: filter_cards_of_def store_ids_def store_devices_def Let_def)

lemma table_depths [simp]:
  "sh_depth (untrack fd st) = sh_depth st" "sh_depth (attach real fd d st) = sh_depth st"
  by (simp_all add: untrack_def attach_def)

lemma track_good:
  assumes "good S st" "\<not> fst (gpu_proc_denied real path st)" "good S st'"
  shows "good S (gpu_trace_and_track_open real path fd st')"
proof -
  let ?st = "st'\<lparr>sh_depth := 0\<rparr>"
  have init: "cs_initialized (sh_config st)" "cs_initialized (sh_config st')"
    using assms(1,3) by (simp_all add: good_initialized)
  have ok: "shim_ok ?st" "static_ok st'" "tracked_visible st'" using assms(3) by (simp_all add: shim_ok_def good_def)
  have "sh_config st' = sh_config st" "sh_ready st' = sh_ready st" "sh_allowed st' = sh_allowed st"
    using assms(1,3) by (auto simp: good_def setup_of_def)
  with assms(2) init have "gpu_proc_denied real path ?st = (False, ?st)" by (simp add: denied_initialized)
  from not_denied_record [OF ok(1) this]
  have "gpu_record_visible (sh_allowed st') r" if "sh_ready st'" "rps_gpu_classify_path path = (True, r)" for r
    using that by simp
  then have "tracked_visible (gpu_trace_and_track_open real path fd st')"
    using track_open_records [OF init(2), of real path fd] ok(3) init(2)
    by (intro tracked_visible_subset [OF ok(3)]) (auto simp: same_setup_def)
  with ok assms(3) init show ?thesis by (simp add: good_def setup_of_def)
qed

lemma libc_safe [simp]: "safe S (libc_int f) 0" "safe S (libc_ptr g) 0"
  by (simp_all add: libc_int_def libc_ptr_def)

lemma build_prog_safe: "(\<And>out. safe S (k out) d) \<Longrightarrow> safe S (build_prog real k) d"
  by (auto simp: build_prog_def split: option.split)

lemma attach_prog_safe: "safe S p 0 \<Longrightarrow> safe S (attach_prog real fd path flags p) 0"
  by (auto intro!: build_prog_safe simp: attach_prog_def should_virtualize_initialized good_initialized
      split: option.split)

lemma write_all_prog_safe:
  assumes "\<And>ok. safe S (k ok) d"
  shows "safe S (write_all_prog real fd k buf) d"
proof (coinduction arbitrary: buf)
  case (safe buf)
  show ?case
  proof (cases "buf = []")
    case True
    then have eq: "write_all_prog real fd k buf = k True" by (subst write_all_prog.code) simp
    show ?thesis
      unfolding eq using assms [of True] by (cases "k True") (auto elim!: safe_returnE safe_atomicE)
  next
    case False
    then show ?thesis
      by (intro disjI2, subst write_all_prog.code) (auto simp: Let_def case_prod_beta assms)
  qed
qed

lemma readdir_loop_prog_safe: "safe S (readdir_loop_prog real nxt fd e) 0"
proof (coinduction arbitrary: e)
  case (safe e)
  show ?case
    by (intro disjI2, subst readdir_loop_prog.code)
      (cases e; auto simp: readdir_entry_initialized good_initialized)
qed

lemma memfd_prog_safe: "(\<And>fp. safe S (k fp) d) \<Longrightarrow> safe S (memfd_prog real text k) d"
  by (auto simp: memfd_prog_def Let_def intro!: write_all_prog_safe)

lemma filter_after_prog_safe: "safe S p 0 \<Longrightarrow> safe S (filter_after_prog real request arg result p) 0"
  by (auto simp: filter_after_prog_def rm_prog_def good_initialized split: option.split rm_list.split)

lemma opens_safe:
  "safe S (open_prog real b path flags va) 0"
  "safe S (openat_prog real b dirfd path flags va) 0"
  "safe S (opendir_prog real b path) 0"
proof -
  show "safe S (open_prog real b path flags va) 0"
    by (simp add: open_prog_def Let_def denied_initialized good_initialized gpu_open_denied_path_def)
      (auto intro!: attach_prog_safe simp: track_good good_initialized denied_initialized)
  show "safe S (openat_prog real b dirfd path flags va) 0"
    by (auto intro!: attach_prog_safe simp: openat_prog_def Let_def good_initialized denied_initialized
       track_good gpu_open_denied_path_def split: effective_path.split)
  show "safe S (opendir_prog real b path) 0"
    by (auto simp: opendir_prog_def Let_def good_initialized denied_initialized track_good split: option.split)
qed

lemma fopen_prog_safe: "safe S (fopen_prog real b path mode) 0"
  by (auto intro!: build_prog_safe memfd_prog_safe simp: fopen_prog_def Let_def should_virtualize_initialized
      good_initialized split: option.split)

lemma descriptor_calls_safe:
  "safe S (close_prog real fd) 0" "safe S (closedir_prog real d) 0" "safe S (dup_prog real fd) 0"
  "safe S (dup2_prog real fd fd') 0" "safe S (dup3_prog real fd fd' flags) 0" "safe S (fcntl_prog real fd cmd a) 0"
  by (simp_all add: close_prog_def closedir_prog_def dup_prog_def dup2_prog_def dup3_prog_def fcntl_prog_def Let_def)

lemma path_calls_safe:
  "safe S (stat_prog real path) 0" "safe S (fstat_prog real fd) 0" "safe S (fstatat_prog real dirfd path fl) 0"
  "safe S (fdopendir_prog real fd) 0"
  by (auto simp: stat_prog_def fstat_prog_def fstatat_prog_def fdopendir_prog_def Let_def denied_initialized
      good_initialized split: effective_path.split option.split)

lemma directory_calls_safe:
  "safe S (readdir_prog real d) 0" "safe S (readdir64_prog real d) 0" "safe S (getdents64_prog real fd n) 0"
  by (auto simp: readdir_prog_def readdir64_prog_def readdir_common_prog_def getdents64_prog_def get_tracked_def
      readdir_loop_prog_safe good_initialized Let_def case_prod_beta split: option.split)

lemma read_prog_safe: "safe S (read_prog real fd null n) 0"
  by (auto simp: read_prog_def Let_def case_prod_beta split: option.split)

lemma ioctl_prog_safe: "safe S (ioctl_prog real fd request a) 0"
  by (auto intro!: filter_after_prog_safe simp: ioctl_prog_def get_tracked_def good_initialized Let_def split: option.split)

lemma memory_calls_safe:
  "safe S (sysinfo_prog ul real null) 0" "safe S (sysconf_prog l real name) 0"
  by (auto simp: sysinfo_prog_def sysconf_prog_def good_initialized Let_def case_prod_beta split: option.split)

lemma call_safe: "is_call ul l real p \<Longrightarrow> safe S p 0"
  by (induction rule: is_call.induct)
    (rule opens_safe fopen_prog_safe descriptor_calls_safe path_calls_safe directory_calls_safe read_prog_safe
      ioctl_prog_safe memory_calls_safe)+

lemma threads_step_safe:
  assumes "threads_step ul l real ts st ts' st'" and "good S st" "\<forall>t \<in> set ts. safe S (th_prog t) (th_depth t)"
  shows "good S st' \<and> (\<forall>t \<in> set ts'. safe S (th_prog t) (th_depth t))"
proof -
  have put: "\<forall>t \<in> set (ts[i := t']). safe S (th_prog t) (th_depth t)" if "safe S (th_prog t') (th_depth t')" for i t'
    using assms(3) that set_update_subset_insert [of ts i t'] by blast
  have depth: "sh_depth (view t st) = th_depth t" and seen: "good S (view t st)" for t
    using assms(2) by (simp_all add: view_def)
  have here: "safe S (th_prog (ts ! i)) (th_depth (ts ! i))" if "i < length ts" for i
    using assms(3) that by simp
  show ?thesis
    using assms(1)
  proof cases
    case (spawn e r)
    with assms(2,3) show ?thesis by auto
  next
    case (begins i r p)
    with here [of i] have "safe S p (th_depth (ts ! i))" by (simp add: call_safe)
    with begins assms(2) put [of "(ts ! i)\<lparr>th_prog := p\<rparr>" i] show ?thesis by simp
  next
    case (acts i f k v)
    with here [of i] seen depth have "good S (f v) \<and> safe S (k v) (sh_depth (f v))" by simp
    with acts put [of "suspend (k v) (f v)" i] show ?thesis by (simp add: suspend_def)
  next
    case (elsewhere os)
    with assms(2,3) show ?thesis by simp
  qed
qed

lemma threads_reach_safe:
  "threads_reach ul l real ts st \<Longrightarrow> \<exists>S. good S st \<and> (\<forall>t \<in> set ts. safe S (th_prog t) (th_depth t))"
proof (induction rule: threads_reach.induct)
  case (started os)
  have "reachable ul l real (runpod_shim_init real (shim_zero os))" by (rule loaded)
  from reachable_ok [OF this] reachable_visible [OF this] show ?case
    by (intro exI [of _ "setup_of (runpod_shim_init real (shim_zero os))"]) (simp add: good_def shim_ok_def)
next
  case (goes_on ts st ts' st')
  then show ?case by (blast dest: threads_step_safe)
qed

section \<open>A schedule\<close>

definition act :: "nat \<Rightarrow> 'w shim_thread list \<times> 'w shim \<Rightarrow> 'w shim_thread list \<times> 'w shim" where
  "act i c = (case th_prog (fst c ! i) of
     Return _ \<Rightarrow> c
   | Atomic f k \<Rightarrow> let v = view (fst c ! i) (snd c) in ((fst c)[i := suspend (k v) (f v)], f v))"

lemma act_reaches:
  "threads_reach ul l real (fst c) (snd c) \<Longrightarrow> i < length (fst c) \<Longrightarrow>
     threads_reach ul l real (fst (act i c)) (snd (act i c)) \<and> length (fst (act i c)) = length (fst c)"
  by (auto simp: act_def Let_def intro: goes_on acts split: prog.split)

lemma acts_reach:
  "threads_reach ul l real (fst c) (snd c) \<Longrightarrow> \<forall>i \<in> set is. i < length (fst c) \<Longrightarrow>
     threads_reach ul l real (fst (fold act is c)) (snd (fold act is c))"
proof (induction "is" arbitrary: c)
  case (Cons i "is")
  then show ?case using act_reaches [of ul l real c i] by simp
qed simp

text \<open>
  Libc gives the lowest free descriptor: a directory stream on descriptor 7 is being closed
  by one thread while another one opens the GPU directory.
\<close>

definition reuse_real :: "demo_world real" where
  "reuse_real = demo_real\<lparr>re_open := (\<lambda>_ _ _ os. (7, os))\<rparr>"

definition reuse_start :: "demo_world shim_thread list \<times> demo_world shim" where
  "reuse_start =
     ([\<lparr>th_depth = 0, th_errno = 0, th_prog = closedir_prog reuse_real 3\<rparr>,
       \<lparr>th_depth = 0, th_errno = 0, th_prog = open_prog reuse_real False (Some gpus_base) 0 0\<rparr>],
      runpod_shim_init reuse_real (shim_zero demo_os))"

definition returned :: "'w shim_thread \<Rightarrow> ret option" where
  "returned t = (case th_prog t of Return r \<Rightarrow> Some r | Atomic _ _ \<Rightarrow> None)"

lemma reuse_start_reachable: "threads_reach ul l reuse_real (fst reuse_start) (snd reuse_start)"
proof -
  let ?idle = "\<lparr>th_depth = 0, th_errno = 0, th_prog = Return (Ret_int 0)\<rparr>"
  let ?A = "\<lparr>th_depth = 0, th_errno = 0, th_prog = closedir_prog reuse_real 3\<rparr>"
  let ?B = "\<lparr>th_depth = 0, th_errno = 0, th_prog = open_prog reuse_real False (Some gpus_base) 0 0\<rparr>"
  let ?st = "runpod_shim_init reuse_real (shim_zero demo_os)"
  have "threads_reach ul l reuse_real [] ?st" by (rule started)
  from goes_on [OF this spawn] have "threads_reach ul l reuse_real [?idle] ?st" by simp
  from goes_on [OF this spawn] have two: "threads_reach ul l reuse_real [?idle, ?idle] ?st" by simp
  have "threads_step ul l reuse_real [?idle, ?idle] ?st [?A, ?idle] ?st"
    using begins [of 0 "[?idle, ?idle]" "Ret_int 0" ul l reuse_real "closedir_prog reuse_real 3" ?st]
    by (simp add: is_call.intros)
  from goes_on [OF two this] have one: "threads_reach ul l reuse_real [?A, ?idle] ?st" .
  have "threads_step ul l reuse_real [?A, ?idle] ?st [?A, ?B] ?st"
    using begins [of 1 "[?A, ?idle]" "Ret_int 0" ul l reuse_real "open_prog reuse_real False (Some gpus_base) 0 0" ?st]
    by (simp add: is_call.intros)
  from goes_on [OF one this] show ?thesis by (simp add: reuse_start_def)
qed

text \<open>
  The closing thread's last action forgets the other thread's descriptor: the GPU directory
  is open on descriptor 7 and not tracked, so that its listing is not filtered. \<open>close\<close>, which
  forgets the descriptor before libc closes it, has no such schedule.
\<close>

lemma reuse_start_eq:
  "reuse_start =
     ([\<lparr>th_depth = 0, th_errno = 0, th_prog = closedir_prog reuse_real 3\<rparr>,
       \<lparr>th_depth = 0, th_errno = 0, th_prog = open_prog reuse_real False (Some gpus_base) 0 0\<rparr>], demo_start)"
  by (simp add: reuse_start_def demo_start_def runpod_shim_init_def get_config_def reuse_real_def case_prod_beta)

lemmas act_simps = act_def view_def suspend_def atomic_def update_def

lemma reuse_calls:
  "re_open reuse_real path flags m os = (7, os)" "re_closedir reuse_real d os = (0, os)" "re_dirfd reuse_real d os = 7"
  "re_malloc_ok reuse_real k w"
  by (simp_all add: reuse_real_def demo_real_def)

lemma gpus_base_plain:
  "rps_gpu_proc_path_allowed allowed (Some gpus_base) = RPS_GPU_PROC_ALLOW" "gpus_base \<noteq> ''/proc/meminfo''"
  by code_simp+

lemma opened_in_between:
  "fold act [0, 0, 1, 1, 1, 1] reuse_start =
     ([\<lparr>th_depth = 0, th_errno = 0, th_prog = update (untrack 7) (Return (Ret_int 0))\<rparr>,
       \<lparr>th_depth = 0, th_errno = 0, th_prog = Return (Ret_int 7)\<rparr>],
      demo_start\<lparr>sh_gpu_fds := [(7, snd (rps_gpu_classify_path (Some gpus_base)))]\<rparr>)"
  by (simp add: reuse_start_eq act_simps closedir_prog_def open_prog_def attach_prog_def reuse_calls
      gpus_base_plain demo_start_eq demo_os_def call_real_def Let_def gpu_proc_denied_def get_config_def
      rps_config_get_def should_virtualize_meminfo_def gpu_trace_and_track_open_def classify_gpus_base
      rps_gpu_fd_map_set_def rps_gpu_video_enabled_def)

lemma closedir_forgets_new_descriptor:
  "map returned (fst (fold act [0, 0, 1, 1, 1, 1, 0] reuse_start)) = [Some (Ret_int 0), Some (Ret_int 7)]"
  "map_of (sh_gpu_fds (snd (fold act [0, 0, 1, 1, 1, 1] reuse_start))) 7 \<noteq> None"
  "sh_gpu_fds (snd (fold act [0, 0, 1, 1, 1, 1, 0] reuse_start)) = []"
proof -
  have last: "fold act [0, 0, 1, 1, 1, 1, 0] reuse_start = act 0 (fold act [0, 0, 1, 1, 1, 1] reuse_start)" by simp
  show "map returned (fst (fold act [0, 0, 1, 1, 1, 1, 0] reuse_start)) = [Some (Ret_int 0), Some (Ret_int 7)]"
    "map_of (sh_gpu_fds (snd (fold act [0, 0, 1, 1, 1, 1] reuse_start))) 7 \<noteq> None"
    "sh_gpu_fds (snd (fold act [0, 0, 1, 1, 1, 1, 0] reuse_start)) = []"
    unfolding last opened_in_between
    by (simp_all add: act_simps returned_def untrack_def rps_gpu_fd_map_remove_def Let_def)
qed

section \<open>Properties\<close>

text \<open>
  C6. The tables survive every interleaving: any number of threads run any of the interposed
  functions, each of them a sequence of single calls of libc, single critical sections and
  single accesses to files and to the caller's memory, and the actions of the threads and
  changes of the system are interleaved in any way. In every state reached the tables are well
  formed, no thread that has returned is left inside the guard, and no tracked descriptor is
  recorded as a hidden GPU's directory or file.
\<close>

theorem threads_keep_invariant:
  assumes "threads_reach ulong_max long_max real ts st"
  shows "fd_map_ok (sh_fd_map st) \<and> gpu_fds_ok (sh_gpu_fds st) \<and> gpu_ids_ok (sh_gpu_ids st) \<and>
    mem_state_ok (sh_memory st) \<and>
    (\<forall>t r. t \<in> set ts \<and> th_prog t = Return r \<longrightarrow> th_depth t = 0) \<and>
    (\<forall>fd r. sh_ready st \<and> map_of (sh_gpu_fds st) fd = Some r \<and>
        fr_kind r \<in> {RPS_GPU_FD_PROC_GPU_BUS_DIR, RPS_GPU_FD_PROC_GPU_INFO} \<longrightarrow>
      fr_bus_id r \<in> gi_bus_id ` set (ga_gpus (sh_allowed st)))"
proof -
  obtain S where good: "good S st" and safe: "\<forall>t \<in> set ts. safe S (th_prog t) (th_depth t)"
    using threads_reach_safe [OF assms] by blast
  have "fr_bus_id r \<in> gi_bus_id ` set (ga_gpus (sh_allowed st))"
    if "sh_ready st" "map_of (sh_gpu_fds st) fd = Some r"
      "fr_kind r \<in> {RPS_GPU_FD_PROC_GPU_BUS_DIR, RPS_GPU_FD_PROC_GPU_INFO}" for fd r
    using good that imageI [OF map_of_SomeD [OF that(2)], of snd]
    by (auto simp: good_def tracked_visible_def gpu_record_visible_def)
  moreover have "th_depth t = 0" if "t \<in> set ts" "th_prog t = Return r" for t r
    using safe that by fastforce
  ultimately show ?thesis using good unfolding good_def static_ok_def by blast
qed

theorem threads_keep_invariant_witness:
  "gpu_fds_ok (sh_gpu_fds (snd (fold act [0, 0, 1, 1, 1, 1] reuse_start))) \<and>
   fd_map_ok (sh_fd_map (snd (fold act [0, 0, 1, 1, 1, 1] reuse_start))) \<and>
   th_depth (fst (fold act [0, 0, 1, 1, 1, 1] reuse_start) ! 1) = 0"
proof -
  have "fst (fold act [0, 0, 1, 1, 1, 1] reuse_start) ! 1 \<in> set (fst (fold act [0, 0, 1, 1, 1, 1] reuse_start))"
    "th_prog (fst (fold act [0, 0, 1, 1, 1, 1] reuse_start) ! 1) = Return (Ret_int 7)"
    unfolding opened_in_between by simp_all
  with threads_keep_invariant [OF acts_reach [OF reuse_start_reachable [of 0 0], of "[0, 0, 1, 1, 1, 1]"]]
  show ?thesis by (simp add: reuse_start_def del: fold_simps)
qed

end
