(* ===== verification/Preload_Memory.thy ===== *)
theory Preload_Memory
  imports Preload_Gpu
begin

text \<open>
  What the hooks make of memory: \<open>/proc/meminfo\<close> read through a descriptor or a stream, and
  the numbers of \<open>sysinfo\<close> and \<open>sysconf\<close>.
\<close>

section \<open>Virtual content: lemmas\<close>

text \<open>Reads of descriptor \<open>fd\<close>, one after the other, into buffers of the given sizes.\<close>

primrec read_seq ::
    "'w real \<Rightarrow> int \<Rightarrow> nat list \<Rightarrow> 'w shim \<Rightarrow> (int \<times> string) list \<times> 'w shim" where
  "read_seq real fd [] st = ([], st)"
| "read_seq real fd (n # ns) st =
     (let (r, st) = hook_read real fd False n st; (rs, st) = read_seq real fd ns st in (r # rs, st))"

lemma hook_read_virtual:
  assumes ok: "shim_ok st" and lock: "re_lock_ok real Fd_map_lock (the_world st)"
    and v: "fd_map_lookup (sh_fd_map st) fd = Some rest"
  obtains m where "hook_read real fd False n st =
      ((int (length (take n rest)), take n rest), st\<lparr>sh_fd_map := m\<rparr>)"
    "fd_map_lookup m fd = Some (drop n rest)" "shim_ok (st\<lparr>sh_fd_map := m\<rparr>)"
proof -
  obtain res m where r: "rps_fd_map_take_read True fd False n (sh_fd_map st) = (res, m)" by fastforce
  from take_read_hit [OF shim_ok_tables(2) [OF ok] v _ r]
  have res: "res = Some (take n rest)" "fd_map_ok m" "fd_map_lookup m fd = Some (drop n rest)" by simp_all
  have depth: "sh_depth st = 0" using ok by (rule shim_ok_static(2))
  have same: "st\<lparr>sh_depth := 0, sh_fd_map := m\<rparr> = st\<lparr>sh_fd_map := m\<rparr>" 
    using depth by (cases st) simp
  have "hook_read real fd False n st = ((int (length (take n rest)), take n rest), st\<lparr>sh_fd_map := m\<rparr>)"
    using lock depth r res(1) same by (simp add: hook_read_def the_world_def Let_def)
  moreover have "shim_ok (st\<lparr>sh_fd_map := m\<rparr>)"
    using ok res(2) by (simp add: shim_ok_def static_ok_def)
  ultimately show ?thesis using that res(3) by blast
qed

lemma read_seq_virtual:
  assumes "shim_ok st" "re_lock_ok real Fd_map_lock (the_world st)"
    and "fd_map_lookup (sh_fd_map st) fd = Some rest"
  shows "concat (map snd (fst (read_seq real fd ns st))) = take (sum_list ns) rest \<and>
    (\<forall>r \<in> set (fst (read_seq real fd ns st)). fst r = int (length (snd r))) \<and>
    sh_os (snd (read_seq real fd ns st)) = sh_os st"
  using assms
proof (induction ns arbitrary: st rest)
  case (Cons n ns)
  from hook_read_virtual [OF Cons.prems] obtain m where m:
    "hook_read real fd False n st = ((int (length (take n rest)), take n rest), st\<lparr>sh_fd_map := m\<rparr>)"
    "fd_map_lookup m fd = Some (drop n rest)" "shim_ok (st\<lparr>sh_fd_map := m\<rparr>)" by blast
  let ?st = "st\<lparr>sh_fd_map := m\<rparr>"
  have "re_lock_ok real Fd_map_lock (the_world ?st)" using Cons.prems(2) by (simp add: the_world_def)
  from Cons.IH [OF m(3) this, of "drop n rest"] m(1,2) show ?case
    by (simp add: case_prod_beta take_add)
qed simp

lemma put_succeeds:
  assumes "0 \<le> fd" and "\<exists>e \<in> set es. entry_of fd e \<or> \<not> fe_active e"
  shows "fst (rps_fd_map_put True True fd (Some d) n es)"
  using assms
  by (auto simp: rps_fd_map_put_def Let_def find_index_None_iff split: option.split)

lemma meminfo_not_gpu:
  "rps_gpu_proc_path_allowed a (Some ''/proc/meminfo'') \<noteq> RPS_GPU_PROC_DENY"
  "fst (rps_gpu_classify_path (Some ''/proc/meminfo'')) = False"
proof -
  have "rps_gpu_proc_normalize_path (Some ''/proc/meminfo'') RPS_GPU_PROC_PATH_MAX = Some ''/proc/meminfo''"
    by code_simp
  then have "\<not> path_names_bus ''/proc/meminfo'' bus" for bus
    by (simp add: path_names_bus_def gpus_base_def)
  then show "rps_gpu_proc_path_allowed a (Some ''/proc/meminfo'') \<noteq> RPS_GPU_PROC_DENY"
    by (simp add: path_denied_iff)
  show "fst (rps_gpu_classify_path (Some ''/proc/meminfo'')) = False" by code_simp
qed

section \<open>Streams: lemmas\<close>

text \<open>
  What \<open>fopen\<close> relies on for its private file on descriptor \<open>fd\<close>: a new file is empty, a
  write appends some of the bytes or is interrupted (with \<open>EINTR\<close>, \<open>m\<close> bounding how often),
  and rewinding and \<open>fdopen\<close> succeed and leave the content alone. \<open>content\<close> is the file.
\<close>

definition memfd_works ::
    "'w real \<Rightarrow> int \<Rightarrow> nat \<Rightarrow> ('w os \<Rightarrow> nat) \<Rightarrow> ('w os \<Rightarrow> string) \<Rightarrow> bool" where
  "memfd_works real fd fp m content \<longleftrightarrow>
     (\<forall>os. fst (re_memfd_create real os) = fd \<and> content (snd (re_memfd_create real os)) = []) \<and>
     (\<forall>buf os out os'. buf \<noteq> [] \<and> re_write real fd buf os = (out, os') \<longrightarrow>
        (0 < out \<and> out \<le> int (length buf) \<and> content os' = content os @ take (nat out) buf \<and> m os' \<le> m os) \<or>
        (out < 0 \<and> os_errno os' = EINTR \<and> content os' = content os \<and> m os' < m os)) \<and>
     (\<forall>os. fst (re_lseek_start real fd os) = 0 \<and> content (snd (re_lseek_start real fd os)) = content os) \<and>
     (\<forall>os. fst (re_fdopen real fd ''r'' os) = Some fp \<and> content (snd (re_fdopen real fd ''r'' os)) = content os)"

lemma write_all_returns:
  assumes works: "memfd_works real fd fp m content"
  shows "\<exists>st'. write_all_fd real fd buf st = Some (True, st') \<and> same_statics st st' \<and>
    content (sh_os st') = content (sh_os st) @ buf"
proof (induction "length buf + m (sh_os st)" arbitrary: buf st rule: less_induct)
  case less
  show ?case
  proof (cases "buf = []")
    case True
    then have "write_all_fd real fd buf st = Some (True, st)" by (subst write_all_fd.simps) simp
    with True show ?thesis by (intro exI [of _ st]) simp
  next
    case False
    obtain out os' where w: "re_write real fd buf (sh_os st) = (out, os')" by fastforce
    let ?st = "st\<lparr>sh_os := os'\<rparr>"
    have st: "same_statics st ?st" by (simp add: same_statics_def)
    from works False w consider
        (some) "0 < out" "out \<le> int (length buf)" "content os' = content (sh_os st) @ take (nat out) buf"
          "m os' \<le> m (sh_os st)"
      | (again) "out < 0" "os_errno os' = EINTR" "content os' = content (sh_os st)" "m os' < m (sh_os st)"
      unfolding memfd_works_def by blast
    then show ?thesis
    proof cases
      case some
      then have "length (drop (nat out) buf) + m (sh_os ?st) < length buf + m (sh_os st)" by auto
      from less [OF this] obtain st' where
        "write_all_fd real fd (drop (nat out) buf) ?st = Some (True, st')" "same_statics ?st st'"
        "content (sh_os st') = content os' @ drop (nat out) buf" by auto
      with False w some show ?thesis
        using same_statics_trans [OF st] by (subst write_all_fd.simps) (auto simp: call_real_def)
    next
      case again
      then have "length buf + m (sh_os ?st) < length buf + m (sh_os st)" by simp
      from less [OF this] obtain st' where
        "write_all_fd real fd buf ?st = Some (True, st')" "same_statics ?st st'"
        "content (sh_os st') = content os' @ buf" by auto
      with False w again show ?thesis
        using same_statics_trans [OF st] by (subst write_all_fd.simps) (auto simp: call_real_def)
    qed
  qed
qed

lemma fopen_memfd_works:
  assumes "memfd_works real fd fp m content" and "0 \<le> fd"
  shows "\<exists>st'. fopen_memfd real d st = Some (Some fp, st') \<and> same_statics st st' \<and> content (sh_os st') = d"
proof -
  obtain st1 where c: "call_real (re_memfd_create real) st = (fd, st1)" "content (sh_os st1) = []"
    using assms(1) by (simp add: memfd_works_def call_real_def case_prod_beta prod_eq_iff)
  then have st1: "same_statics st st1" using same_statics_call [of st "re_memfd_create real"] by simp
  from write_all_returns [OF assms(1), of d st1] obtain st2 where
    w: "write_all_fd real fd d st1 = Some (True, st2)" "same_statics st1 st2" "content (sh_os st2) = d"
    using c(2) by auto
  obtain st3 where s: "call_real (re_lseek_start real fd) st2 = (0, st3)" "content (sh_os st3) = d"
    using assms(1) w(3) by (simp add: memfd_works_def call_real_def case_prod_beta prod_eq_iff)
  then have st3: "same_statics st2 st3" using same_statics_call [of st2 "re_lseek_start real fd"] by simp
  obtain st4 where f: "call_real (re_fdopen real fd ''r'') st3 = (Some fp, st4)" "content (sh_os st4) = d"
    using assms(1) s(2) by (simp add: memfd_works_def call_real_def case_prod_beta prod_eq_iff)
  then have st4: "same_statics st3 st4" using same_statics_call [of st3 "re_fdopen real fd ''r''"] by simp
  have "fopen_memfd real d st = Some (Some fp, st4)"
    using assms(2) by (simp add: fopen_memfd_def c(1) w(1) s(1) f(1))
  with st1 w(2) st3 st4 f(2) show ?thesis by (blast intro: same_statics_trans)
qed

section \<open>The memory numbers: lemmas\<close>

lemma sysinfo_scale_result:
  "sysinfo_scale u s scale = Some k \<Longrightarrow> unat scale = 2 ^ j \<Longrightarrow>
     snap_total s div k \<le> u \<and> snap_available s div k \<le> u \<and> (\<exists>i \<ge> j. unat k = 2 ^ i)"
proof (induction u s scale arbitrary: j rule: sysinfo_scale.induct)
  case (1 u s scale)
  show ?case
  proof (cases "snap_total s div scale > u \<or> snap_available s div scale > u")
    case True
    with 1(2) have small: "\<not> scale > 0xFFFFFFFF div 2"
      and rest: "sysinfo_scale u s (push_bit 1 scale) = Some k"
      by (auto simp: sysinfo_scale.simps [of u s scale] split: if_splits)
    have "scale \<noteq> 0" using 1(3) by auto
    from sysinfo_scale_grows(1) [OF this small] 1(3) have "unat (push_bit 1 scale) = 2 ^ Suc j" by simp
    from 1(1) [OF True small rest this] show ?thesis by (auto intro: Suc_leD)
  next
    case False
    with 1(2,3) show ?thesis by (auto simp: sysinfo_scale.simps [of u s scale] not_less)
  qed
qed

lemma div_scale_bounds:
  fixes a k :: u64
  assumes "k \<noteq> 0"
  shows "unat (a div k) * unat k \<le> unat a \<and> unat a < (unat (a div k) + 1) * unat k"
proof -
  have k: "0 < unat k" using assms by (simp add: unat_gt_0)
  have "unat (a div k) * unat k \<le> unat a" by (simp add: unat_div)
  moreover have "unat a < (unat (a div k) + 1) * unat k"
    using k div_less_iff_less_mult [of "unat k" "unat a" "unat (a div k) + 1"] by (simp add: unat_div)
  ultimately show ?thesis by blast
qed

lemma encode_lp64: "encode_sysinfo_memory (- 1) s = Some (snap_total s, snap_available s, 1)"
  by (simp add: encode_sysinfo_memory_def sysinfo_scale.simps [of "- 1"] word_order.extremum not_less)

text \<open>A detected limit is below \<open>2 ^ 63\<close>, so a scale of \<open>2 ^ 31\<close> always fits 32 bits.\<close>

lemma sysinfo_scale_fits:
  "unat scale = 2 ^ j \<Longrightarrow> j \<le> 31 \<Longrightarrow> 0xFFFFFFFF \<le> u \<Longrightarrow>
   unat (snap_total s) < 2 ^ 63 \<Longrightarrow> snap_available s \<le> snap_total s \<Longrightarrow>
     \<exists>k. sysinfo_scale u s scale = Some k \<and> unat k \<le> 2 ^ 31"
proof (induction u s scale arbitrary: j rule: sysinfo_scale.induct)
  case (1 u s scale)
  show ?case
  proof (cases "snap_total s div scale > u \<or> snap_available s div scale > u")
    case True
    have u: "unat u \<ge> 2 ^ 32 - 1" using 1(4) by (simp add: word_le_nat_alt)
    have "unat (snap_total s div scale) > unat u \<or> unat (snap_available s div scale) > unat u"
      using True by (simp add: word_less_nat_alt)
    then have "unat u < unat (snap_total s) div 2 ^ j"
      using 1(2,6) div_le_mono [of "unat (snap_available s)" "unat (snap_total s)" "2 ^ j"]
      by (auto simp: unat_div word_le_nat_alt)
    moreover have "unat (snap_total s) div 2 ^ 31 < 2 ^ 32" using 1(5) by (simp add: less_mult_imp_div_less)
    ultimately have "j \<noteq> 31" using u by auto
    then have j: "Suc j \<le> 31" using 1(3) by simp
    then have "(2 :: nat) ^ Suc j \<le> 2 ^ 31" by (intro power_increasing) simp_all
    then have small: "\<not> scale > 0xFFFFFFFF div 2" using 1(2) by (simp add: word_less_nat_alt)
    have "scale \<noteq> 0" using 1(2) by auto
    from sysinfo_scale_grows(1) [OF this small] 1(2) have "unat (push_bit 1 scale) = 2 ^ Suc j" by simp
    from 1(1) [OF True small this j 1(4-6)] True small show ?thesis
      by (simp add: sysinfo_scale.simps [of u s scale])
  next
    case False
    have "(2 :: nat) ^ j \<le> 2 ^ 31" using 1(3) by (intro power_increasing) simp_all
    with False 1(2) show ?thesis by (simp add: sysinfo_scale.simps [of u s scale])
  qed
qed

lemma encode_sysinfo_fits:
  assumes "0xFFFFFFFF \<le> u" "snap_total s < RPS_CGROUP_UNLIMITED_SENTINEL" "snap_available s \<le> snap_total s"
  obtains k i where "encode_sysinfo_memory u s = Some (snap_total s div k, snap_available s div k, ucast k)"
    "unat k = 2 ^ i" "unat (ucast k :: u32) = unat k" "snap_total s div k \<le> u" "snap_available s div k \<le> u"
proof -
  have "unat (snap_total s) < unat RPS_CGROUP_UNLIMITED_SENTINEL"
    using assms(2) by (simp add: word_less_nat_alt)
  then have "unat (snap_total s) < 2 ^ 63" by (simp add: RPS_CGROUP_UNLIMITED_SENTINEL_def)
  with sysinfo_scale_fits [of 1 0 u s] assms obtain k where
    k: "sysinfo_scale u s 1 = Some k" "unat k \<le> 2 ^ 31" by auto
  from sysinfo_scale_result [OF k(1), of 0] obtain i where i:
    "unat k = 2 ^ i" "snap_total s div k \<le> u" "snap_available s div k \<le> u" by auto
  have "unat (ucast k :: u32) = unat k" using k(2) by (simp add: unsigned_ucast_eq take_bit_nat_eq_self)
  moreover have "\<not> k > 0xFFFFFFFF" using k(2) by (simp add: word_less_nat_alt)
  ultimately show ?thesis using that [of k i] k(1) i by (simp add: encode_sysinfo_memory_def)
qed

lemma snapshot_of_state:
  assumes "shim_ok st" "rps_memory_snapshot env fs lock (sh_memory st) = (Some s, ms)"
  shows "snap_total s < RPS_CGROUP_UNLIMITED_SENTINEL" "snap_available s \<le> snap_total s"
proof -
  have "mem_state_ok (sh_memory st)" using assms(1) by (simp add: shim_ok_def static_ok_def)
  from memory_snapshot_step [OF this assms(2)]
  show "snap_total s < RPS_CGROUP_UNLIMITED_SENTINEL" "snap_available s \<le> snap_total s" by auto
qed

text \<open>
  The virtual content of a descriptor outlives a close that does not pass the hook: \<open>open\<close> of
  another path looks at \<open>/proc/meminfo\<close> only, so when libc hands the number out again the
  next reads still deliver the old text.
\<close>

lemma stale_virtual_content:
  assumes "reachable ulong_max long_max real st"
    and "fd_map_lookup (sh_fd_map st) fd = Some rest" and "path \<noteq> ''/proc/meminfo''"
    and "hook_open real b (Some path) flags va_mode st = (fd, st1)"
    and "re_lock_ok real Fd_map_lock (the_world st1)"
  shows "fst (hook_read real fd False n st1) = (int (length (take n rest)), take n rest)"
proof -
  note ok = reachable_ok [OF assms(1)]
  have "sh_fd_map (snd (hook_open real b (Some path) flags va_mode st)) = sh_fd_map st"
    using assms(3) shim_ok_static(3) [OF ok]
    by (simp add: hook_open_def open_common_def Let_def case_prod_beta denied_initialized
        gpu_open_denied_path_def maybe_attach_meminfo_def should_virtualize_meminfo_def)
  then have v: "fd_map_lookup (sh_fd_map st1) fd = Some rest" using assms(2,4) by simp
  have "shim_ok (snd (hook_open real b (Some path) flags va_mode st))"
    using ok by (simp add: hook_open_def Let_def open_common_ok)
  then have "shim_ok st1" using assms(4) by simp
  from hook_read_virtual [OF this assms(5) v] show ?thesis by (metis fst_conv)
qed

section \<open>The demonstration system: lemmas\<close>

text \<open>What the demonstration's \<open>/proc/meminfo\<close> becomes, with the snapshot behind it.\<close>

definition demo_memory :: "rps_cgroup_memory mem_state" where
  "demo_memory = \<lparr>ms_cgmem = \<lparr>cm_version = 1, cm_limit_bytes = 2147483648, cm_current_bytes = 536870912,
         cm_limit_path = ''/sys/fs/cgroup/memory/docker/pod/memory.limit_in_bytes'',
         cm_current_path = ''/sys/fs/cgroup/memory/docker/pod/memory.usage_in_bytes''\<rparr>,
     ms_detected = True\<rparr>"

definition demo_snapshot :: rps_memory_snapshot_t where
  "demo_snapshot = \<lparr>snap_total = 2147483648, snap_available = 1610612736\<rparr>"

definition demo_text :: string where
  "demo_text = concat (map (\<lambda>l. container_line demo_snapshot l @ [LF]) meminfo_fixture)"

lemma demo_snapshot_taken:
  "rps_memory_snapshot (\<lambda>_. None) demo_fs True mem_state_init = (Some demo_snapshot, demo_memory)"
  by code_simp

lemma demo_build: "rps_proc_meminfo_build (\<lambda>_. None) demo_fs True RPS_MEMINFO_BUFFER_SIZE mem_state_init =
   (Some demo_text, demo_memory)"
proof -
  have real: "open_meminfo (\<lambda>_. None) demo_fs = Some \<lparr>st_data =
      concat (map (\<lambda>l. l @ [LF]) meminfo_fixture), st_err = False\<rparr>" by code_simp
  have "length demo_text \<le> RPS_MEMINFO_BUFFER_SIZE"
    unfolding demo_text_def demo_snapshot_def fixture_text by simp
  then show ?thesis
    using meminfo_build_lines [OF demo_snapshot_taken real fixture_lines, of RPS_MEMINFO_BUFFER_SIZE]
    by (simp add: demo_text_def)
qed

lemma demo_memory_calls:
  "re_env demo_real = (\<lambda>_ _. None)" "re_fs demo_real = (\<lambda>_. demo_fs)" "re_lock_ok demo_real = (\<lambda>_ _. True)"
  "re_open demo_real = (\<lambda>_ _ _ os. (5, os))"
  "re_sysinfo demo_real = (\<lambda>_ os. ((0, \<lparr>si_totalram = 67108864, si_freeram = 61440000, si_mem_unit = 1024,
     si_other = []\<rparr>), os))"
  "re_sysconf demo_real = (\<lambda>_ os. (4096, os))"
  by (simp_all add: demo_real_def)

lemma sysconf_pages:
  assumes "shim_ok st" "cfg_cgroup_memory (config_of st)"
    and "name \<in> {SC_PHYS_PAGES, SC_AVPHYS_PAGES}"
    and "re_sysconf real SC_PAGESIZE (sh_os st) = (int pg, os')" "0 < pg" "pg < 2 ^ 63"
    and "rps_memory_snapshot (re_env real (os_world os')) (re_fs real (os_world os'))
      (re_lock_ok real Memory_lock (os_world os')) (sh_memory st) = (Some s, ms)"
  shows "hook_sysconf long_max real name st =
      (let pages = unat (if name = SC_PHYS_PAGES then snap_total s else snap_available s) div pg;
           st' = st\<lparr>sh_os := os', sh_memory := ms\<rparr> in
       if unat long_max < pages then (-1, set_errno EOVERFLOW st') else (int pages, st')) \<and>
    unat (snap_total s) div pg \<le> 0x7FFFFFFFFFFFFFFF"
proof -
  note ok = assms(1)
  have depth: "sh_depth st = 0" and init: "cs_initialized (sh_config st)" using ok by (simp_all add: shim_ok_def)
  have same: "st\<lparr>sh_os := os', sh_memory := ms, sh_depth := 0\<rparr> = st\<lparr>sh_os := os', sh_memory := ms\<rparr>"
    using depth by (cases st) simp
  let ?bytes = "if name = SC_PHYS_PAGES then snap_total s else snap_available s"
  have pg: "unat (word_of_int (int pg) :: u64) = pg"
    using assms(6) by (simp add: unsigned_of_nat take_bit_nat_eq_self)
  have pages: "unat (?bytes div word_of_int (int pg)) = unat ?bytes div pg"
    by (simp only: unat_div pg)
  have "hook_sysconf long_max real name st =
      (let pages = ?bytes div word_of_int (int pg); st' = st\<lparr>sh_os := os', sh_memory := ms\<rparr> in
       if pages > long_max then (-1, set_errno EOVERFLOW st') else (uint pages, st'))"
    using assms(2-5,7) depth init
    by (auto simp: same hook_sysconf_def call_real_def take_snapshot_def the_world_def Let_def)
  moreover have "long_max < ?bytes div word_of_int (int pg) \<longleftrightarrow> unat long_max < unat ?bytes div pg"
    unfolding word_less_nat_alt pages by (rule refl)
  moreover have "uint (?bytes div word_of_int (int pg)) = int (unat ?bytes div pg)"
    unfolding uint_nat pages by (rule refl)
  moreover have "unat (snap_total s) div pg \<le> 0x7FFFFFFFFFFFFFFF"
  proof -
    have "unat (snap_total s) \<le> unat RPS_CGROUP_UNLIMITED_SENTINEL"
      using snapshot_of_state(1) [OF ok assms(7)] by (simp add: word_less_nat_alt)
    then have "unat (snap_total s) \<le> 0x7FFFFFFFFFFFFFFF" by (simp add: RPS_CGROUP_UNLIMITED_SENTINEL_def)
    then show ?thesis by (rule le_trans [OF div_le_dividend])
  qed
  ultimately show ?thesis by (simp only: Let_def simp_thms)
qed

section \<open>Properties\<close>

text \<open>
  C13. Reading \<open>/proc/meminfo\<close> through \<open>open\<close> and \<open>read\<close> gives the container's numbers: with
  the memory module on, for flags that allow reading, a call that libc answers with a
  descriptor stores the rewritten text (while locks and \<open>malloc\<close> succeed, the text could be
  built and the table has room), and the reads of that descriptor, in buffers of any sizes,
  deliver the beginning of this text, as long as they ask for, every read returning the
  number of bytes it stored, and none of them reaching libc.
\<close>

theorem meminfo_open_read:
  assumes "reachable ulong_max long_max real st" "cfg_cgroup_memory (config_of st)"
    and "flags AND O_ACCMODE \<noteq> O_WRONLY" "flags AND O_PATH \<noteq> O_PATH"
    and "(if b then re_open64 else re_open) real (Some ''/proc/meminfo'') flags
      (if open_needs_mode flags then Some va_mode else None) (sh_os st) = (fd, os')" "0 \<le> fd"
    and "fst (rps_proc_meminfo_build (re_env real (os_world os')) (re_fs real (os_world os')) True
      RPS_MEMINFO_BUFFER_SIZE (sh_memory st)) = Some d"
    and "\<forall>l. re_lock_ok real l (os_world os')" "\<forall>m. re_malloc_ok real m (os_world os')"
    and "\<exists>e \<in> set (sh_fd_map st). entry_of fd e \<or> \<not> fe_active e"
  shows "\<exists>st1. hook_open real b (Some ''/proc/meminfo'') flags va_mode st = (fd, st1) \<and> sh_os st1 = os' \<and>
    (\<forall>ns rs st2. read_seq real fd ns st1 = (rs, st2) \<longrightarrow>
       concat (map snd rs) = take (sum_list ns) d \<and> (\<forall>r \<in> set rs. fst r = int (length (snd r))) \<and>
       sh_os st2 = os')"
proof -
  note ok = reachable_ok [OF assms(1)]
  note static = shim_ok_static(1) [OF ok]
  let ?st = "st\<lparr>sh_os := os'\<rparr>"
  let ?st1 = "snd (hook_open real b (Some ''/proc/meminfo'') flags va_mode st)"
  have step: "shim_ok ?st1" using ok by (simp add: hook_open_def Let_def open_common_ok)
  have "\<not> fst (gpu_proc_denied real (Some ''/proc/meminfo'') st)"
    using meminfo_not_gpu(1) by (simp add: denied_initialized [OF shim_ok_static(3) [OF ok]])
  then have nodeny: "gpu_proc_denied real (Some ''/proc/meminfo'') st = (False, st)"
    by (simp add: denied_initialized [OF shim_ok_static(3) [OF ok]])
  have opened: "hook_open real b (Some ''/proc/meminfo'') flags va_mode st =
      (fd, gpu_trace_and_track_open real (Some ''/proc/meminfo'') fd
             (maybe_attach_meminfo real fd (Some ''/proc/meminfo'') flags ?st))"
    using assms(5) by (cases b; cases "open_needs_mode flags") (simp_all add: hook_open_def open_common_def nodeny call_real_def Let_def)
  have init: "cs_initialized (sh_config ?st)" using static by simp
  have virt: "should_virtualize_meminfo real (Some ''/proc/meminfo'') flags ?st = (True, ?st)"
    using assms(2-4) init by (simp add: should_virtualize_initialized)
  obtain m1 where put: "rps_fd_map_put True True fd (Some d) (length d) (sh_fd_map st) = (True, m1)"
    using put_succeeds [OF assms(6,10), of d "length d"] by (cases "rps_fd_map_put True True fd (Some d) (length d) (sh_fd_map st)") auto
  have "sh_fd_map (maybe_attach_meminfo real fd (Some ''/proc/meminfo'') flags ?st) = m1"
    using assms(6-9) shim_ok_static(2) [OF ok] put virt
    by (simp add: maybe_attach_meminfo_def build_meminfo_def the_world_def Let_def case_prod_beta)
  then have map: "sh_fd_map ?st1 = m1" using opened init by simp
  have os: "sh_os ?st1 = os'" using opened init by simp
  have "fd_map_lookup m1 fd = Some d"
    using put_result [OF shim_ok_tables(2) [OF ok] order_refl put] by simp
  moreover have "re_lock_ok real Fd_map_lock (the_world ?st1)" using os assms(8) by (simp add: the_world_def)
  ultimately have "concat (map snd (fst (read_seq real fd ns ?st1))) = take (sum_list ns) d \<and>
    (\<forall>r \<in> set (fst (read_seq real fd ns ?st1)). fst r = int (length (snd r))) \<and>
    sh_os (snd (read_seq real fd ns ?st1)) = os'" for ns
    using read_seq_virtual [OF step, of real fd d ns] map os by simp
  moreover have "hook_open real b (Some ''/proc/meminfo'') flags va_mode st = (fd, ?st1)"
    using opened by (simp add: prod_eq_iff)
  ultimately show ?thesis using os by (metis fst_conv snd_conv)
qed

theorem meminfo_open_read_witness:
  "\<exists>st1. hook_open demo_real False (Some ''/proc/meminfo'') 0 0 demo_start = (5, st1) \<and>
     concat (map snd (fst (read_seq demo_real 5 [10, 20, 1000] st1))) =
       ''MemTotal:         2097152 kB'' @ [LF] @ ''MemFree:         1572864 kB'' @ [LF] @
       ''Buffers: 7 kB'' @ [LF] \<and> sh_os (snd (read_seq demo_real 5 [10, 20, 1000] st1)) = demo_os"
proof -
  have room: "\<exists>e \<in> set (sh_fd_map demo_start). entry_of 5 e \<or> \<not> fe_active e"
    by (simp add: demo_start_eq fd_entries_init_def RPS_FD_MAP_CAPACITY_def)
  have on: "cfg_cgroup_memory (config_of demo_start)" by (simp add: demo_start_eq)
  have build: "fst (rps_proc_meminfo_build (re_env demo_real (os_world demo_os)) (re_fs demo_real (os_world demo_os))
      True RPS_MEMINFO_BUFFER_SIZE (sh_memory demo_start)) = Some demo_text"
    by (simp add: demo_memory_calls demo_start_eq demo_build)
  have flags: "(0 :: u32) AND O_ACCMODE \<noteq> O_WRONLY" "(0 :: u32) AND O_PATH \<noteq> O_PATH"
    by (simp_all add: O_WRONLY_def O_PATH_def)
  have call: "(if False then re_open64 else re_open) demo_real (Some ''/proc/meminfo'') 0
      (if open_needs_mode 0 then Some 0 else None) (sh_os demo_start) = (5, demo_os)"
    by (simp add: demo_memory_calls demo_start_eq)
  have all: "\<forall>l. re_lock_ok demo_real l (os_world demo_os)" "\<forall>m. re_malloc_ok demo_real m (os_world demo_os)"
    by (simp_all add: demo_memory_calls demo_calls)
  have fd: "0 \<le> (5 :: int)" by simp
  obtain st1 where st1: "hook_open demo_real False (Some ''/proc/meminfo'') 0 0 demo_start = (5, st1)"
    "\<And>ns rs st2. read_seq demo_real 5 ns st1 = (rs, st2) \<Longrightarrow>
       concat (map snd rs) = take (sum_list ns) demo_text \<and> sh_os st2 = demo_os"
    using meminfo_open_read [OF demo_start_ok(2) on flags call fd build all room] by blast
  have shown: "take 1030 demo_text = ''MemTotal:         2097152 kB'' @ [LF] @
      ''MemFree:         1572864 kB'' @ [LF] @ ''Buffers: 7 kB'' @ [LF]"
    unfolding demo_text_def demo_snapshot_def fixture_text by simp
  have "sum_list [10, 20, 1000] = (1030 :: nat)" by simp
  with st1(1) st1(2) [OF prod.collapse [symmetric], of "[10, 20, 1000]"] shown show ?thesis by metis
qed

text \<open>
  C14. Reading \<open>/proc/meminfo\<close> through a stream: with the memory module on, \<open>fopen\<close> (or
  \<open>fopen64\<close>) in a read-only mode returns, and what it returns is a stream on a private file
  that holds exactly the rewritten text, however many pieces the writing took and however
  often (a bounded number of times) it was interrupted. Libc's own \<open>fopen\<close> is not called,
  and the guard is free again.
\<close>

theorem meminfo_fopen:
  assumes "reachable ulong_max long_max real st" "cfg_cgroup_memory (config_of st)"
    and "meminfo_mode_is_read_only mode"
    and "fst (rps_proc_meminfo_build (re_env real (the_world st)) (re_fs real (the_world st))
      (re_lock_ok real Memory_lock (the_world st)) RPS_MEMINFO_BUFFER_SIZE (sh_memory st)) = Some d"
    and "memfd_works real fd fp m content" "0 \<le> fd"
  shows "\<exists>st'. fopen_common real (Some ''/proc/meminfo'') mode use_fopen64 st = Some (Some fp, st') \<and>
    content (sh_os st') = d \<and> sh_depth st' = 0"
proof -
  note ok = reachable_ok [OF assms(1)]
  have init: "cs_initialized (sh_config st)" and depth: "sh_depth st = 0"
    using ok by (simp_all add: shim_ok_def)
  have virt: "should_virtualize_meminfo real (Some ''/proc/meminfo'') O_RDONLY st = (True, st)"
    using init assms(2)
    by (simp add: should_virtualize_initialized O_RDONLY_def O_WRONLY_def O_PATH_def)
  obtain st1 where build: "build_meminfo real (st\<lparr>sh_depth := 1\<rparr>) = (Some d, st1)" "sh_depth st1 = 1"
    using assms(4) by (simp add: build_meminfo_def the_world_def Let_def case_prod_beta)
  from fopen_memfd_works [OF assms(5,6), of d st1] obtain st2 where
    st2: "fopen_memfd real d st1 = Some (Some fp, st2)" "same_statics st1 st2" "content (sh_os st2) = d" by blast
  have depth2: "sh_depth st2 = 1" using same_staticsD(2) [OF st2(2)] build(2) by simp
  have "fopen_common real (Some ''/proc/meminfo'') mode use_fopen64 st = Some (Some fp, leave_guard st2)"
    using assms(3) depth by (simp add: fopen_common_def virt build(1) st2(1))
  with depth2 st2(3) show ?thesis by simp
qed

theorem meminfo_fopen_witness:
  "\<exists>st'. fopen_common demo_real (Some ''/proc/meminfo'') (Some ''re'') False demo_start = Some (Some 2, st') \<and>
     dw_file (os_world (sh_os st')) = demo_text"
proof -
  have on: "cfg_cgroup_memory (config_of demo_start)" by (simp add: demo_start_eq)
  have mode: "meminfo_mode_is_read_only (Some ''re'')" by (simp add: meminfo_mode_is_read_only_def)
  have build: "fst (rps_proc_meminfo_build (re_env demo_real (the_world demo_start))
      (re_fs demo_real (the_world demo_start)) (re_lock_ok demo_real Memory_lock (the_world demo_start))
      RPS_MEMINFO_BUFFER_SIZE (sh_memory demo_start)) = Some demo_text"
    by (simp add: demo_memory_calls demo_start_eq demo_build)
  have works: "memfd_works demo_real 9 2 (\<lambda>_. 0) (\<lambda>os. dw_file (os_world os))"
    unfolding memfd_works_def by (auto simp: demo_real_def)
  from meminfo_fopen [OF demo_start_ok(2) on mode build works, of False] show ?thesis by auto
qed

text \<open>
  C15. \<open>sysinfo\<close> reports the container's memory, in whatever unit \<open>unsigned long\<close> needs: with
  the memory module on and a snapshot taken, total and free memory are the snapshot's numbers
  rounded down to the unit, which is a power of two that fits 32 bits, both fit an
  \<open>unsigned long\<close> of at least 32 bits, and no other field changes; with 64 bits the unit is 1
  and the numbers are exact. No limit a cgroup can have makes the encoding fail.
\<close>

theorem sysinfo_reports_limit:
  assumes "reachable ulong_max long_max real st" "cfg_cgroup_memory (config_of st)"
    and "0xFFFFFFFF \<le> ulong_max"
    and "re_sysinfo real False (sh_os st) = ((0, info), os')"
    and "rps_memory_snapshot (re_env real (os_world os')) (re_fs real (os_world os'))
      (re_lock_ok real Memory_lock (os_world os')) (sh_memory st) = (Some s, ms)"
  shows "\<exists>info' i. hook_sysinfo ulong_max real False st = ((0, info'), st\<lparr>sh_os := os', sh_memory := ms\<rparr>) \<and>
    unat (si_mem_unit info') = 2 ^ i \<and> si_other info' = si_other info \<and>
    si_totalram info' \<le> ulong_max \<and> si_freeram info' \<le> ulong_max \<and>
    unat (si_totalram info') = unat (snap_total s) div unat (si_mem_unit info') \<and>
    unat (si_freeram info') = unat (snap_available s) div unat (si_mem_unit info') \<and>
    (ulong_max = 0xFFFFFFFFFFFFFFFF \<longrightarrow>
      si_mem_unit info' = 1 \<and> si_totalram info' = snap_total s \<and> si_freeram info' = snap_available s)"
proof -
  note ok = reachable_ok [OF assms(1)]
  have depth: "sh_depth st = 0" and init: "cs_initialized (sh_config st)" using ok by (simp_all add: shim_ok_def)
  note below = snapshot_of_state [OF ok assms(5)]
  obtain k i where k: "encode_sysinfo_memory ulong_max s = Some (snap_total s div k, snap_available s div k, ucast k)"
    "unat k = 2 ^ i" "unat (ucast k :: u32) = unat k" "snap_total s div k \<le> ulong_max" "snap_available s div k \<le> ulong_max"
    using encode_sysinfo_fits [OF assms(3) below] by blast
  let ?info = "info\<lparr>si_mem_unit := ucast k, si_totalram := snap_total s div k, si_freeram := snap_available s div k\<rparr>"
  have "st\<lparr>sh_depth := 0, sh_os := os', sh_memory := ms\<rparr> = st\<lparr>sh_os := os', sh_memory := ms\<rparr>"
    using depth by (cases st) simp
  then have "hook_sysinfo ulong_max real False st = ((0, ?info), st\<lparr>sh_os := os', sh_memory := ms\<rparr>)"
    using assms(2,4,5) depth init k(1)
    by (simp add: hook_sysinfo_def call_real_def take_snapshot_def the_world_def Let_def)
  moreover have "ulong_max = 0xFFFFFFFFFFFFFFFF \<Longrightarrow>
      (ucast k :: u32) = 1 \<and> snap_total s div k = snap_total s \<and> snap_available s div k = snap_available s"
  proof -
    assume "ulong_max = 0xFFFFFFFFFFFFFFFF"
    then have "ulong_max = -1" by simp
    then show ?thesis using encode_lp64 [of s] k(1) by simp
  qed
  ultimately show ?thesis
    using k by (intro exI [of _ ?info] exI [of _ i]) (simp add: unat_div)
qed

theorem sysinfo_reports_limit_witness:
  "\<exists>info'. fst (hook_sysinfo 0xFFFFFFFFFFFFFFFF demo_real False demo_start) = (0, info') \<and>
     si_totalram info' = 2147483648 \<and> si_freeram info' = 1610612736 \<and> si_mem_unit info' = 1"
proof -
  have on: "cfg_cgroup_memory (config_of demo_start)" by (simp add: demo_start_eq)
  have snap: "rps_memory_snapshot (re_env demo_real (os_world demo_os)) (re_fs demo_real (os_world demo_os))
      (re_lock_ok demo_real Memory_lock (os_world demo_os)) (sh_memory demo_start) =
      (Some demo_snapshot, demo_memory)"
    by (simp add: demo_memory_calls demo_start_eq demo_snapshot_taken)
  have call: "re_sysinfo demo_real False (sh_os demo_start) =
      ((0, \<lparr>si_totalram = 67108864, si_freeram = 61440000, si_mem_unit = 1024, si_other = []\<rparr>), demo_os)"
    by (simp add: demo_memory_calls demo_start_eq)
  have "(0xFFFFFFFF :: u64) \<le> 0xFFFFFFFFFFFFFFFF" by simp
  from sysinfo_reports_limit [OF demo_start_ok(2) on this call snap] show ?thesis
    by (auto simp: demo_snapshot_def)
qed

text \<open>
  C16. \<open>sysconf\<close> counts the container's pages: with the memory module on, a positive page size
  and a snapshot taken, \<open>_SC_PHYS_PAGES\<close> and \<open>_SC_AVPHYS_PAGES\<close> are the snapshot's total and
  available memory in whole pages; a count that does not fit a \<open>long\<close> is the error
  \<open>EOVERFLOW\<close>, which cannot happen when a \<open>long\<close> has 64 bits.
\<close>

theorem sysconf_counts_pages:
  assumes "reachable ulong_max long_max real st" "cfg_cgroup_memory (config_of st)"
    and "name \<in> {SC_PHYS_PAGES, SC_AVPHYS_PAGES}"
    and "re_sysconf real SC_PAGESIZE (sh_os st) = (int pg, os')" "0 < pg" "pg < 2 ^ 63"
    and "rps_memory_snapshot (re_env real (os_world os')) (re_fs real (os_world os'))
      (re_lock_ok real Memory_lock (os_world os')) (sh_memory st) = (Some s, ms)"
  shows "hook_sysconf long_max real name st =
      (let pages = unat (if name = SC_PHYS_PAGES then snap_total s else snap_available s) div pg;
           st' = st\<lparr>sh_os := os', sh_memory := ms\<rparr> in
       if unat long_max < pages then (-1, set_errno EOVERFLOW st') else (int pages, st')) \<and>
    unat (snap_total s) div pg \<le> 0x7FFFFFFFFFFFFFFF"
  using reachable_ok [OF assms(1)] assms(2-7) by (rule sysconf_pages)

theorem sysconf_counts_pages_witness:
  "fst (hook_sysconf 0x7FFFFFFFFFFFFFFF demo_real SC_PHYS_PAGES demo_start) = 524288"
proof -
  have on: "cfg_cgroup_memory (config_of demo_start)" by (simp add: demo_start_eq)
  have snap: "rps_memory_snapshot (re_env demo_real (os_world demo_os)) (re_fs demo_real (os_world demo_os))
      (re_lock_ok demo_real Memory_lock (os_world demo_os)) (sh_memory demo_start) =
      (Some demo_snapshot, demo_memory)"
    by (simp add: demo_memory_calls demo_start_eq demo_snapshot_taken)
  have call: "re_sysconf demo_real SC_PAGESIZE (sh_os demo_start) = (int 4096, demo_os)"
    by (simp add: demo_memory_calls demo_start_eq)
  have name: "SC_PHYS_PAGES \<in> {SC_PHYS_PAGES, SC_AVPHYS_PAGES}" by simp
  have pg: "0 < (4096 :: nat)" "(4096 :: nat) < 2 ^ 63" by simp_all
  from sysconf_counts_pages [OF demo_start_ok(2) on name call pg snap, THEN conjunct1] show ?thesis
    by (simp add: demo_snapshot_def)
qed

end
