(* ===== verification/Spec2Isabelle.thy ===== *)
theory Spec2Isabelle
  imports Core_Config Core_Paths Core_Fd_Map Cgroup_Memory Cgroup_Files Memory_View Gpu_Proc_Filter
    Gpu_Fd_Tracker Gpu_Fd_List_Heap Gpu_Ioctl_Filter Preload_Hooks Preload_Invariant Preload_Gpu Preload_Visible
    Preload_Programs Preload_Threads Preload_Memory
begin

text \<open>
  A verification development for runpod-shim, a library that is loaded in front of libc
  (\<open>LD_PRELOAD\<close>) in a container and makes the process see the container instead of the
  host: only the NVIDIA GPUs whose device nodes are mounted, and the cgroup's memory limit
  instead of the host's memory. Paths below are those of the repository.

  The program's parts and how they interact.

  The interposed functions (\<open>src/preload.c\<close>) are the outermost layer. When the library is
  loaded its constructor reads the configuration (\<open>src/core/config.c\<close>) and, if the GPU
  module is on, detects the topology (\<open>src/gpu/proc_filter.c\<close>): the device numbers under
  \<open>/dev\<close>, the \<open>information\<close> files of the driver, and from both the allowed GPUs. From then
  on a call with a path asks the filter for a decision; a call that opens something stores
  what was opened in the tracker (\<open>src/gpu/fd_tracker.c\<close>), which the calls on descriptors
  (\<open>openat\<close>, \<open>readdir\<close>, \<open>getdents64\<close>, \<open>dup\<close>, \<open>close\<close>) consult; an \<open>ioctl\<close> of the driver's
  control device has its answer filtered (\<open>src/gpu/ioctl_filter.c\<close>). On the memory side,
  \<open>open\<close> and \<open>fopen\<close> of \<open>/proc/meminfo\<close>, \<open>sysinfo\<close> and \<open>sysconf\<close> take a snapshot
  (\<open>src/memory/memory.c\<close>) of the limit found in the cgroup files (\<open>src/cgroup/cgroup.c\<close>,
  with the paths of \<open>src/core/paths.c\<close>) and write it into the rewritten text
  (\<open>src/memory/proc_meminfo.c\<close>), which \<open>read\<close> delivers from the table of virtual files
  (\<open>src/core/fd_map.c\<close>). A guard per thread (\<open>src/core/guard.c\<close>) lets the shim's own calls
  through.

  The theories and the code they model.

  \<^item> \<open>Shim_Prelude\<close>: C strings as byte lists, the libc functions used on them, and the
    lemmas every component needs.
  \<^item> \<open>Core_Config\<close>: \<open>core/config.c\<close> (\<open>rps_config_get\<close> on the static \<open>config_state\<close>),
    \<open>gpu/gpu_video.c\<close>, \<open>core/guard.c\<close>, \<open>core/log.c\<close>, \<open>core/real.c\<close>.
  \<^item> \<open>Core_Paths\<close>: \<open>core/paths.c\<close>, every function.
  \<^item> \<open>Core_Fd_Map\<close>: \<open>core/fd_map.c\<close>, the array of 64 \<open>fd_entry\<close> with put, take-read, remove.
  \<^item> \<open>Cgroup_Memory\<close>: \<open>cgroup/cgroup.c\<close>, from \<open>trim_token\<close> and \<open>parse_u64_token\<close> (on 64 bit
    words) over \<open>parse_mountinfo_line\<close> to \<open>rps_cgroup_memory_detect\<close> and \<open>_refresh\<close>.
    \<open>Cgroup_Files\<close>: the lines of the two files it reads, as the kernel writes them, and what
    the parser finds in any such files.
  \<^item> \<open>Memory_View\<close>: \<open>memory/memory.c\<close> and \<open>memory/proc_meminfo.c\<close>, with the state
    \<open>mem_state\<close> of the former.
  \<^item> \<open>Gpu_Proc_Filter\<close>: \<open>gpu/proc_filter.c\<close>: normalisation, the \<open>information\<close> parser, the
    scan of the two directories, the decision on a path, the compaction of a \<open>getdents64\<close>
    buffer as bytes.
  \<^item> \<open>Gpu_Fd_Tracker\<close>: \<open>gpu/fd_tracker.c\<close>: classification, and the list of descriptors as a
    value. \<open>Gpu_Fd_List_Heap\<close>: the same list as the code has it, nodes in memory with next
    pointers, \<open>malloc\<close> and \<open>free\<close>, refining the former; the hooks use the former.
  \<^item> \<open>Gpu_Ioctl_Filter\<close>: \<open>gpu/ioctl_filter.c\<close> and \<open>gpu/nvidia_rm.h\<close>, on a memory of bytes.
  \<^item> \<open>Preload_Hooks\<close>: \<open>preload.c\<close>, one definition per function, on the record \<open>shim\<close> of all
    the static state. \<open>sh_config\<close> is \<open>config\<close> of \<open>core/config.c\<close>, \<open>sh_depth\<close> the guard's
    depth, \<open>sh_fd_map\<close> \<open>entries\<close> of \<open>core/fd_map.c\<close>, \<open>sh_gpu_fds\<close> the list of
    \<open>gpu/fd_tracker.c\<close>, \<open>sh_gpu_ids\<close> the remembered ids of \<open>gpu/ioctl_filter.c\<close>, \<open>sh_memory\<close>
    the state of \<open>memory/memory.c\<close>, \<open>sh_allowed\<close> and \<open>sh_ready\<close> the two static variables of
    \<open>preload.c\<close>, \<open>sh_os\<close> everything below. A hook named after a libc function \<open>f\<close> is
    \<open>hook_f\<close>; the \<open>_common\<close> functions keep their names, with whether the 64 bit variant was
    called as an argument.
  \<^item> \<open>Bounded_Decimal\<close> and \<open>Fd_Table\<close> hold the interfaces: the digit loop that occurs four
    times, and the descriptor table that occurs twice. \<open>Memory_View\<close> has the third one, what a
    snapshot needs of its source. Each is interpreted on the model's own functions, in the
    theory of the component that provides them.
  \<^item> \<open>Preload_Invariant\<close>, \<open>Preload_Gpu\<close>, \<open>Preload_Visible\<close> and \<open>Preload_Memory\<close>: the step
    relation \<open>shim_step\<close> (any hook with any arguments, or any change of the system outside the
    shim), the states \<open>reachable\<close> from a loaded library, and the properties of the hooks.
  \<^item> \<open>Preload_Programs\<close>: every hook of \<open>preload.c\<close> as a program of atomic actions, one for each
    call of libc and one for each critical section, proved to be the hook of \<open>Preload_Hooks\<close>
    when it runs alone (\<open>programs_run_as_hooks\<close>). A program may be infinite (a codatatype), for
    the two loops that call libc until it gives the right answer. \<open>Preload_Threads\<close>: the
    interleavings of the programs of any number of threads.
\<close>

text \<open>
  What the lemmas show.

  \<^item> The two promises, at the end of this theory: \<open>unmounted_gpu_stays_denied\<close> composes topology
    detection, the decision on paths, the hooks that check it, the tracker and the step relation;
    \<open>pod_limit_seen_everywhere\<close> composes the cgroup files (any lines in the kernel's format),
    detection, the snapshot and the three interfaces that report it.
  \<^item> Hiding: the decision on a path is characterised exactly by its normal form
    (\<open>gpu_path_denied_iff\<close>, with \<open>normalize_path_resolves\<close> for the normal form); the hooks give
    \<open>ENOENT\<close> for it without asking libc (\<open>denied_gpu_is_absent\<close>), relative paths give no way
    around (\<open>relative_paths_resolved\<close>, \<open>relative_paths_denied\<close>), listings show what may be
    opened (\<open>readdir_lists_allowed\<close>, \<open>dirent_filter_exact\<close>), and
    no tracked descriptor is ever one of a hidden GPU (\<open>hidden_gpu_never_tracked\<close>). The set of
    allowed GPUs is the intended one (\<open>runtime_init_allows_mounted\<close>) and is fixed
    (\<open>setup_never_changes\<close>).
  \<^item> Driver answers: each of the three filters changes exactly the bytes it should
    (\<open>card_info_hides_unmounted\<close>, \<open>attached_ids_filtered\<close>, \<open>active_devices_filtered\<close>), the
    remembered ids are those of allowed cards (\<open>remembered_ids_sound\<close>), and everything else is
    left as the driver gave it (\<open>ioctl_filter_fails_open\<close>).
  \<^item> Memory: the mounts are those of the mount table (\<open>detect_mounts_finds_first\<close>), detection
    takes the smallest finite limit, snapshots are consistent and their
    total is stable, the rewritten text differs from the real one in three lines, and it is
    what \<open>read\<close> and a stream deliver; \<open>sysinfo\<close> and \<open>sysconf\<close> report the snapshot.
  \<^item> State: an invariant of all reachable states, and of all interleavings of threads, at every
    call of libc and between any two critical sections of any hook (\<open>threads_keep_invariant\<close>);
    both tables refine finite maps
    (\<open>linked_list_refines_map\<close>, down to the pointers, and \<open>virtual_file_reads_content\<close>).
  \<^item> Parsers: each number parser accepts exactly the decimal numbers within its bound, the
    \<open>information\<close> parser inverts what the driver prints and rejects every malformed value.

  Bounds and termination. Buffers have the sizes of the code (256 bytes for a path, 32 for a
  bus id, 64 segments, 64 virtual files, 32 GPUs and ids, 65536 bytes of meminfo text); what
  does not fit is a value of its own (\<open>None\<close>) where the code returns an error. Scans over a
  string, a list of lines or a directory buffer are structural or measured recursions, so the
  functions are total. Two loops depend on libc for their end, \<open>write_all_fd\<close> (retried on
  \<open>EINTR\<close>) and \<open>readdir_loop\<close> (skips hidden entries): they are partial functions whose
  non-termination is \<open>None\<close>, and the properties that use them prove that they return
  (\<open>meminfo_fopen\<close>, \<open>readdir_lists_allowed\<close>). The loops over linked nodes are partial functions
  too, which have no result on a dangling pointer or a cycle; \<open>linked_list_refines_map\<close> proves
  that this never happens. No fuel is used.

  What is a parameter. Libc, the kernel and the driver are the record \<open>real\<close>, functions on an
  abstract state of the process; nothing is assumed of them in general, a property names what
  it needs. The file system is a function from paths to contents, the environment one from
  names to values; both may change between any two calls. Whether \<open>malloc\<close> and locking succeed
  is a parameter too, so that the paths of their failure are branches of the model.

  What is not modelled. Trace output (only whether a line is printed); the interleaving of
  threads inside a critical section (the mutexes are taken to work); the functions compiled for the tests only (\<open>RUNPOD_SHIM_TESTING\<close>); \<open>tests/\<close>,
  \<open>tools/\<close> and \<open>packaging/\<close>.

  What modelling showed. Four lemmas evaluate behaviours that a user of the code should know:
  \<open>hidden_gpu_opened_by_fopen\<close> in \<open>Preload_Gpu\<close> (\<open>fopen\<close> opens the file of a hidden GPU, which \<open>open\<close>
  refuses),
  \<open>closedir_forgets_new_descriptor\<close> in \<open>Preload_Threads\<close> (\<open>closedir\<close> forgets a descriptor after it
  was closed, when another thread may have got it),
  \<open>stale_virtual_content\<close> in \<open>Preload_Memory\<close> (a descriptor closed behind the shim's back keeps
  its virtual content for the file that is opened on it next) and \<open>unready_still_refuses\<close> in
  \<open>Preload_Gpu\<close> (relative paths are refused even when no topology was detected).
\<close>

section \<open>From loading to the calls: lemmas\<close>

text \<open>What the process starts with when the GPU module is on.\<close>

lemma loaded_setup:
  assumes "\<not> rps_env_is_disabled (re_env real (os_world os)) ''RUNPOD_SHIM_GPU_VIDEO''"
    and "rps_gpu_proc_filter_runtime_init (re_gpu_sys real (os_world os)) None = (ready, allowed)"
  shows "sh_ready (runpod_shim_init real (shim_zero os)) = ready"
    "sh_allowed (runpod_shim_init real (shim_zero os)) = allowed"
  using assms
  by (simp_all add: runpod_shim_init_def get_config_def rps_config_get_def shim_zero_def config_state_init_def
      the_world_def)

lemma steps_reachable:
  assumes "(shim_step ul l real)\<^sup>*\<^sup>* (runpod_shim_init real (shim_zero os)) st"
  shows "reachable ul l real st \<and> same_setup (runpod_shim_init real (shim_zero os)) st"
  using assms
proof (induction rule: rtranclp_induct)
  case base
  then show ?case by (simp add: loaded same_setup_def)
next
  case (step st1 st2)
  then show ?case
    using shim_step_setup [OF step(2) reachable_ok] by (auto simp: same_setup_def intro: reachable.step)
qed



section \<open>Properties\<close>

text \<open>
  C1. The promise of the GPU module, from loading to every later call. Let the GPU module be on
  when the library is loaded, the two directories it reads then consist of well-formed records,
  \<open>minors\<close> be the first 32 device numbers under \<open>/dev\<close> and \<open>infos\<close> the first 32 GPUs with a
  readable \<open>information\<close> file, at least one of them with its number among \<open>minors\<close>. Then a GPU
  of which no record has its number among \<open>minors\<close> stays hidden after any calls and any
  changes of the system: \<open>open\<close>, \<open>openat\<close>, \<open>stat\<close>, \<open>fstatat\<close> and \<open>opendir\<close> (and \<open>open64\<close>,
  \<open>openat64\<close>, \<open>newfstatat\<close>, \<open>opendir64\<close>) on every absolute path whose lexical normal form is the GPU's
  directory or \<open>information\<close> file fail with \<open>ENOENT\<close> without a call of libc; \<open>readdir\<close> does not
  show its entry on a tracked GPU directory; and no tracked descriptor belongs to it. Calls
  that are not in this list are not covered: \<open>fopen\<close> does no check of the path
  (\<open>hidden_gpu_opened_by_fopen\<close>).
\<close>

theorem unmounted_gpu_stays_denied:
  assumes "\<not> rps_env_is_disabled (re_env real (os_world os)) ''RUNPOD_SHIM_GPU_VIDEO''"
    and "lists_names (sys_dev (re_gpu_sys real (os_world os))) dev_names"
    and "lists_names (sys_gpus (re_gpu_sys real (os_world os))) gpu_names"
    and "minors = take 32 (List.map_filter rps_gpu_name_is_nvidia_minor dev_names)"
    and "infos = take 32 (List.map_filter (gpu_info_of (re_gpu_sys real (os_world os))) gpu_names)"
    and "\<exists>i \<in> set infos. gi_present i \<and> gi_device_minor i \<in> set minors"
    and "\<forall>i \<in> set infos. gi_bus_id i = bus \<longrightarrow> gi_device_minor i \<notin> set minors"
    and "path_names_bus p bus"
    and "(shim_step ul l real)\<^sup>*\<^sup>* (runpod_shim_init real (shim_zero os)) st"
  shows "hook_open real b (Some p) flags va_mode st = (-1, set_errno ENOENT st) \<and>
    hook_openat real b dirfd (Some p) flags va_mode st = (-1, set_errno ENOENT st) \<and>
    hook_stat real (Some p) st = (-1, set_errno ENOENT st) \<and>
    fstatat_common real dirfd (Some p) at_flags st = (-1, set_errno ENOENT st) \<and>
    opendir_common real (Some p) b st = (None, set_errno ENOENT st) \<and>
    (\<forall>fd r. map_of (sh_gpu_fds st) fd = Some r \<longrightarrow>
       (fr_kind r = RPS_GPU_FD_PROC_GPUS_DIR \<and> bus \<noteq> ''.'' \<and> bus \<noteq> ''..'' \<longrightarrow>
          gpu_readdir_entry_allowed real fd (Some bus) st = (False, st)) \<and>
       (fr_kind r \<in> {RPS_GPU_FD_PROC_GPU_BUS_DIR, RPS_GPU_FD_PROC_GPU_INFO} \<longrightarrow> fr_bus_id r \<noteq> bus))"
proof -
  define gpus where "gpus = filter (\<lambda>i. gi_present i \<and> gi_device_minor i \<in> set minors) infos"
  have "gpus \<noteq> []" using assms(6) by (auto simp: gpus_def filter_empty_conv)
  with runtime_init_eq [OF assms(2,3), of None]
  have "rps_gpu_proc_filter_runtime_init (re_gpu_sys real (os_world os)) None = (True, \<lparr>ga_valid = True, ga_gpus = gpus\<rparr>)"
    by (simp add: assms(4,5) [symmetric] gpus_def [symmetric] Let_def)
  note start = loaded_setup [OF assms(1) this]
  have reach: "reachable ul l real st" and "sh_ready st" and allowed: "sh_allowed st = \<lparr>ga_valid = True, ga_gpus = gpus\<rparr>"
    using steps_reachable [OF assms(9)] start by (simp_all add: same_setup_def)
  have hidden: "bus \<notin> gi_bus_id ` set gpus" using assms(7) by (auto simp: gpus_def)
  have ok: "shim_ok st" by (rule reachable_ok [OF reach])
  have "rps_gpu_proc_path_allowed (Some (sh_allowed st)) (Some p) = RPS_GPU_PROC_DENY"
    using hidden assms(8) unfolding path_denied_iff by (intro exI [of _ "sh_allowed st"] exI [of _ bus]) (simp add: allowed)
  note calls = denied_calls [OF ok \<open>sh_ready st\<close> this, of real b flags va_mode dirfd at_flags]
  have fds: "gpu_fds_ok (sh_gpu_fds st)" by (rule shim_ok_tables [OF ok])
  have "gpu_readdir_entry_allowed real fd (Some bus) st = (False, st)"
    if "map_of (sh_gpu_fds st) fd = Some r" "fr_kind r = RPS_GPU_FD_PROC_GPUS_DIR" "bus \<noteq> ''.''" "bus \<noteq> ''..''" for fd r
    using that hidden \<open>sh_ready st\<close>
    by (simp add: readdir_entry_ok [OF ok] entry_visible_def tracker_get_eq [OF fds] allowed)
  moreover have "fr_bus_id r \<noteq> bus"
    if "map_of (sh_gpu_fds st) fd = Some r" "fr_kind r \<in> {RPS_GPU_FD_PROC_GPU_BUS_DIR, RPS_GPU_FD_PROC_GPU_INFO}" for fd r
    using reachable_visible [OF reach] \<open>sh_ready st\<close> that(2) hidden imageI [OF map_of_SomeD [OF that(1)], of snd]
    by (auto simp: tracked_visible_def gpu_record_visible_def allowed)
  ultimately show ?thesis using calls by blast
qed

theorem unmounted_gpu_stays_denied_witness:
  "hook_open demo_real False (Some (gpus_base @ ''/./0000:02:00.0//information'')) 0 0 (set_errno 5 demo_start) =
     (-1, set_errno ENOENT (set_errno 5 demo_start))"
proof -
  let ?p = "gpus_base @ ''/./0000:02:00.0//information''"
  have sys: "re_gpu_sys demo_real (os_world demo_os) = fixture_sys" "re_env demo_real (os_world demo_os) = (\<lambda>_. None)"
    by (simp_all add: demo_real_def)
  have on: "\<not> rps_env_is_disabled (\<lambda>_. None) ''RUNPOD_SHIM_GPU_VIDEO''" by (simp add: rps_env_is_disabled_def)
  have names: "path_names_bus ?p ''0000:02:00.0''" unfolding path_names_bus_def by code_simp
  have steps: "(shim_step 0 0 demo_real)\<^sup>*\<^sup>* (runpod_shim_init demo_real (shim_zero demo_os)) (set_errno 5 demo_start)"
    unfolding demo_start_def set_errno_def by (rule r_into_rtranclp) (rule outside)
  have "[0] = take 32 (List.map_filter rps_gpu_name_is_nvidia_minor [''null'', ''nvidia0''])"
    unfolding fixture_reads(4) by simp
  note seen = unmounted_gpu_stays_denied [where os = demo_os and real = demo_real, unfolded sys,
      OF on fixture_reads(1,2) this refl _ _ names steps]
  show ?thesis by (rule seen [unfolded fixture_reads(3), THEN conjunct1]) simp_all
qed










end
